theory Spec2Isabelle
  imports Complex_Main "HOL-Library.Sublist"
begin

text \<open>
  A model of the fetch-and-cache core of the data fetcher: the four fetch paths of
  \<open>BaseFetcher\<close> (json, csv, txt, api) with the server and client caches, cache
  invalidation, and the publish side of \<open>RealtimeManager\<close>. An asynchronous function is a
  function from the state before the call to the settled promise and the state after it;
  one call runs from start to end, so calls that overlap in time are outside the model.
  What a call reads from outside (network, clock, \<open>JSON.parse\<close>, the subclass's
  \<open>parseData\<close>) is a parameter, and what it does to the outside (requests, delays, clock
  reads) is logged in the state.
\<close>

section \<open>JavaScript values and built-ins used by the fetch core\<close>

text \<open>
  The TypeScript type parameter \<open>T\<close> of the class \<open>BaseFetcher\<close> is erased at run time, so every
  datum the fetcher handles is a plain JavaScript value. Numbers are IEEE doubles in the
  source; here a number stands for the literal that denotes it (a rational), and no
  arithmetic is done on these values. An object is the list of its own properties in the
  order in which JavaScript enumerates them (array-index keys first, ascending, then the
  other string keys in the order they were created); the objects built here and those
  \<open>JSON.parse\<close> returns have distinct keys. A string is the list of the bytes of its UTF-8
  encoding: the text of a response body, a configuration string or a header is well-formed
  Unicode, and on well-formed text splitting at an ASCII character, substring search and
  equality agree on the bytes and on JavaScript's UTF-16 code units.
\<close>

datatype jsval =
    JUndefined
  | JNull
  | JBool bool
  | JNumber rat
  | JString string
  | JArray "jsval list"
  | JObject "(string \<times> jsval) list"

datatype js_error =
    Error string
  | TypeError string
  | SyntaxError string
  | ReferenceError string

text \<open>\<open>String.prototype.includes\<close>: the argument occurs as a contiguous substring.\<close>

fun js_includes :: "string \<Rightarrow> string \<Rightarrow> bool" where
  "js_includes [] t = (t = [])"
| "js_includes (c # cs) t = (prefix t (c # cs) \<or> js_includes cs t)"

text \<open>\<open>String.prototype.split\<close> with a one-character separator; \<open>"".split(",")\<close> is \<open>[""]\<close>.\<close>

fun js_split :: "char \<Rightarrow> string \<Rightarrow> string list" where
  "js_split sep [] = [[]]"
| "js_split sep (c # cs) =
     (if c = sep then [] # js_split sep cs
      else (case js_split sep cs of r # rs \<Rightarrow> (c # r) # rs | [] \<Rightarrow> [[c]]))"

text \<open>
  White space and line terminators removed by \<open>String.prototype.trim\<close> and skipped by
  \<open>Number.parseInt\<close> (ECMAScript \<open>WhiteSpace\<close> and \<open>LineTerminator\<close>), by the length of their
  UTF-8 encoding. One byte: TAB, LF, VT, FF, CR, SPACE. Two bytes: U+00A0 (no-break space).
  Three bytes: U+1680, U+2000 to U+200A, U+2028, U+2029, U+202F, U+205F, U+3000 and U+FEFF.
\<close>

definition is_ws1 :: "char \<Rightarrow> bool" where
  "is_ws1 a = (a \<in> set [CHR 0x09, CHR 0x0A, CHR 0x0B, CHR 0x0C, CHR 0x0D, CHR 0x20])"

definition is_ws2 :: "char \<Rightarrow> char \<Rightarrow> bool" where
  "is_ws2 a b = (a = CHR 0xC2 \<and> b = CHR 0xA0)"

definition is_ws3 :: "char \<Rightarrow> char \<Rightarrow> char \<Rightarrow> bool" where
  "is_ws3 a b c =
     ((a = CHR 0xE1 \<and> b = CHR 0x9A \<and> c = CHR 0x80)
      \<or> (a = CHR 0xE2 \<and> b = CHR 0x80
          \<and> (c \<in> set [CHR 0x80, CHR 0x81, CHR 0x82, CHR 0x83, CHR 0x84, CHR 0x85, CHR 0x86,
                       CHR 0x87, CHR 0x88, CHR 0x89, CHR 0x8A, CHR 0xA8, CHR 0xA9, CHR 0xAF]))
      \<or> (a = CHR 0xE2 \<and> b = CHR 0x81 \<and> c = CHR 0x9F)
      \<or> (a = CHR 0xE3 \<and> b = CHR 0x80 \<and> c = CHR 0x80)
      \<or> (a = CHR 0xEF \<and> b = CHR 0xBB \<and> c = CHR 0xBF))"

text \<open>The string without its leading white space (\<open>String.prototype.trimStart\<close>).\<close>

fun trimStart :: "string \<Rightarrow> string" where
  "trimStart (a # b # c # r) =
     (if is_ws1 a then trimStart (b # c # r)
      else if is_ws2 a b then trimStart (c # r)
      else if is_ws3 a b c then trimStart r
      else a # b # c # r)"
| "trimStart [a, b] =
     (if is_ws1 a then trimStart [b]
      else if is_ws2 a b then []
      else [a, b])"
| "trimStart [a] = (if is_ws1 a then [] else [a])"
| "trimStart [] = []"

text \<open>
  The same from the end, on the reversed string: the first byte of the argument is the last
  byte of the string, so the bytes of an encoded white-space character come in reverse.
\<close>

fun trimEnd_rev :: "string \<Rightarrow> string" where
  "trimEnd_rev (a # b # c # r) =
     (if is_ws1 a then trimEnd_rev (b # c # r)
      else if is_ws2 b a then trimEnd_rev (c # r)
      else if is_ws3 c b a then trimEnd_rev r
      else a # b # c # r)"
| "trimEnd_rev [a, b] =
     (if is_ws1 a then trimEnd_rev [b]
      else if is_ws2 b a then []
      else [a, b])"
| "trimEnd_rev [a] = (if is_ws1 a then [] else [a])"
| "trimEnd_rev [] = []"

definition js_trim :: "string \<Rightarrow> string" where
  "js_trim s = rev (trimEnd_rev (rev (trimStart s)))"

definition is_digit :: "char \<Rightarrow> bool" where
  "is_digit c = (48 \<le> (of_char c :: nat) \<and> (of_char c :: nat) \<le> 57)"

definition digit_val :: "char \<Rightarrow> int" where
  "digit_val c = int (of_char c) - 48"

definition digits_val :: "string \<Rightarrow> int" where
  "digits_val ds = foldl (\<lambda>acc d. acc * 10 + digit_val d) 0 ds"

text \<open>
  \<open>Number.parseInt(s, 10)\<close>: leading white space, an optional sign, then the longest run of
  decimal digits; \<open>NaN\<close> (here \<open>None\<close>) when there is no digit.
\<close>

definition parseInt :: "string \<Rightarrow> int option" where
  "parseInt s =
     (let t = trimStart s;
          neg = (case t of c # _ \<Rightarrow> c = CHR ''-'' | [] \<Rightarrow> False);
          u = (case t of c # r \<Rightarrow> if c = CHR ''-'' \<or> c = CHR ''+'' then r else t | [] \<Rightarrow> []);
          ds = takeWhile is_digit u
      in if ds = [] then None
         else Some (if neg then - digits_val ds else digits_val ds))"

text \<open>Decimal rendering of an integer, as a template literal renders a whole number.\<close>

fun digits_of :: "nat \<Rightarrow> string" where
  "digits_of n =
     (if n < 10 then [char_of (48 + n)]
      else digits_of (n div 10) @ [char_of (48 + n mod 10)])"

declare digits_of.simps [simp del]

definition string_of_int :: "int \<Rightarrow> string" where
  "string_of_int i = (if i < 0 then CHR ''-'' # digits_of (nat (- i)) else digits_of (nat i))"

subsection \<open>Truthiness, property reads\<close>

fun truthy :: "jsval \<Rightarrow> bool" where
  "truthy JUndefined = False"
| "truthy JNull = False"
| "truthy (JBool b) = b"
| "truthy (JNumber n) = (n \<noteq> 0)"
| "truthy (JString s) = (s \<noteq> [])"
| "truthy (JArray _) = True"
| "truthy (JObject _) = True"

fun isArray :: "jsval \<Rightarrow> bool" where
  "isArray (JArray _) = True"
| "isArray _ = False"

text \<open>
  The read \<open>v.name\<close> for the property names the fetcher reads (\<open>data\<close>, \<open>pagination\<close>,
  \<open>totalItems\<close>, \<open>totalPages\<close>): a \<open>TypeError\<close> on \<open>null\<close> and \<open>undefined\<close>, the own property of
  an object, and \<open>undefined\<close> otherwise (no prototype defines these names).
\<close>

fun get_prop :: "jsval \<Rightarrow> string \<Rightarrow> js_error + jsval" where
  "get_prop JUndefined name = Inl (TypeError ''Cannot read properties of undefined'')"
| "get_prop JNull name = Inl (TypeError ''Cannot read properties of null'')"
| "get_prop (JObject kvs) name =
     Inr (case map_of kvs name of Some v \<Rightarrow> v | None \<Rightarrow> JUndefined)"
| "get_prop _ name = Inr JUndefined"

text \<open>The optional read \<open>v?.name\<close>: \<open>undefined\<close> on \<open>null\<close> and \<open>undefined\<close>, never an error.\<close>

definition get_prop_opt :: "jsval \<Rightarrow> string \<Rightarrow> jsval" where
  "get_prop_opt v name = (case get_prop v name of Inl _ \<Rightarrow> JUndefined | Inr x \<Rightarrow> x)"

subsection \<open>The built-in \<open>Map\<close>\<close>

text \<open>
  A \<open>Map\<close> keeps its entries in insertion order with unique keys: \<open>set\<close> on a present key
  replaces the value in place, on an absent key appends.
\<close>

type_synonym ('k, 'v) js_map = "('k \<times> 'v) list"

definition map_has :: "('k, 'v) js_map \<Rightarrow> 'k \<Rightarrow> bool" where
  "map_has m k = (k \<in> set (map fst m))"

definition map_get :: "('k, 'v) js_map \<Rightarrow> 'k \<Rightarrow> 'v option" where
  "map_get m k = map_of m k"

fun map_set :: "('k, 'v) js_map \<Rightarrow> 'k \<Rightarrow> 'v \<Rightarrow> ('k, 'v) js_map" where
  "map_set [] k v = [(k, v)]"
| "map_set ((k', v') # m) k v = (if k' = k then (k, v) # m else (k', v') # map_set m k v)"

definition map_delete :: "('k, 'v) js_map \<Rightarrow> 'k \<Rightarrow> ('k, 'v) js_map" where
  "map_delete m k = filter (\<lambda>kv. fst kv \<noteq> k) m"

definition map_keys :: "('k, 'v) js_map \<Rightarrow> 'k list" where
  "map_keys m = map fst m"

text \<open>
  An array index is the canonical decimal numeral of an integer from 0 to \<open>2^32 - 2\<close>: digits
  only, no leading zero except for \<open>"0"\<close> itself.
\<close>

definition array_index :: "string \<Rightarrow> int option" where
  "array_index key =
     (case key of
        [] \<Rightarrow> None
      | c # r \<Rightarrow>
          if list_all is_digit key \<and> (r = [] \<or> c \<noteq> CHR ''0'') \<and> digits_val key < 2 ^ 32 - 1
          then Some (digits_val key) else None)"

text \<open>
  A new property whose key is the array index \<open>n\<close> is enumerated after the smaller array
  indices and before everything else.
\<close>

fun insert_index :: "int \<Rightarrow> string \<Rightarrow> jsval \<Rightarrow> (string \<times> jsval) list \<Rightarrow> (string \<times> jsval) list" where
  "insert_index n key v [] = [(key, v)]"
| "insert_index n key v ((k', v') # obj) =
     (case array_index k' of
        Some m \<Rightarrow> if m < n then (k', v') # insert_index n key v obj
                  else (key, v) # (k', v') # obj
      | None \<Rightarrow> (key, v) # (k', v') # obj)"

text \<open>
  The assignment \<open>obj[key] = value\<close> on a plain object, for a value that is a string or
  \<open>undefined\<close>: the setter of \<open>__proto__\<close> ignores such values, so that key creates no property.
  A present key keeps its place and takes the new value; a new key is placed where the
  enumeration order of own properties puts it.
\<close>

definition obj_assign :: "(string \<times> jsval) list \<Rightarrow> string \<Rightarrow> jsval \<Rightarrow> (string \<times> jsval) list" where
  "obj_assign obj key v =
     (if key = ''__proto__'' then obj
      else if map_has obj key then map_set obj key v
      else (case array_index key of
              Some n \<Rightarrow> insert_index n key v obj
            | None \<Rightarrow> obj @ [(key, v)]))"

section \<open>Data model of the fetcher\<close>

record PaginationOptions =
  page :: int
  limit :: int
  enabled :: bool

text \<open>
  \<open>FetcherOptions\<close> after the constructor ran: \<open>pagination\<close> is always present then. The
  data source is whatever string the configuration holds at run time.
\<close>

record FetcherOptions =
  dataSource :: "string option"
  componentId :: string
  endpoint :: "string option"
  pagination :: PaginationOptions

definition new_options ::
  "string option \<Rightarrow> string \<Rightarrow> string option \<Rightarrow> PaginationOptions option \<Rightarrow> FetcherOptions" where
  "new_options ds cid ep pg =
     \<lparr>dataSource = ds, componentId = cid, endpoint = ep,
      pagination = (case pg of Some p \<Rightarrow> p
                    | None \<Rightarrow> \<lparr>page = 1, limit = 0, enabled = False\<rparr>)\<rparr>"

definition setPagination :: "int \<Rightarrow> int \<Rightarrow> bool \<Rightarrow> FetcherOptions \<Rightarrow> FetcherOptions" where
  "setPagination p l e opts = opts\<lparr>pagination := \<lparr>page = p, limit = l, enabled = e\<rparr>\<rparr>"

record fetch_result =
  data :: "jsval list"
  totalItems :: jsval
  totalPages :: jsval

text \<open>An entry of the client cache: the result fields and the time it was stored.\<close>

record cache_entry = fetch_result +
  timestamp :: int

record request =
  url :: string
  headers :: "(string \<times> string) list"

text \<open>
  What the fetcher reads of a response: the status (\<open>ok\<close> is derived from it), the status
  text, the value of \<open>headers.get("Retry-After")\<close> (\<open>None\<close> for \<open>null\<close>) and the body text,
  which \<open>response.text()\<close> returns and \<open>response.json()\<close> hands to \<open>JSON.parse\<close>. A fetch
  that brings no response at all rejects with a \<open>TypeError\<close>.
\<close>

record response =
  status :: nat
  statusText :: string
  retryAfter :: "string option"
  body :: string

datatype fetch_outcome = NetworkFailure | Response response

definition ok :: "response \<Rightarrow> bool" where
  "ok r = (200 \<le> status r \<and> status r \<le> 299)"

record registry =
  apiBasePath :: string
  baseUrl :: string

text \<open>
  Everything a fetch reads from outside the fetcher: the network (the outcome of the
  \<open>k\<close>-th request of the run), the clock (the value of the \<open>k\<close>-th \<open>Date.now()\<close>),
  \<open>JSON.parse\<close> (\<open>None\<close> when it throws), the subclass's \<open>parseData\<close>, the registry, and the
  environment variables read by the api path.
\<close>

record ctx =
  net :: "nat \<Rightarrow> request \<Rightarrow> fetch_outcome"
  clock :: "nat \<Rightarrow> int"
  JSON_parse :: "string \<Rightarrow> jsval option"
  parseData :: "jsval \<Rightarrow> js_error + jsval list"
  the_registry :: registry
  process_defined :: bool
  rapidapi_key :: "string option"
  rapidapi_host :: "string option"

text \<open>
  The mutable state: the static server cache shared by all fetchers, the client cache of
  this fetcher, and the effects so far (requests sent, delays waited for, clock reads).
\<close>

record state =
  serverCache :: "(string, jsval list) js_map"
  clientCache :: "(string, cache_entry) js_map"
  calls :: "request list"
  sleeps :: "int list"
  ticks :: nat

text \<open>A settled promise: rejected with an error (\<open>Inl\<close>) or resolved, and the state then.\<close>

type_synonym 'a promise = "(js_error + 'a) \<times> state"

definition cacheExpirationTime :: int where
  "cacheExpirationTime = 5 * 60 * 1000"

text \<open>
  The effects: \<open>Date.now()\<close> takes the next value of the clock, \<open>fetch\<close> takes the next
  outcome of the network and logs the request, and a wait on \<open>setTimeout\<close> logs the delay
  it asked for.
\<close>

definition date_now :: "ctx \<Rightarrow> state \<Rightarrow> int \<times> state" where
  "date_now C s = (clock C (ticks s), s\<lparr>ticks := Suc (ticks s)\<rparr>)"

definition js_fetch :: "ctx \<Rightarrow> request \<Rightarrow> state \<Rightarrow> fetch_outcome \<times> state" where
  "js_fetch C rq s = (net C (length (calls s)) rq, s\<lparr>calls := calls s @ [rq]\<rparr>)"

definition js_sleep :: "int \<Rightarrow> state \<Rightarrow> state" where
  "js_sleep ms s = s\<lparr>sleeps := sleeps s @ [ms]\<rparr>"

definition response_json :: "ctx \<Rightarrow> response \<Rightarrow> js_error + jsval" where
  "response_json C r =
     (case JSON_parse C (body r) of
        None \<Rightarrow> Inl (SyntaxError ''Unexpected token'')
      | Some v \<Rightarrow> Inr v)"

text \<open>The result \<open>{ data }\<close>: a read of \<open>totalItems\<close> or \<open>totalPages\<close> on it gives \<open>undefined\<close>.\<close>

definition only_data :: "jsval list \<Rightarrow> fetch_result" where
  "only_data d = \<lparr>data = d, totalItems = JUndefined, totalPages = JUndefined\<rparr>"

section \<open>Cache invalidation\<close>

text \<open>
  \<open>invalidateCache\<close>: the first argument is \<open>typeof window === "undefined"\<close>, that is,
  whether the code runs on the server.
\<close>

definition delete_matching :: "string \<Rightarrow> (string, 'v) js_map \<Rightarrow> (string, 'v) js_map" where
  "delete_matching cid m =
     foldl (\<lambda>m' key. if js_includes key cid then map_delete m' key else m') m (map_keys m)"

definition invalidateCache :: "bool \<Rightarrow> FetcherOptions \<Rightarrow> state \<Rightarrow> state" where
  "invalidateCache window_undefined opts s =
     (let s1 = s\<lparr>clientCache := delete_matching (componentId opts) (clientCache s)\<rparr>
      in if window_undefined
         then s1\<lparr>serverCache := delete_matching (componentId opts) (serverCache s1)\<rparr>
         else s1)"

section \<open>URLs and cache keys\<close>

definition getDataUrl :: "registry \<Rightarrow> string \<Rightarrow> string option \<Rightarrow> bool \<Rightarrow> string" where
  "getDataUrl R cid ds isServer =
     (let dsrc = (case ds of None \<Rightarrow> ''json'' | Some d \<Rightarrow> d)
      in if isServer
         then baseUrl R @ apiBasePath R @ ''?component='' @ cid @ ''&dataSource='' @ dsrc
         else apiBasePath R @ ''?component='' @ cid @ ''&dataSource='' @ dsrc)"

definition getUrl :: "registry \<Rightarrow> FetcherOptions \<Rightarrow> bool \<Rightarrow> string" where
  "getUrl R opts isServer =
     (let paged =
            (let u = getDataUrl R (componentId opts) (dataSource opts) isServer
             in if enabled (pagination opts) \<and> limit (pagination opts) > 0
                then u @ ''&page='' @ string_of_int (page (pagination opts))
                       @ ''&limit='' @ string_of_int (limit (pagination opts))
                else u)
      in case endpoint opts of
           Some e \<Rightarrow> if e \<noteq> [] \<and> dataSource opts = Some ''api'' then e else paged
         | None \<Rightarrow> paged)"

definition json_cache_key :: "FetcherOptions \<Rightarrow> string" where
  "json_cache_key opts =
     (let paginationString =
            (if enabled (pagination opts)
             then ''_page'' @ string_of_int (page (pagination opts))
                  @ ''_limit'' @ string_of_int (limit (pagination opts))
             else [])
      in ''json_'' @ componentId opts @ paginationString)"

definition csv_cache_key :: "FetcherOptions \<Rightarrow> string" where
  "csv_cache_key opts = ''csv_'' @ componentId opts"

definition txt_cache_key :: "FetcherOptions \<Rightarrow> string" where
  "txt_cache_key opts = ''txt_'' @ componentId opts"

definition api_cache_key :: "FetcherOptions \<Rightarrow> string" where
  "api_cache_key opts = ''api_'' @ componentId opts"

section \<open>The cache check shared by the four fetch paths\<close>

text \<open>
  Each path begins with the same check. With the server flag, \<open>serverCache.has(key)\<close>
  followed by \<open>serverCache.get(key)\<close> is one lookup in the shared table. Without it, the
  client side of the check: the clock is read only when an entry is present, and the
  entry is used when its age is below the expiry window.
\<close>

definition client_cache_fresh :: "ctx \<Rightarrow> string \<Rightarrow> state \<Rightarrow> cache_entry option \<times> state" where
  "client_cache_fresh C cacheKey s =
     (case map_get (clientCache s) cacheKey of
        None \<Rightarrow> (None, s)
      | Some cachedData \<Rightarrow>
          (let (now, s') = date_now C s
           in if now - timestamp cachedData < cacheExpirationTime
              then (Some cachedData, s') else (None, s')))"

text \<open>Storing a parsed result: the server table takes the data alone, the client table an entry stamped with the clock.\<close>

definition store_result :: "ctx \<Rightarrow> bool \<Rightarrow> string \<Rightarrow> fetch_result \<Rightarrow> state \<Rightarrow> state" where
  "store_result C isServer cacheKey r s =
     (if isServer then s\<lparr>serverCache := map_set (serverCache s) cacheKey (data r)\<rparr>
      else (let (now, s') = date_now C s
            in s'\<lparr>clientCache := map_set (clientCache s') cacheKey
                     \<lparr>data = data r, totalItems = totalItems r, totalPages = totalPages r,
                      timestamp = now\<rparr>\<rparr>))"

section \<open>The json path\<close>

text \<open>
  The shape test of \<open>fetchJsonData\<close> on the decoded body: the envelope, the bare array, and
  the remaining shapes. The read \<open>responseData.data\<close> comes first and throws on \<open>null\<close>.
\<close>

definition decode_json_response :: "ctx \<Rightarrow> jsval \<Rightarrow> js_error + fetch_result" where
  "decode_json_response C responseData =
     (case get_prop responseData ''data'' of
        Inl e \<Rightarrow> Inl e
      | Inr d \<Rightarrow>
          if truthy d \<and> isArray d then
            (case parseData C d of
               Inl e \<Rightarrow> Inl e
             | Inr parsedData \<Rightarrow>
                 Inr \<lparr>data = parsedData,
                      totalItems = get_prop_opt (get_prop_opt responseData ''pagination'') ''totalItems'',
                      totalPages = get_prop_opt (get_prop_opt responseData ''pagination'') ''totalPages''\<rparr>)
          else if isArray responseData then
            (case parseData C responseData of
               Inl e \<Rightarrow> Inl e
             | Inr parsedData \<Rightarrow> Inr (only_data parsedData))
          else Inr (only_data []))"

definition json_network :: "ctx \<Rightarrow> FetcherOptions \<Rightarrow> bool \<Rightarrow> string \<Rightarrow> state \<Rightarrow> fetch_result promise" where
  "json_network C opts isServer cacheKey s =
     (let (out, s1) = js_fetch C \<lparr>url = getUrl (the_registry C) opts isServer, headers = []\<rparr> s
      in case out of
           NetworkFailure \<Rightarrow> (Inl (TypeError ''fetch failed''), s1)
         | Response resp \<Rightarrow>
             if \<not> ok resp then (Inl (Error (''Failed to fetch data: '' @ statusText resp)), s1)
             else (case response_json C resp of
                     Inl e \<Rightarrow> (Inl e, s1)
                   | Inr responseData \<Rightarrow>
                       (case decode_json_response C responseData of
                          Inl e \<Rightarrow> (Inl e, s1)
                        | Inr r \<Rightarrow> (Inr r, store_result C isServer cacheKey r s1))))"

definition fetchJsonData :: "ctx \<Rightarrow> FetcherOptions \<Rightarrow> bool \<Rightarrow> state \<Rightarrow> fetch_result promise" where
  "fetchJsonData C opts isServer s =
     (let cacheKey = json_cache_key opts
      in if isServer then
           (case map_get (serverCache s) cacheKey of
              Some d \<Rightarrow> (Inr (only_data d), s)
            | None \<Rightarrow> json_network C opts isServer cacheKey s)
         else
           (case client_cache_fresh C cacheKey s of
              (Some cachedData, s1) \<Rightarrow>
                (Inr \<lparr>data = data cachedData, totalItems = totalItems cachedData,
                      totalPages = totalPages cachedData\<rparr>, s1)
            | (None, s1) \<Rightarrow> json_network C opts isServer cacheKey s1))"

section \<open>The csv and txt paths\<close>

text \<open>
  One csv row zipped against the headers: \<open>values[index]?.trim()\<close> is \<open>undefined\<close> past
  the end of the row.
\<close>

definition csv_record :: "string list \<Rightarrow> string \<Rightarrow> jsval" where
  "csv_record hdrs row =
     (let values = js_split CHR '','' row
      in JObject (foldl (\<lambda>obj (header, index).
                    obj_assign obj (js_trim header)
                      (if index < length values then JString (js_trim (values ! index))
                       else JUndefined))
                  [] (zip hdrs [0..<length hdrs])))"

definition csv_decode :: "string \<Rightarrow> js_error + jsval" where
  "csv_decode text =
     (case js_split CHR 0x0A text of
        [] \<Rightarrow> Inl (TypeError ''Cannot read properties of undefined'')
      | r0 # rest \<Rightarrow>
          (let hdrs = js_split CHR '','' r0
           in Inr (JArray (map (csv_record hdrs) (filter (\<lambda>row. js_trim row \<noteq> []) rest)))))"

definition csv_network :: "ctx \<Rightarrow> FetcherOptions \<Rightarrow> bool \<Rightarrow> string \<Rightarrow> state \<Rightarrow> fetch_result promise" where
  "csv_network C opts isServer cacheKey s =
     (let (out, s1) = js_fetch C \<lparr>url = getUrl (the_registry C) opts isServer, headers = []\<rparr> s
      in case out of
           NetworkFailure \<Rightarrow> (Inl (TypeError ''fetch failed''), s1)
         | Response resp \<Rightarrow>
             if \<not> ok resp then (Inl (Error (''Failed to fetch CSV data: '' @ statusText resp)), s1)
             else (case csv_decode (body resp) of
                     Inl e \<Rightarrow> (Inl e, s1)
                   | Inr jsonData \<Rightarrow>
                       (case parseData C jsonData of
                          Inl e \<Rightarrow> (Inl e, s1)
                        | Inr parsedData \<Rightarrow>
                            (Inr (only_data parsedData),
                             store_result C isServer cacheKey (only_data parsedData) s1))))"

definition fetchCsvData :: "ctx \<Rightarrow> FetcherOptions \<Rightarrow> bool \<Rightarrow> state \<Rightarrow> fetch_result promise" where
  "fetchCsvData C opts isServer s =
     (let cacheKey = csv_cache_key opts
      in if isServer then
           (case map_get (serverCache s) cacheKey of
              Some d \<Rightarrow> (Inr (only_data d), s)
            | None \<Rightarrow> csv_network C opts isServer cacheKey s)
         else
           (case client_cache_fresh C cacheKey s of
              (Some cachedData, s1) \<Rightarrow> (Inr (only_data (data cachedData)), s1)
            | (None, s1) \<Rightarrow> csv_network C opts isServer cacheKey s1))"

text \<open>
  The key:value grammar of a txt line: \<open>const [key, value] = pair.split(":").map(trim)\<close>
  takes the first two parts, and the pair is kept when both are non-empty strings.
\<close>

definition txt_pair :: "(string \<times> jsval) list \<Rightarrow> string \<Rightarrow> (string \<times> jsval) list" where
  "txt_pair obj pair =
     (case map js_trim (js_split CHR '':'' pair) of
        key # v # _ \<Rightarrow> if key \<noteq> [] \<and> v \<noteq> [] then obj_assign obj key (JString v) else obj
      | _ \<Rightarrow> obj)"

definition txt_key_values :: "string \<Rightarrow> jsval" where
  "txt_key_values line = JObject (foldl txt_pair [] (js_split CHR '','' line))"

definition txt_line :: "ctx \<Rightarrow> string \<Rightarrow> jsval" where
  "txt_line C line =
     (case JSON_parse C line of
        Some v \<Rightarrow> v
      | None \<Rightarrow> txt_key_values line)"

definition txt_decode :: "ctx \<Rightarrow> string \<Rightarrow> jsval" where
  "txt_decode C text =
     JArray (map (txt_line C) (filter (\<lambda>line. js_trim line \<noteq> []) (js_split CHR 0x0A text)))"

definition txt_network :: "ctx \<Rightarrow> FetcherOptions \<Rightarrow> bool \<Rightarrow> string \<Rightarrow> state \<Rightarrow> fetch_result promise" where
  "txt_network C opts isServer cacheKey s =
     (let (out, s1) = js_fetch C \<lparr>url = getUrl (the_registry C) opts isServer, headers = []\<rparr> s
      in case out of
           NetworkFailure \<Rightarrow> (Inl (TypeError ''fetch failed''), s1)
         | Response resp \<Rightarrow>
             if \<not> ok resp then (Inl (Error (''Failed to fetch TXT data: '' @ statusText resp)), s1)
             else (case parseData C (txt_decode C (body resp)) of
                     Inl e \<Rightarrow> (Inl e, s1)
                   | Inr parsedData \<Rightarrow>
                       (Inr (only_data parsedData),
                        store_result C isServer cacheKey (only_data parsedData) s1)))"

definition fetchTxtData :: "ctx \<Rightarrow> FetcherOptions \<Rightarrow> bool \<Rightarrow> state \<Rightarrow> fetch_result promise" where
  "fetchTxtData C opts isServer s =
     (let cacheKey = txt_cache_key opts
      in if isServer then
           (case map_get (serverCache s) cacheKey of
              Some d \<Rightarrow> (Inr (only_data d), s)
            | None \<Rightarrow> txt_network C opts isServer cacheKey s)
         else
           (case client_cache_fresh C cacheKey s of
              (Some cachedData, s1) \<Rightarrow> (Inr (only_data (data cachedData)), s1)
            | (None, s1) \<Rightarrow> txt_network C opts isServer cacheKey s1))"

section \<open>The api path\<close>

definition MAX_RETRIES :: nat where
  "MAX_RETRIES = 3"

text \<open>
  The header block of an attempt reads \<open>process.env\<close> unguarded, inside the \<open>try\<close>; where
  \<open>process\<close> is not defined the read throws a \<open>ReferenceError\<close>.
\<close>

definition api_headers :: "ctx \<Rightarrow> js_error + (string \<times> string) list" where
  "api_headers C =
     (if \<not> process_defined C then Inl (ReferenceError ''process is not defined'')
      else (case (rapidapi_key C, rapidapi_host C) of
              (Some k, Some h) \<Rightarrow>
                if k \<noteq> [] \<and> h \<noteq> []
                then Inr [(''x-rapidapi-key'', k), (''x-rapidapi-host'', h)]
                else Inr []
            | _ \<Rightarrow> Inr []))"

text \<open>
  The wait after a 429: \<open>Number.parseInt(retryAfter, 10) * 1000 || 2 ** retries * 1000\<close>
  with \<open>retryAfter = headers.get("Retry-After") || "5"\<close>.
\<close>

definition rate_limit_wait :: "string option \<Rightarrow> nat \<Rightarrow> int" where
  "rate_limit_wait hdr retries =
     (let retryAfter = (case hdr of Some h \<Rightarrow> if h \<noteq> [] then h else ''5'' | None \<Rightarrow> ''5'')
      in case parseInt retryAfter of
           Some n \<Rightarrow> if n * 1000 \<noteq> 0 then n * 1000 else 2 ^ retries * 1000
         | None \<Rightarrow> 2 ^ retries * 1000)"

text \<open>
  The body of the \<open>try\<close> of one attempt: it throws (\<open>Inl\<close>), leaves by \<open>continue\<close> after the
  429 wait, or returns the parsed data after storing them.
\<close>

datatype api_step = Continue | Returned "jsval list"

definition api_try :: "ctx \<Rightarrow> bool \<Rightarrow> string \<Rightarrow> string \<Rightarrow> nat \<Rightarrow> state \<Rightarrow> (js_error + api_step) \<times> state" where
  "api_try C isServer u cacheKey retries s =
     (case api_headers C of
        Inl e \<Rightarrow> (Inl e, s)
      | Inr hs \<Rightarrow>
          (let (out, s1) = js_fetch C \<lparr>url = u, headers = hs\<rparr> s
           in case out of
                NetworkFailure \<Rightarrow> (Inl (TypeError ''fetch failed''), s1)
              | Response resp \<Rightarrow>
                  if status resp = 429 then
                    (Inr Continue, js_sleep (rate_limit_wait (retryAfter resp) retries) s1)
                  else if \<not> ok resp then
                    (Inl (Error (''Failed to fetch API data: '' @ statusText resp)), s1)
                  else (case response_json C resp of
                          Inl e \<Rightarrow> (Inl e, s1)
                        | Inr d \<Rightarrow>
                            (case parseData C d of
                               Inl e \<Rightarrow> (Inl e, s1)
                             | Inr parsedData \<Rightarrow>
                                 (Inr (Returned parsedData),
                                  store_result C isServer cacheKey (only_data parsedData) s1)))))"

text \<open>
  The retry loop \<open>while (retries < MAX_RETRIES)\<close>: \<open>Some\<close> when an attempt returned,
  \<open>None\<close> when the loop ran out. The \<open>catch\<close> waits \<open>2 ** retries * 1000\<close> ms.
\<close>

function api_loop :: "ctx \<Rightarrow> bool \<Rightarrow> string \<Rightarrow> string \<Rightarrow> nat \<Rightarrow> state \<Rightarrow> jsval list option \<times> state" where
  "api_loop C isServer u cacheKey retries s =
     (if retries < MAX_RETRIES then
        (case api_try C isServer u cacheKey retries s of
           (Inr (Returned parsedData), s1) \<Rightarrow> (Some parsedData, s1)
         | (Inr Continue, s1) \<Rightarrow> api_loop C isServer u cacheKey (retries + 1) s1
         | (Inl e, s1) \<Rightarrow>
             api_loop C isServer u cacheKey (retries + 1) (js_sleep (2 ^ retries * 1000) s1))
      else (None, s))"
  by pat_completeness auto
termination
  by (relation "measure (\<lambda>(C, isServer, u, cacheKey, retries, s). MAX_RETRIES - retries)") auto

declare api_loop.simps [simp del]

definition mock_users :: "jsval list" where
  "mock_users =
     [JObject [(''id'', JNumber 1), (''name'', JString ''Mock User 1''), (''email'', JString ''user1@example.com'')],
      JObject [(''id'', JNumber 2), (''name'', JString ''Mock User 2''), (''email'', JString ''user2@example.com'')],
      JObject [(''id'', JNumber 3), (''name'', JString ''Mock User 3''), (''email'', JString ''user3@example.com'')]]"

definition mock_products :: "jsval list" where
  "mock_products =
     [JObject [(''id'', JNumber 1), (''name'', JString ''Mock Product 1''), (''price'', JNumber (9999 / 100)),
               (''description'', JString ''A mock product'')],
      JObject [(''id'', JNumber 2), (''name'', JString ''Mock Product 2''), (''price'', JNumber (19999 / 100)),
               (''description'', JString ''Another mock product'')],
      JObject [(''id'', JNumber 3), (''name'', JString ''Mock Product 3''), (''price'', JNumber (29999 / 100)),
               (''description'', JString ''Yet another mock product'')]]"

definition getMockData :: "FetcherOptions \<Rightarrow> jsval list" where
  "getMockData opts =
     (if js_includes (componentId opts) ''User'' then mock_users
      else if js_includes (componentId opts) ''Product'' then mock_products
      else [])"

text \<open>
  The fallback read after the loop, inside its own \<open>try\<close>: only on the client, and its
  result is not cached. \<open>None\<close> stands for falling through to the mock data.
\<close>

definition api_fallback_try :: "ctx \<Rightarrow> FetcherOptions \<Rightarrow> bool \<Rightarrow> state \<Rightarrow> (js_error + jsval list option) \<times> state" where
  "api_fallback_try C opts isServer s =
     (if \<not> isServer then
        (let (out, s1) = js_fetch C \<lparr>url = ''/api/fallback?component='' @ componentId opts, headers = []\<rparr> s
         in case out of
              NetworkFailure \<Rightarrow> (Inl (TypeError ''fetch failed''), s1)
            | Response resp \<Rightarrow>
                if ok resp then
                  (case response_json C resp of
                     Inl e \<Rightarrow> (Inl e, s1)
                   | Inr d \<Rightarrow>
                       (case parseData C d of
                          Inl e \<Rightarrow> (Inl e, s1)
                        | Inr parsedData \<Rightarrow> (Inr (Some parsedData), s1)))
                else (Inr None, s1))
      else (Inr None, s))"

definition api_network :: "ctx \<Rightarrow> FetcherOptions \<Rightarrow> bool \<Rightarrow> string \<Rightarrow> state \<Rightarrow> fetch_result promise" where
  "api_network C opts isServer cacheKey s =
     (let u = (case endpoint opts of Some e \<Rightarrow> e | None \<Rightarrow> [])
      in if u = [] then (Inr (only_data []), s)
         else (case api_loop C isServer u cacheKey 0 s of
                 (Some parsedData, s1) \<Rightarrow> (Inr (only_data parsedData), s1)
               | (None, s1) \<Rightarrow>
                   (case api_fallback_try C opts isServer s1 of
                      (Inr (Some parsedData), s2) \<Rightarrow> (Inr (only_data parsedData), s2)
                    | (Inr None, s2) \<Rightarrow> (Inr (only_data (getMockData opts)), s2)
                    | (Inl fallbackError, s2) \<Rightarrow> (Inr (only_data (getMockData opts)), s2))))"

definition fetchApiData :: "ctx \<Rightarrow> FetcherOptions \<Rightarrow> bool \<Rightarrow> state \<Rightarrow> fetch_result promise" where
  "fetchApiData C opts isServer s =
     (let cacheKey = api_cache_key opts
      in if isServer then
           (case map_get (serverCache s) cacheKey of
              Some d \<Rightarrow> (Inr (only_data d), s)
            | None \<Rightarrow> api_network C opts isServer cacheKey s)
         else
           (case client_cache_fresh C cacheKey s of
              (Some cachedData, s1) \<Rightarrow> (Inr (only_data (data cachedData)), s1)
            | (None, s1) \<Rightarrow> api_network C opts isServer cacheKey s1))"

section \<open>Dispatch\<close>

definition fetchData :: "ctx \<Rightarrow> FetcherOptions \<Rightarrow> bool \<Rightarrow> state \<Rightarrow> fetch_result promise" where
  "fetchData C opts isServer s =
     (let dsrc = (case dataSource opts of Some d \<Rightarrow> if d \<noteq> [] then d else ''json'' | None \<Rightarrow> ''json'')
      in if dsrc = ''json'' then fetchJsonData C opts isServer s
         else if dsrc = ''csv'' then fetchCsvData C opts isServer s
         else if dsrc = ''txt'' then fetchTxtData C opts isServer s
         else if dsrc = ''api'' then fetchApiData C opts isServer s
         else (Inl (Error (''Unsupported data source: '' @ dsrc)), s))"

section \<open>The realtime bus\<close>

datatype action = Create | Update | Delete | Refresh

record DataChangeEvent =
  ev_componentId :: string
  ev_action :: action
  ev_data :: jsval
  ev_id :: jsval

text \<open>
  A subscriber callback and the \<open>send\<close> function of a push-channel client are code of the
  caller: each acts on the caller's world \<open>'w\<close> and returns normally or throws. They do not
  call back into the manager. The channel names begin with \<open>data-change:\<close>, so none of them
  is the event name \<open>error\<close> that \<open>EventEmitter\<close> treats specially.
\<close>

type_synonym 'w callback = "DataChangeEvent \<Rightarrow> 'w \<Rightarrow> (js_error + unit) \<times> 'w"

record 'w sse_client =
  client_id :: string
  send :: "string \<Rightarrow> 'w \<Rightarrow> (js_error + unit) \<times> 'w"

text \<open>
  The manager: the listeners of the platform's \<open>EventEmitter\<close> by event name, in the order
  they were added, and the \<open>Set\<close> of client objects in insertion order (each position of
  the list is one object of the set).
\<close>

record 'w RealtimeManager =
  emitter :: "string \<Rightarrow> 'w callback list"
  sseClients :: "'w sse_client list"
  isServerSide :: bool

definition eventName :: "string \<Rightarrow> string" where
  "eventName cid = ''data-change:'' @ cid"

definition subscribe :: "string \<Rightarrow> 'w callback \<Rightarrow> 'w RealtimeManager \<Rightarrow> 'w RealtimeManager" where
  "subscribe cid cb M =
     M\<lparr>emitter := (emitter M)(eventName cid := emitter M (eventName cid) @ [cb])\<rparr>"

definition registerSSEClient ::
  "string \<Rightarrow> (string \<Rightarrow> 'w \<Rightarrow> (js_error + unit) \<times> 'w) \<Rightarrow> 'w RealtimeManager \<Rightarrow> 'w RealtimeManager" where
  "registerSSEClient i f M = M\<lparr>sseClients := sseClients M @ [\<lparr>client_id = i, send = f\<rparr>]\<rparr>"

text \<open>\<open>unregisterSSEClient\<close> deletes the first client with the id and stops.\<close>

fun remove_first_id :: "string \<Rightarrow> 'w sse_client list \<Rightarrow> 'w sse_client list" where
  "remove_first_id i [] = []"
| "remove_first_id i (c # cs) = (if client_id c = i then cs else c # remove_first_id i cs)"

definition unregisterSSEClient :: "string \<Rightarrow> 'w RealtimeManager \<Rightarrow> 'w RealtimeManager" where
  "unregisterSSEClient i M = M\<lparr>sseClients := remove_first_id i (sseClients M)\<rparr>"

text \<open>
  \<open>EventEmitter.emit\<close> calls the listeners of the event one after the other, in the order
  they were added; an exception of a listener leaves \<open>emit\<close> at once.
\<close>

fun emit_listeners :: "'w callback list \<Rightarrow> DataChangeEvent \<Rightarrow> 'w \<Rightarrow> (js_error + unit) \<times> 'w" where
  "emit_listeners [] ev w = (Inr (), w)"
| "emit_listeners (cb # cbs) ev w =
     (case cb ev w of
        (Inl e, w1) \<Rightarrow> (Inl e, w1)
      | (Inr _, w1) \<Rightarrow> emit_listeners cbs ev w1)"

text \<open>
  The loop of \<open>broadcastToSSEClients\<close> over the clients still to visit: the result is the
  clients that stay in the set, the one whose \<open>send\<close> threw being deleted in the \<open>catch\<close>.
\<close>

fun broadcast_loop :: "'w sse_client list \<Rightarrow> string \<Rightarrow> 'w \<Rightarrow> 'w sse_client list \<times> 'w" where
  "broadcast_loop [] d w = ([], w)"
| "broadcast_loop (client # rest) d w =
     (case send client d w of
        (Inr _, w1) \<Rightarrow> (let (kept, w2) = broadcast_loop rest d w1 in (client # kept, w2))
      | (Inl e, w1) \<Rightarrow> broadcast_loop rest d w1)"

text \<open>
  \<open>broadcastToSSEClients\<close>; the first argument is \<open>JSON.stringify\<close> on events. The event is
  serialized before the loop and outside its \<open>try\<close>: \<open>JSON.stringify\<close> throws on a \<open>BigInt\<close>,
  on a cycle and when a \<open>toJSON\<close> throws, and that exception leaves the function before
  any send. The line the \<open>catch\<close> writes to the console is not part of the model.
\<close>

definition broadcastToSSEClients ::
  "(DataChangeEvent \<Rightarrow> js_error + string) \<Rightarrow> DataChangeEvent \<Rightarrow> 'w RealtimeManager \<times> 'w
   \<Rightarrow> (js_error + unit) \<times> ('w RealtimeManager \<times> 'w)" where
  "broadcastToSSEClients stringify ev Mw =
     (case stringify ev of
        Inl e \<Rightarrow> (Inl e, Mw)
      | Inr d \<Rightarrow>
          (let (kept, w1) = broadcast_loop (sseClients (fst Mw)) d (snd Mw)
           in (Inr (), ((fst Mw)\<lparr>sseClients := kept\<rparr>, w1))))"

text \<open>
  \<open>publish\<close>: an exception of a listener leaves \<open>emit\<close> and \<open>publish\<close> before the test of
  \<open>isServerSide\<close>.
\<close>

definition publish ::
  "(DataChangeEvent \<Rightarrow> js_error + string) \<Rightarrow> DataChangeEvent \<Rightarrow> 'w RealtimeManager \<times> 'w
   \<Rightarrow> (js_error + unit) \<times> ('w RealtimeManager \<times> 'w)" where
  "publish stringify ev Mw =
     (case emit_listeners (emitter (fst Mw) (eventName (ev_componentId ev))) ev (snd Mw) of
        (Inl e, w1) \<Rightarrow> (Inl e, (fst Mw, w1))
      | (Inr _, w1) \<Rightarrow>
          if isServerSide (fst Mw) then broadcastToSSEClients stringify ev (fst Mw, w1)
          else (Inr (), (fst Mw, w1)))"

section \<open>Notions used to state the claims\<close>

text \<open>The state after one request was sent and nothing else happened.\<close>

definition after_request :: "request \<Rightarrow> state \<Rightarrow> state" where
  "after_request rq s = s\<lparr>calls := calls s @ [rq]\<rparr>"

text \<open>The request of the json, csv and txt paths.\<close>

definition data_request :: "ctx \<Rightarrow> FetcherOptions \<Rightarrow> bool \<Rightarrow> request" where
  "data_request C opts isServer = \<lparr>url = getUrl (the_registry C) opts isServer, headers = []\<rparr>"

text \<open>Two states with the same cache tables and the same number of clock reads.\<close>

definition same_tables :: "state \<Rightarrow> state \<Rightarrow> bool" where
  "same_tables s s' = (serverCache s' = serverCache s \<and> clientCache s' = clientCache s \<and> ticks s' = ticks s)"

text \<open>The state after the clock was read once.\<close>

definition after_tick :: "state \<Rightarrow> state" where
  "after_tick s = s\<lparr>ticks := Suc (ticks s)\<rparr>"

text \<open>
  The fetch paths with the cache key each computes: the three that send one request and
  raise on failure, and the api path.
\<close>

type_synonym fetch_path = "ctx \<Rightarrow> FetcherOptions \<Rightarrow> bool \<Rightarrow> state \<Rightarrow> fetch_result promise"

definition raising_paths :: "(fetch_path \<times> (FetcherOptions \<Rightarrow> string)) list" where
  "raising_paths =
     [(fetchJsonData, json_cache_key), (fetchCsvData, csv_cache_key), (fetchTxtData, txt_cache_key)]"

definition fetch_paths :: "(fetch_path \<times> (FetcherOptions \<Rightarrow> string)) list" where
  "fetch_paths = raising_paths @ [(fetchApiData, api_cache_key)]"

text \<open>
  The cache check of a fetch path fails: on the server the key is absent, on the client it
  is absent or its entry is as old as the expiry window or older.
\<close>

definition cache_miss :: "ctx \<Rightarrow> string \<Rightarrow> bool \<Rightarrow> state \<Rightarrow> bool" where
  "cache_miss C key isServer s =
     (if isServer then map_get (serverCache s) key = None
      else (case map_get (clientCache s) key of
              None \<Rightarrow> True
            | Some e \<Rightarrow> \<not> clock C (ticks s) - timestamp e < cacheExpirationTime))"

text \<open>The state in which the network part starts after a failed check: the clock was read when a client entry was present.\<close>

definition after_check :: "string \<Rightarrow> bool \<Rightarrow> state \<Rightarrow> state" where
  "after_check key isServer s =
     (if \<not> isServer \<and> map_get (clientCache s) key \<noteq> None then after_tick s else s)"

text \<open>The one request of a json, csv or txt fetch did not bring a usable response.\<close>

definition transport_failed :: "fetch_outcome \<Rightarrow> bool" where
  "transport_failed out = (case out of NetworkFailure \<Rightarrow> True | Response resp \<Rightarrow> \<not> ok resp)"

text \<open>
  An attempt of the api path fails: no response, a 429, a status outside 200..299, a body
  that \<open>JSON.parse\<close> rejects, or a \<open>parseData\<close> that throws.
\<close>

definition attempt_failed :: "ctx \<Rightarrow> fetch_outcome \<Rightarrow> bool" where
  "attempt_failed C out =
     (case out of
        NetworkFailure \<Rightarrow> True
      | Response resp \<Rightarrow>
          status resp = 429 \<or> \<not> ok resp
          \<or> (case JSON_parse C (body resp) of None \<Rightarrow> True | Some v \<Rightarrow> isl (parseData C v)))"

text \<open>The delay requested after a failed attempt, \<open>retries\<close> attempts having been made before it.\<close>

definition failed_wait :: "fetch_outcome \<Rightarrow> nat \<Rightarrow> int" where
  "failed_wait out retries =
     (case out of
        NetworkFailure \<Rightarrow> 2 ^ retries * 1000
      | Response resp \<Rightarrow>
          if status resp = 429 then rate_limit_wait (retryAfter resp) retries
          else 2 ^ retries * 1000)"

text \<open>The fallback read brings nothing: no response, a status outside 200..299, or a body that cannot be decoded and parsed.\<close>

definition fallback_failed :: "ctx \<Rightarrow> fetch_outcome \<Rightarrow> bool" where
  "fallback_failed C out =
     (case out of
        NetworkFailure \<Rightarrow> True
      | Response resp \<Rightarrow>
          \<not> ok resp
          \<or> (case JSON_parse C (body resp) of None \<Rightarrow> True | Some v \<Rightarrow> isl (parseData C v)))"

definition fallback_request :: "FetcherOptions \<Rightarrow> request" where
  "fallback_request opts = \<lparr>url = ''/api/fallback?component='' @ componentId opts, headers = []\<rparr>"



text \<open>Calling every callback of a list one after the other, each returning normally: the world afterwards.\<close>

definition run_callbacks :: "'w callback list \<Rightarrow> DataChangeEvent \<Rightarrow> 'w \<Rightarrow> 'w" where
  "run_callbacks cbs ev w = foldl (\<lambda>w' cb. snd (cb ev w')) w cbs"

text \<open>
  Every callback of the list returns normally in this call: the callback at each position,
  called in the world that the callbacks before it have left.
\<close>

definition callbacks_ok :: "'w callback list \<Rightarrow> DataChangeEvent \<Rightarrow> 'w \<Rightarrow> bool" where
  "callbacks_ok cbs ev w =
     list_all (\<lambda>i. fst ((cbs ! i) ev (run_callbacks (take i cbs) ev w)) = Inr ()) [0..<length cbs]"

text \<open>Calling the \<open>send\<close> of every client of a list one after the other: the world afterwards.\<close>

definition run_sends :: "'w sse_client list \<Rightarrow> string \<Rightarrow> 'w \<Rightarrow> 'w" where
  "run_sends cs d w = foldl (\<lambda>w' c. snd (send c d w')) w cs"

text \<open>
  The \<open>send\<close> of the client at position \<open>i\<close> returns normally in this broadcast: called with
  the data in the world that the sends to the clients before it have left.
\<close>

definition send_ok :: "'w sse_client list \<Rightarrow> string \<Rightarrow> 'w \<Rightarrow> nat \<Rightarrow> bool" where
  "send_ok cs d w i = (fst (send (cs ! i) d (run_sends (take i cs) d w)) = Inr ())"

text \<open>The clients whose \<open>send\<close> returns normally in this broadcast, in the order of the list.\<close>

definition clients_kept :: "'w sse_client list \<Rightarrow> string \<Rightarrow> 'w \<Rightarrow> 'w sse_client list" where
  "clients_kept cs d w = map ((!) cs) (filter (send_ok cs d w) [0..<length cs])"

section \<open>Sample inputs\<close>

text \<open>Concrete options, states and contexts on which the theorems below are instantiated.\<close>

definition user_opts :: FetcherOptions where
  "user_opts = new_options (Some ''json'') ''UserData'' None (Some \<lparr>page = 1, limit = 10, enabled = True\<rparr>)"

definition product_opts :: FetcherOptions where
  "product_opts = new_options (Some ''json'') ''ProductData'' None None"

definition api_opts :: "string \<Rightarrow> FetcherOptions" where
  "api_opts cid = new_options (Some ''api'') cid (Some ''https://example.com/items'') None"

definition sample_entry :: "jsval list \<Rightarrow> int \<Rightarrow> cache_entry" where
  "sample_entry d t = \<lparr>data = d, totalItems = JUndefined, totalPages = JUndefined, timestamp = t\<rparr>"

definition empty_state :: state where
  "empty_state = \<lparr>serverCache = [], clientCache = [], calls = [], sleeps = [], ticks = 0\<rparr>"

definition two_component_state :: state where
  "two_component_state =
     \<lparr>serverCache = [(''json_UserData_page1_limit10'', [JNumber 1]), (''json_ProductData'', [JNumber 2])],
      clientCache = [(''json_UserData_page1_limit10'', sample_entry [JNumber 1] 0),
                     (''json_ProductData'', sample_entry [JNumber 2] 0),
                     (''csv_UserData'', sample_entry [JNumber 3] 0)],
      calls = [], sleeps = [], ticks = 0\<rparr>"

definition old_json_state :: state where
  "old_json_state =
     \<lparr>serverCache = [], clientCache = [(''json_ProductData'', sample_entry [JNumber 9] 0)],
      calls = [], sleeps = [], ticks = 0\<rparr>"

definition stale_api_state :: state where
  "stale_api_state =
     \<lparr>serverCache = [], clientCache = [(''api_Items'', sample_entry [JNumber 9] 0)],
      calls = [], sleeps = [], ticks = 0\<rparr>"

definition ok_response :: "string \<Rightarrow> fetch_outcome" where
  "ok_response b = Response \<lparr>status = 200, statusText = ''OK'', retryAfter = None, body = b\<rparr>"

definition error_response :: "nat \<Rightarrow> string \<Rightarrow> fetch_outcome" where
  "error_response code txt = Response \<lparr>status = code, statusText = txt, retryAfter = None, body = []\<rparr>"

definition rate_limited_response :: "string option \<Rightarrow> fetch_outcome" where
  "rate_limited_response ra =
     Response \<lparr>status = 429, statusText = ''Too Many Requests'', retryAfter = ra, body = []\<rparr>"

definition script_net :: "fetch_outcome list \<Rightarrow> nat \<Rightarrow> request \<Rightarrow> fetch_outcome" where
  "script_net outs k rq = (if k < length outs then outs ! k else NetworkFailure)"

definition envelope_body :: string where
  \<open>envelope_body = ''{"data":[7],"pagination":{"totalItems":5,"totalPages":3}}''\<close>

text \<open>
  An excerpt of \<open>JSON.parse\<close>: the decodings of the bodies used below; the other texts used
  below are not JSON.
\<close>

definition sample_parse :: "string \<Rightarrow> jsval option" where
  \<open>sample_parse =
     map_of
      [(''[1,2]'', JArray [JNumber 1, JNumber 2]),
       (''[]'', JArray []),
       (''null'', JNull),
       (envelope_body,
          JObject [(''data'', JArray [JNumber 7]),
                   (''pagination'', JObject [(''totalItems'', JNumber 5), (''totalPages'', JNumber 3)])]),
       (''{"name":"Bob"}'', JObject [(''name'', JString ''Bob'')])]\<close>

text \<open>A \<open>parseData\<close> that keeps an array as it is and answers any other value with no record.\<close>

definition sample_parseData :: "jsval \<Rightarrow> js_error + jsval list" where
  "sample_parseData v = (case v of JArray xs \<Rightarrow> Inr xs | _ \<Rightarrow> Inr [])"

text \<open>A \<open>parseData\<close> that throws on every input.\<close>

definition throwing_parseData :: "jsval \<Rightarrow> js_error + jsval list" where
  "throwing_parseData v = Inl (Error ''bad record'')"

text \<open>A clock that shows the same time at every read.\<close>

definition fixed_clock :: "int \<Rightarrow> nat \<Rightarrow> int" where
  "fixed_clock t k = t"

definition sample_ctx :: "fetch_outcome list \<Rightarrow> (nat \<Rightarrow> int) \<Rightarrow> ctx" where
  "sample_ctx outs clk =
     \<lparr>net = script_net outs, clock = clk, JSON_parse = sample_parse, parseData = sample_parseData,
      the_registry = \<lparr>apiBasePath = ''/api/data'', baseUrl = ''http://localhost:3000''\<rparr>,
      process_defined = True, rapidapi_key = None, rapidapi_host = None\<rparr>"

text \<open>A sample world: the log of what was called, with what.\<close>

definition logging_callback :: "string \<Rightarrow> string list callback" where
  "logging_callback name ev w = (Inr (), w @ [name @ '' got '' @ ev_componentId ev])"

definition logging_send :: "string \<Rightarrow> string \<Rightarrow> string list \<Rightarrow> (js_error + unit) \<times> string list" where
  "logging_send name d w = (Inr (), w @ [name @ '' sent '' @ d])"

definition broken_send :: "string \<Rightarrow> string \<Rightarrow> string list \<Rightarrow> (js_error + unit) \<times> string list" where
  "broken_send name d w = (Inl (Error ''stream closed''), w @ [name @ '' failed''])"

text \<open>A \<open>send\<close> that throws once the log holds \<open>n\<close> entries or more.\<close>

definition full_after :: "nat \<Rightarrow> string \<Rightarrow> string \<Rightarrow> string list \<Rightarrow> (js_error + unit) \<times> string list" where
  "full_after n name d w =
     (if n \<le> length w then (Inl (Error ''buffer full''), w @ [name @ '' failed''])
      else (Inr (), w @ [name @ '' sent '' @ d]))"

definition throwing_callback :: "string \<Rightarrow> string list callback" where
  "throwing_callback name ev w = (Inl (Error ''subscriber failed''), w @ [name @ '' threw''])"

definition sample_stringify :: "DataChangeEvent \<Rightarrow> js_error + string" where
  "sample_stringify ev = Inr (''event for '' @ ev_componentId ev)"

text \<open>\<open>JSON.stringify\<close> on an event whose data hold a \<open>BigInt\<close>.\<close>

definition failing_stringify :: "DataChangeEvent \<Rightarrow> js_error + string" where
  "failing_stringify ev = Inl (TypeError ''Do not know how to serialize a BigInt'')"

definition sample_event :: DataChangeEvent where
  "sample_event = \<lparr>ev_componentId = ''UserData'', ev_action = Update, ev_data = JUndefined, ev_id = JNumber 1\<rparr>"

definition empty_manager :: "bool \<Rightarrow> string list RealtimeManager" where
  "empty_manager srv = \<lparr>emitter = (\<lambda>name. []), sseClients = [], isServerSide = srv\<rparr>"

definition sample_manager :: "bool \<Rightarrow> string list RealtimeManager" where
  "sample_manager srv =
     registerSSEClient ''c4'' (logging_send ''c4'')
      (registerSSEClient ''c3'' (full_after 4 ''c3'')
        (registerSSEClient ''c2'' (broken_send ''c2'')
          (registerSSEClient ''c1'' (logging_send ''c1'')
            (subscribe ''ProductData'' (logging_callback ''other'')
              (subscribe ''UserData'' (logging_callback ''second'')
                (subscribe ''UserData'' (logging_callback ''first'') (empty_manager srv)))))))"

text \<open>A manager whose second subscriber throws.\<close>

definition throwing_manager :: "bool \<Rightarrow> string list RealtimeManager" where
  "throwing_manager srv =
     registerSSEClient ''c1'' (logging_send ''c1'')
      (subscribe ''UserData'' (logging_callback ''third'')
        (subscribe ''UserData'' (throwing_callback ''second'')
          (subscribe ''UserData'' (logging_callback ''first'') (empty_manager srv))))"

section \<open>Facts about the built-ins\<close>


lemma js_includes_iff: "js_includes s t \<longleftrightarrow> (\<exists>p q. s = p @ t @ q)"
proof (induction s)
  case Nil
  then show ?case by auto
next
  case (Cons c cs)
  show ?case
  proof
    assume "js_includes (c # cs) t"
    then consider "prefix t (c # cs)" | "js_includes cs t" by auto
    then show "\<exists>p q. c # cs = p @ t @ q"
    proof cases
      case 1
      then obtain q where "c # cs = t @ q" by (auto simp: prefix_def)
      then have "c # cs = [] @ t @ q" by simp
      then show ?thesis by blast
    next
      case 2
      with Cons.IH obtain p q where "cs = p @ t @ q" by blast
      then have "c # cs = (c # p) @ t @ q" by simp
      then show ?thesis by blast
    qed
  next
    assume "\<exists>p q. c # cs = p @ t @ q"
    then obtain p q where pq: "c # cs = p @ t @ q" by blast
    show "js_includes (c # cs) t"
    proof (cases p)
      case Nil
      with pq have "prefix t (c # cs)" by (simp add: prefix_def)
      then show ?thesis by simp
    next
      case (Cons a p')
      with pq have "cs = p' @ t @ q" by simp
      with Cons.IH have "js_includes cs t" by blast
      then show ?thesis by simp
    qed
  qed
qed

lemma foldl_delete_filter:
  "foldl (\<lambda>m' key. if P key then map_delete m' key else m') m ks
     = filter (\<lambda>kv. \<not> (fst kv \<in> set ks \<and> P (fst kv))) m"
proof (induction ks arbitrary: m)
  case Nil
  then show ?case by simp
next
  case (Cons k ks)
  have "filter (\<lambda>kv. \<not> (fst kv \<in> set ks \<and> P (fst kv))) (if P k then map_delete m k else m)
          = filter (\<lambda>kv. \<not> (fst kv \<in> set (k # ks) \<and> P (fst kv))) m"
    by (induction m) (auto simp: map_delete_def)
  then show ?case by (simp add: Cons.IH)
qed

lemma delete_matching_filter:
  "delete_matching cid m = filter (\<lambda>kv. \<not> js_includes (fst kv) cid) m"
  unfolding delete_matching_def map_keys_def foldl_delete_filter
  by (rule filter_cong) auto

lemma map_get_filter_keys:
  "map_get (filter (\<lambda>kv. \<not> Q (fst kv)) m) k = (if Q k then None else map_get m k)"
  by (induction m) (auto simp: map_get_def)

lemma js_includes_set: "js_includes s t \<Longrightarrow> set t \<subseteq> set s"
  by (auto simp: js_includes_iff)

lemma digit_char_not_U: "(n::nat) < 10 \<Longrightarrow> char_of (48 + n) \<noteq> CHR ''U''"
proof
  assume n: "(n::nat) < 10" and eq: "char_of (48 + n) = CHR ''U''"
  have "of_char (char_of (48 + n)) = (of_char (CHR ''U'') :: nat)" using eq by simp
  then have "(48 + n) mod 256 = 85" by (simp add: of_char_of)
  with n show False by simp
qed

lemma U_notin_digits_of: "CHR ''U'' \<notin> set (digits_of n)"
proof (induction n rule: digits_of.induct)
  case (1 n)
  show ?case
  proof (cases "n < 10")
    case True
    then show ?thesis using digit_char_not_U[of n] by (subst digits_of.simps) simp
  next
    case False
    then have "CHR ''U'' \<notin> set (digits_of (n div 10))" using 1 by simp
    moreover have "char_of (48 + n mod 10) \<noteq> CHR ''U''" by (rule digit_char_not_U) simp
    ultimately show ?thesis using False by (subst digits_of.simps) simp
  qed
qed

lemma U_notin_string_of_int: "CHR ''U'' \<notin> set (string_of_int i)"
  by (simp add: string_of_int_def U_notin_digits_of)

lemma product_keys_not_user:
  assumes "componentId opts' = ''ProductData''"
  shows "\<not> js_includes (json_cache_key opts') ''UserData''"
    and "\<not> js_includes (csv_cache_key opts') ''UserData''"
    and "\<not> js_includes (txt_cache_key opts') ''UserData''"
    and "\<not> js_includes (api_cache_key opts') ''UserData''"
proof -
  have U: "CHR ''U'' \<in> set ''UserData''" by simp
  have "CHR ''U'' \<notin> set (json_cache_key opts')"
    using assms by (simp add: json_cache_key_def Let_def U_notin_string_of_int)
  then show "\<not> js_includes (json_cache_key opts') ''UserData''"
    using js_includes_set U by blast
  show "\<not> js_includes (csv_cache_key opts') ''UserData''"
    using assms by (simp add: csv_cache_key_def)
  show "\<not> js_includes (txt_cache_key opts') ''UserData''"
    using assms by (simp add: txt_cache_key_def)
  show "\<not> js_includes (api_cache_key opts') ''UserData''"
    using assms by (simp add: api_cache_key_def)
qed

lemma own_keys_include:
  "js_includes (json_cache_key opts) (componentId opts)"
  "js_includes (csv_cache_key opts) (componentId opts)"
  "js_includes (txt_cache_key opts) (componentId opts)"
  "js_includes (api_cache_key opts) (componentId opts)"
  unfolding js_includes_iff json_cache_key_def csv_cache_key_def txt_cache_key_def api_cache_key_def Let_def
  by (metis append_Nil2)+

section \<open>Cache invalidation removes exactly the matching keys\<close>

text \<open>
  Claim C6. \<open>invalidateCache\<close> leaves in the client cache exactly the entries whose key does
  not contain the fetcher's \<open>componentId\<close> as a substring, and does the same to the shared
  server cache only when it runs on the server; the request log, the delays and the clock
  reads are untouched. Every key of a fetcher for \<open>ProductData\<close> survives the invalidation
  by a fetcher for \<open>UserData\<close>, in both tables.
\<close>

theorem invalidateCache_removes_matching_keys:
  "clientCache (invalidateCache wu opts s)
     = filter (\<lambda>kv. \<not> js_includes (fst kv) (componentId opts)) (clientCache s)
   \<and> serverCache (invalidateCache wu opts s)
     = (if wu then filter (\<lambda>kv. \<not> js_includes (fst kv) (componentId opts)) (serverCache s)
        else serverCache s)
   \<and> map_get (clientCache (invalidateCache wu opts s)) k
     = (if js_includes k (componentId opts) then None else map_get (clientCache s) k)
   \<and> map_get (serverCache (invalidateCache wu opts s)) k
     = (if wu \<and> js_includes k (componentId opts) then None else map_get (serverCache s) k)
   \<and> calls (invalidateCache wu opts s) = calls s
   \<and> sleeps (invalidateCache wu opts s) = sleeps s
   \<and> ticks (invalidateCache wu opts s) = ticks s
   \<and> (js_includes k (componentId opts) \<longleftrightarrow> (\<exists>p q. k = p @ componentId opts @ q))
   \<and> (componentId opts = ''UserData'' \<and> componentId opts' = ''ProductData''
        \<and> k' \<in> {json_cache_key opts', csv_cache_key opts', txt_cache_key opts', api_cache_key opts'}
      \<longrightarrow> map_get (clientCache (invalidateCache wu opts s)) k' = map_get (clientCache s) k'
        \<and> map_get (serverCache (invalidateCache wu opts s)) k' = map_get (serverCache s) k')"
proof -
  have c: "clientCache (invalidateCache wu opts s)
     = filter (\<lambda>kv. \<not> js_includes (fst kv) (componentId opts)) (clientCache s)"
    by (simp add: invalidateCache_def Let_def delete_matching_filter)
  have sv: "serverCache (invalidateCache wu opts s)
     = (if wu then filter (\<lambda>kv. \<not> js_includes (fst kv) (componentId opts)) (serverCache s)
        else serverCache s)"
    by (simp add: invalidateCache_def Let_def delete_matching_filter)
  have gc: "map_get (clientCache (invalidateCache wu opts s)) x
     = (if js_includes x (componentId opts) then None else map_get (clientCache s) x)" for x
    unfolding c by (rule map_get_filter_keys)
  have gs: "map_get (serverCache (invalidateCache wu opts s)) x
     = (if wu \<and> js_includes x (componentId opts) then None else map_get (serverCache s) x)" for x
    unfolding sv
    by (cases wu) (simp_all add: map_get_filter_keys[where Q="\<lambda>x. js_includes x (componentId opts)"])
  have rest: "calls (invalidateCache wu opts s) = calls s
      \<and> sleeps (invalidateCache wu opts s) = sleeps s
      \<and> ticks (invalidateCache wu opts s) = ticks s"
    by (simp add: invalidateCache_def Let_def)
  have ex: "map_get (clientCache (invalidateCache wu opts s)) k' = map_get (clientCache s) k'
        \<and> map_get (serverCache (invalidateCache wu opts s)) k' = map_get (serverCache s) k'"
    if "componentId opts = ''UserData''" "componentId opts' = ''ProductData''"
       "k' \<in> {json_cache_key opts', csv_cache_key opts', txt_cache_key opts', api_cache_key opts'}"
  proof -
    have "\<not> js_includes k' ''UserData''"
      using that(3) product_keys_not_user[OF that(2)] by auto
    then show ?thesis using that(1) by (simp add: gc gs)
  qed
  show ?thesis using c sv gc gs rest ex js_includes_iff by blast
qed

theorem invalidateCache_removes_matching_keys_witness:
  "componentId user_opts = ''UserData'' \<and> componentId product_opts = ''ProductData''
   \<and> json_cache_key product_opts \<in> {json_cache_key product_opts, csv_cache_key product_opts,
        txt_cache_key product_opts, api_cache_key product_opts}
   \<and> map_get (clientCache (invalidateCache True user_opts two_component_state)) (json_cache_key product_opts)
       = Some (sample_entry [JNumber 2] 0)
   \<and> map_get (serverCache (invalidateCache True user_opts two_component_state)) (json_cache_key product_opts)
       = Some [JNumber 2]
   \<and> map_get (clientCache (invalidateCache True user_opts two_component_state)) ''csv_UserData'' = None
   \<and> map_get (clientCache (invalidateCache True user_opts two_component_state)) (json_cache_key user_opts) = None"
proof -
  have u: "componentId user_opts = ''UserData''" by (simp add: user_opts_def new_options_def)
  have p: "componentId product_opts = ''ProductData''" by (simp add: product_opts_def new_options_def)
  have kp: "json_cache_key product_opts = ''json_ProductData''"
    by (simp add: json_cache_key_def product_opts_def new_options_def)
  have i1: "js_includes ''csv_UserData'' ''UserData''" by code_simp
  have i2: "js_includes (json_cache_key user_opts) (componentId user_opts)" by (rule own_keys_include)
  note t1 = invalidateCache_removes_matching_keys
      [of True user_opts two_component_state "''csv_UserData''" product_opts "json_cache_key product_opts"]
  note t2 = invalidateCache_removes_matching_keys
      [of True user_opts two_component_state "json_cache_key user_opts" product_opts "json_cache_key product_opts"]
  have g1: "map_get (clientCache two_component_state) ''json_ProductData'' = Some (sample_entry [JNumber 2] 0)"
    by (simp add: two_component_state_def map_get_def)
  have g2: "map_get (serverCache two_component_state) ''json_ProductData'' = Some [JNumber 2]"
    by (simp add: two_component_state_def map_get_def)
  have a: "map_get (clientCache (invalidateCache True user_opts two_component_state)) ''csv_UserData''
      = (if js_includes ''csv_UserData'' (componentId user_opts) then None
         else map_get (clientCache two_component_state) ''csv_UserData'')"
    using t1 by (elim conjE)
  have b: "map_get (clientCache (invalidateCache True user_opts two_component_state)) (json_cache_key user_opts)
      = (if js_includes (json_cache_key user_opts) (componentId user_opts) then None
         else map_get (clientCache two_component_state) (json_cache_key user_opts))"
    using t2 by (elim conjE)
  have c: "map_get (clientCache (invalidateCache True user_opts two_component_state)) (json_cache_key product_opts)
             = map_get (clientCache two_component_state) (json_cache_key product_opts)
        \<and> map_get (serverCache (invalidateCache True user_opts two_component_state)) (json_cache_key product_opts)
             = map_get (serverCache two_component_state) (json_cache_key product_opts)"
    using t1 u p by (elim conjE) simp
  show ?thesis using a b c u p kp i1 i2 g1 g2 by simp
qed

section \<open>Facts about the cache tables and the effects\<close>

lemma map_has_iff: "map_has m k \<longleftrightarrow> map_get m k \<noteq> None"
  by (simp add: map_has_def map_get_def map_of_eq_None_iff)

lemma map_get_map_set: "map_get (map_set m k v) k' = (if k' = k then Some v else map_get m k')"
  by (induction m) (auto simp: map_get_def)

lemma store_result_server:
  "store_result C True key r s = s\<lparr>serverCache := map_set (serverCache s) key (data r)\<rparr>"
  by (simp add: store_result_def)

lemma store_result_client:
  "store_result C False key r s =
     s\<lparr>ticks := Suc (ticks s),
       clientCache := map_set (clientCache s) key
         \<lparr>data = data r, totalItems = totalItems r, totalPages = totalPages r,
          timestamp = clock C (ticks s)\<rparr>\<rparr>"
  by (simp add: store_result_def date_now_def)

lemma store_result_log [simp]:
  "calls (store_result C b key r s) = calls s"
  "sleeps (store_result C b key r s) = sleeps s"
  by (cases b; simp add: store_result_server store_result_client)+

lemma store_result_serverCache:
  "serverCache (store_result C b key r s)
     = (if b then map_set (serverCache s) key (data r) else serverCache s)"
  by (cases b) (simp_all add: store_result_server store_result_client)

lemma store_result_clientCache:
  "clientCache (store_result C b key r s)
     = (if b then clientCache s
        else map_set (clientCache s) key
          \<lparr>data = data r, totalItems = totalItems r, totalPages = totalPages r,
           timestamp = clock C (ticks s)\<rparr>)"
  by (cases b) (simp_all add: store_result_server store_result_client)

lemma store_result_ticks:
  "ticks (store_result C b key r s) = (if b then ticks s else Suc (ticks s))"
  by (cases b) (simp_all add: store_result_server store_result_client)


lemma after_request_fields [simp]:
  "serverCache (after_request rq s) = serverCache s"
  "clientCache (after_request rq s) = clientCache s"
  "calls (after_request rq s) = calls s @ [rq]"
  "sleeps (after_request rq s) = sleeps s"
  "ticks (after_request rq s) = ticks s"
  by (simp_all add: after_request_def)

lemma js_fetch_eq: "js_fetch C rq s = (net C (length (calls s)) rq, after_request rq s)"
  by (simp add: js_fetch_def after_request_def)


lemma json_network_cases:
  "(\<exists>e. json_network C opts b key s = (Inl e, after_request (data_request C opts b) s))
   \<or> (\<exists>r. json_network C opts b key s
          = (Inr r, store_result C b key r (after_request (data_request C opts b) s)))"
  by (auto simp: json_network_def js_fetch_eq data_request_def
           split: fetch_outcome.splits sum.splits)

lemma csv_network_cases:
  "(\<exists>e. csv_network C opts b key s = (Inl e, after_request (data_request C opts b) s))
   \<or> (\<exists>r. csv_network C opts b key s
          = (Inr r, store_result C b key r (after_request (data_request C opts b) s)))"
  by (auto simp: csv_network_def js_fetch_eq data_request_def
           split: fetch_outcome.splits sum.splits)

lemma txt_network_cases:
  "(\<exists>e. txt_network C opts b key s = (Inl e, after_request (data_request C opts b) s))
   \<or> (\<exists>r. txt_network C opts b key s
          = (Inr r, store_result C b key r (after_request (data_request C opts b) s)))"
  by (auto simp: txt_network_def js_fetch_eq data_request_def
           split: fetch_outcome.splits sum.splits)

lemma same_tables_refl [simp]: "same_tables s s"
  by (simp add: same_tables_def)

lemma same_tables_trans: "same_tables s s1 \<Longrightarrow> same_tables s1 s2 \<Longrightarrow> same_tables s s2"
  by (simp add: same_tables_def)

lemma same_tables_after_request [simp]: "same_tables s (after_request rq s)"
  by (simp add: same_tables_def)

lemma same_tables_sleep [simp]: "same_tables s (js_sleep w s)"
  by (simp add: same_tables_def js_sleep_def)

lemma js_sleep_fields [simp]:
  "serverCache (js_sleep w s) = serverCache s"
  "clientCache (js_sleep w s) = clientCache s"
  "calls (js_sleep w s) = calls s"
  "sleeps (js_sleep w s) = sleeps s @ [w]"
  "ticks (js_sleep w s) = ticks s"
  by (simp_all add: js_sleep_def)

text \<open>One attempt either throws, waits after a 429, or stores and returns.\<close>

lemma api_try_cases:
  "(\<exists>e. api_try C b u key n s = (Inl e, s) \<and> api_headers C = Inl e)
   \<or> (\<exists>e hs. api_headers C = Inr hs
         \<and> api_try C b u key n s = (Inl e, after_request \<lparr>url = u, headers = hs\<rparr> s))
   \<or> (\<exists>w hs. api_headers C = Inr hs
         \<and> api_try C b u key n s = (Inr Continue, js_sleep w (after_request \<lparr>url = u, headers = hs\<rparr> s)))
   \<or> (\<exists>d hs. api_headers C = Inr hs
         \<and> api_try C b u key n s
             = (Inr (Returned d),
                store_result C b key (only_data d) (after_request \<lparr>url = u, headers = hs\<rparr> s)))"
  by (auto simp: api_try_def js_fetch_eq split: fetch_outcome.splits sum.splits)

lemma api_try_calls:
  "length (calls (snd (api_try C b u key n s))) \<le> Suc (length (calls s))"
  using api_try_cases[of C b u key n s] by auto

lemma api_try_tables:
  "api_try C b u key n s = (r, s1) \<Longrightarrow>
     (case r of Inr (Returned d) \<Rightarrow> \<exists>s0. same_tables s s0 \<and> s1 = store_result C b key (only_data d) s0
      | _ \<Rightarrow> same_tables s s1)"
proof -
  have ex: "\<exists>s0. same_tables s s0 \<and> store_result C b key r0 (after_request rq s) = store_result C b key r0 s0"
    for r0 rq
    using same_tables_after_request by blast
  have sl: "same_tables s (js_sleep w (after_request rq s))" for w rq
    by (simp add: same_tables_def)
  assume "api_try C b u key n s = (r, s1)"
  then show ?thesis
    using api_try_cases[of C b u key n s] ex sl by auto
qed

lemma api_loop_tables:
  "api_loop C b u key n s = (r, s') \<Longrightarrow>
     (case r of Some d \<Rightarrow> \<exists>s0. same_tables s s0 \<and> s' = store_result C b key (only_data d) s0
      | None \<Rightarrow> same_tables s s')"
proof (induction C b u key n s arbitrary: r s' rule: api_loop.induct)
  case (1 C b u key n s)
  show ?case
  proof (cases "n < MAX_RETRIES")
    case False
    with "1.prems" show ?thesis by (simp add: api_loop.simps)
  next
    case True
    obtain x s1 where t: "api_try C b u key n s = (x, s1)" by (cases "api_try C b u key n s")
    note tt = api_try_tables[OF t]
    show ?thesis
    proof (cases x)
      case (Inl e)
      with tt have st: "same_tables s s1" by simp
      from "1.prems" True t Inl
      have sl: "api_loop C b u key (n + 1) (js_sleep (2 ^ n * 1000) s1) = (r, s')"
        by (simp add: api_loop.simps)
      have st2: "same_tables s (js_sleep (2 ^ n * 1000) s1)"
        using st by (simp add: same_tables_def)
      from "1.IH"(1)[OF True t[symmetric] Inl sl]
      show ?thesis using st2
        by (cases r) (auto intro: same_tables_trans)
    next
      case (Inr y)
      show ?thesis
      proof (cases y)
        case Continue
        with tt Inr have st: "same_tables s s1" by simp
        from "1.prems" True t Inr Continue
        have "api_loop C b u key (n + 1) s1 = (r, s')" by (simp add: api_loop.simps)
        from "1.IH"(2)[OF True t[symmetric] Inr Continue this]
        show ?thesis using st by (cases r) (auto intro: same_tables_trans)
      next
        case (Returned d)
        with "1.prems" True t Inr have "r = Some d" "s' = s1" by (simp_all add: api_loop.simps)
        with tt Inr Returned show ?thesis by simp
      qed
    qed
  qed
qed

lemma api_loop_calls:
  "length (calls (snd (api_loop C b u key n s))) \<le> length (calls s) + (MAX_RETRIES - n)"
proof (induction C b u key n s rule: api_loop.induct)
  case (1 C b u key n s)
  show ?case
  proof (cases "n < MAX_RETRIES")
    case False
    then show ?thesis by (simp add: api_loop.simps)
  next
    case True
    obtain x s1 where t: "api_try C b u key n s = (x, s1)" by (cases "api_try C b u key n s")
    have c1: "length (calls s1) \<le> Suc (length (calls s))"
      using api_try_calls[of C b u key n s] t by simp
    show ?thesis
    proof (cases x)
      case (Inl e)
      have "length (calls (snd (api_loop C b u key (n + 1) (js_sleep (2 ^ n * 1000) s1))))
              \<le> length (calls (js_sleep (2 ^ n * 1000) s1)) + (MAX_RETRIES - (n + 1))"
        by (rule "1.IH"(1)[OF True t[symmetric] Inl])
      then show ?thesis using True t Inl c1 by (simp add: api_loop.simps)
    next
      case (Inr y)
      show ?thesis
      proof (cases y)
        case Continue
        have "length (calls (snd (api_loop C b u key (n + 1) s1)))
                \<le> length (calls s1) + (MAX_RETRIES - (n + 1))"
          by (rule "1.IH"(2)[OF True t[symmetric] Inr Continue])
        then show ?thesis using True t Inr Continue c1 by (simp add: api_loop.simps)
      next
        case (Returned d)
        then show ?thesis using True t Inr c1 by (simp add: api_loop.simps)
      qed
    qed
  qed
qed

section \<open>The two sides of the cache check\<close>

lemma after_tick_fields [simp]:
  "serverCache (after_tick s) = serverCache s"
  "clientCache (after_tick s) = clientCache s"
  "calls (after_tick s) = calls s"
  "sleeps (after_tick s) = sleeps s"
  "ticks (after_tick s) = Suc (ticks s)"
  by (simp_all add: after_tick_def)

lemma client_cache_fresh_eq:
  "client_cache_fresh C key s =
     (case map_get (clientCache s) key of
        None \<Rightarrow> (None, s)
      | Some e \<Rightarrow> if clock C (ticks s) - timestamp e < cacheExpirationTime
                  then (Some e, after_tick s) else (None, after_tick s))"
  by (simp add: client_cache_fresh_def date_now_def after_tick_def split: option.splits)

lemma fetchJsonData_server:
  "fetchJsonData C opts True s =
     (case map_get (serverCache s) (json_cache_key opts) of
        Some d \<Rightarrow> (Inr (only_data d), s)
      | None \<Rightarrow> json_network C opts True (json_cache_key opts) s)"
  by (simp add: fetchJsonData_def Let_def)

lemma fetchCsvData_server:
  "fetchCsvData C opts True s =
     (case map_get (serverCache s) (csv_cache_key opts) of
        Some d \<Rightarrow> (Inr (only_data d), s)
      | None \<Rightarrow> csv_network C opts True (csv_cache_key opts) s)"
  by (simp add: fetchCsvData_def Let_def)

lemma fetchTxtData_server:
  "fetchTxtData C opts True s =
     (case map_get (serverCache s) (txt_cache_key opts) of
        Some d \<Rightarrow> (Inr (only_data d), s)
      | None \<Rightarrow> txt_network C opts True (txt_cache_key opts) s)"
  by (simp add: fetchTxtData_def Let_def)

lemma fetchApiData_server:
  "fetchApiData C opts True s =
     (case map_get (serverCache s) (api_cache_key opts) of
        Some d \<Rightarrow> (Inr (only_data d), s)
      | None \<Rightarrow> api_network C opts True (api_cache_key opts) s)"
  by (simp add: fetchApiData_def Let_def)

lemma fetchJsonData_client:
  "fetchJsonData C opts False s =
     (case map_get (clientCache s) (json_cache_key opts) of
        None \<Rightarrow> json_network C opts False (json_cache_key opts) s
      | Some e \<Rightarrow>
          if clock C (ticks s) - timestamp e < cacheExpirationTime
          then (Inr \<lparr>data = data e, totalItems = totalItems e, totalPages = totalPages e\<rparr>, after_tick s)
          else json_network C opts False (json_cache_key opts) (after_tick s))"
  by (simp add: fetchJsonData_def Let_def client_cache_fresh_eq split: option.splits)

lemma fetchCsvData_client:
  "fetchCsvData C opts False s =
     (case map_get (clientCache s) (csv_cache_key opts) of
        None \<Rightarrow> csv_network C opts False (csv_cache_key opts) s
      | Some e \<Rightarrow>
          if clock C (ticks s) - timestamp e < cacheExpirationTime
          then (Inr (only_data (data e)), after_tick s)
          else csv_network C opts False (csv_cache_key opts) (after_tick s))"
  by (simp add: fetchCsvData_def Let_def client_cache_fresh_eq split: option.splits)

lemma fetchTxtData_client:
  "fetchTxtData C opts False s =
     (case map_get (clientCache s) (txt_cache_key opts) of
        None \<Rightarrow> txt_network C opts False (txt_cache_key opts) s
      | Some e \<Rightarrow>
          if clock C (ticks s) - timestamp e < cacheExpirationTime
          then (Inr (only_data (data e)), after_tick s)
          else txt_network C opts False (txt_cache_key opts) (after_tick s))"
  by (simp add: fetchTxtData_def Let_def client_cache_fresh_eq split: option.splits)

lemma fetchApiData_client:
  "fetchApiData C opts False s =
     (case map_get (clientCache s) (api_cache_key opts) of
        None \<Rightarrow> api_network C opts False (api_cache_key opts) s
      | Some e \<Rightarrow>
          if clock C (ticks s) - timestamp e < cacheExpirationTime
          then (Inr (only_data (data e)), after_tick s)
          else api_network C opts False (api_cache_key opts) (after_tick s))"
  by (simp add: fetchApiData_def Let_def client_cache_fresh_eq split: option.splits)

section \<open>The api path only resolves\<close>

lemma api_network_resolves: "\<exists>r. fst (api_network C opts b key s) = Inr r"
  by (auto simp: api_network_def Let_def split: prod.splits option.splits sum.splits)

lemma fetchApiData_resolves: "\<exists>r. fst (fetchApiData C opts b s) = Inr r"
proof (cases b)
  case True
  then show ?thesis
    using api_network_resolves[of C opts True "api_cache_key opts" s]
    by (simp add: fetchApiData_server split: option.splits)
next
  case False
  then show ?thesis
    using api_network_resolves[of C opts False "api_cache_key opts" s]
          api_network_resolves[of C opts False "api_cache_key opts" "after_tick s"]
    by (simp add: fetchApiData_client split: option.splits)
qed

lemma api_fallback_try_tables: "same_tables s (snd (api_fallback_try C opts b s))"
  by (auto simp: api_fallback_try_def js_fetch_eq same_tables_def
           split: fetch_outcome.splits sum.splits)

lemma api_fallback_try_calls:
  "length (calls (snd (api_fallback_try C opts b s))) \<le> Suc (length (calls s))"
  by (auto simp: api_fallback_try_def js_fetch_eq split: fetch_outcome.splits sum.splits)

text \<open>The api path leaves the tables alone or stores the data it returns.\<close>

lemma api_network_tables:
  "api_network C opts b key s = (r, s') \<Longrightarrow>
     same_tables s s'
     \<or> (\<exists>d s0. r = Inr (only_data d) \<and> same_tables s s0 \<and> s' = store_result C b key (only_data d) s0)"
proof -
  assume a: "api_network C opts b key s = (r, s')"
  show ?thesis
  proof (cases "endpoint opts = None \<or> endpoint opts = Some []")
    case True
    with a show ?thesis by (auto simp: api_network_def)
  next
    case False
    then obtain u where u: "endpoint opts = Some u" "u \<noteq> []" by auto
    obtain x s1 where l: "api_loop C b u key 0 s = (x, s1)" by (cases "api_loop C b u key 0 s")
    note lt = api_loop_tables[OF l]
    show ?thesis
    proof (cases x)
      case (Some d)
      with a u l have "r = Inr (only_data d)" "s' = s1" by (simp_all add: api_network_def)
      with lt Some show ?thesis by auto
    next
      case None
      with lt have st: "same_tables s s1" by simp
      have "s' = snd (api_fallback_try C opts b s1)"
        using a u l None
        by (auto simp: api_network_def split: prod.splits sum.splits option.splits)
      then have "same_tables s s'"
        using st api_fallback_try_tables[of s1 C opts b] same_tables_trans by blast
      then show ?thesis by simp
    qed
  qed
qed

lemma api_network_calls:
  "length (calls (snd (api_network C opts b key s))) \<le> length (calls s) + 4"
proof (cases "endpoint opts = None \<or> endpoint opts = Some []")
  case True
  then show ?thesis by (auto simp: api_network_def)
next
  case False
  then obtain u where u: "endpoint opts = Some u" "u \<noteq> []" by auto
  obtain x s1 where l: "api_loop C b u key 0 s = (x, s1)" by (cases "api_loop C b u key 0 s")
  have c1: "length (calls s1) \<le> length (calls s) + 3"
    using api_loop_calls[of C b u key 0 s] l by (simp add: MAX_RETRIES_def)
  have c2: "length (calls (snd (api_fallback_try C opts b s1))) \<le> Suc (length (calls s1))"
    by (rule api_fallback_try_calls)
  show ?thesis
  proof (cases x)
    case (Some d)
    with u l c1 show ?thesis by (simp add: api_network_def)
  next
    case None
    have "snd (api_network C opts b key s) = snd (api_fallback_try C opts b s1)"
      using u l None by (auto simp: api_network_def split: prod.splits sum.splits option.splits)
    with c1 c2 show ?thesis by simp
  qed
qed

section \<open>What a fetch does to the server cache\<close>

lemma json_network_tables:
  "json_network C opts b key s = (r, s') \<Longrightarrow>
     same_tables s s' \<or> (\<exists>r0 s0. r = Inr r0 \<and> same_tables s s0 \<and> s' = store_result C b key r0 s0)"
  using json_network_cases[of C opts b key s] same_tables_after_request by fastforce

lemma csv_network_tables:
  "csv_network C opts b key s = (r, s') \<Longrightarrow>
     same_tables s s' \<or> (\<exists>r0 s0. r = Inr r0 \<and> same_tables s s0 \<and> s' = store_result C b key r0 s0)"
  using csv_network_cases[of C opts b key s] same_tables_after_request by fastforce

lemma txt_network_tables:
  "txt_network C opts b key s = (r, s') \<Longrightarrow>
     same_tables s s' \<or> (\<exists>r0 s0. r = Inr r0 \<and> same_tables s s0 \<and> s' = store_result C b key r0 s0)"
  using txt_network_cases[of C opts b key s] same_tables_after_request by fastforce

lemma api_network_tables':
  "api_network C opts b key s = (r, s') \<Longrightarrow>
     same_tables s s' \<or> (\<exists>r0 s0. r = Inr r0 \<and> same_tables s s0 \<and> s' = store_result C b key r0 s0)"
  using api_network_tables[of C opts b key s r s'] by blast

text \<open>
  A path that checks the server cache first and otherwise runs a network part which
  leaves the tables alone or stores what it returns.
\<close>

lemma server_side_generic:
  fixes f :: fetch_path and nf hit
  assumes srv: "\<And>C s. f C opts True s =
            (case map_get (serverCache s) key of
               Some d \<Rightarrow> (Inr (only_data d), s)
             | None \<Rightarrow> nf C True s)"
    and cli: "\<And>C s. f C opts False s =
            (case map_get (clientCache s) key of
               None \<Rightarrow> nf C False s
             | Some e \<Rightarrow>
                 if clock C (ticks s) - timestamp e < cacheExpirationTime
                 then (Inr (hit e), after_tick s)
                 else nf C False (after_tick s))"
    and net: "\<And>C b s r s'. nf C b s = (r, s') \<Longrightarrow>
            same_tables s s' \<or> (\<exists>r0 s0. r = Inr r0 \<and> same_tables s s0 \<and> s' = store_result C b key r0 s0)"
  shows "map_has (serverCache s) key \<longrightarrow>
           (\<exists>d. map_get (serverCache s) key = Some d \<and> f C opts True s = (Inr (only_data d), s))"
    and "map_get (serverCache s) k = Some d \<longrightarrow>
           map_get (serverCache (snd (f C opts isServer s))) k = Some d"
    and "fst (f C opts True s) = Inr r
         \<and> map_has (serverCache (snd (f C opts True s))) key
         \<and> map_get (serverCache s2) key = map_get (serverCache (snd (f C opts True s))) key
         \<longrightarrow> f C2 opts True s2 = (Inr (only_data (data r)), s2)"
proof -
  show "map_has (serverCache s) key \<longrightarrow>
           (\<exists>d. map_get (serverCache s) key = Some d \<and> f C opts True s = (Inr (only_data d), s))"
    by (auto simp: map_has_iff srv)
  have net_srv: "serverCache s' = serverCache s0
        \<or> (b \<and> (\<exists>r0. r = Inr r0 \<and> serverCache s' = map_set (serverCache s0) key (data r0)))"
    if "nf C b s0 = (r, s')" for C b s0 r s'
    using net[OF that] by (cases b) (auto simp: same_tables_def store_result_serverCache)
  show "map_get (serverCache s) k = Some d \<longrightarrow>
           map_get (serverCache (snd (f C opts isServer s))) k = Some d"
  proof
    assume k: "map_get (serverCache s) k = Some d"
    show "map_get (serverCache (snd (f C opts isServer s))) k = Some d"
    proof (cases isServer)
      case True
      show ?thesis
      proof (cases "map_get (serverCache s) key")
        case (Some d')
        with True k show ?thesis by (simp add: srv)
      next
        case None
        obtain r s' where n: "nf C True s = (r, s')" by (cases "nf C True s")
        have ne: "k \<noteq> key" using k None by auto
        from net_srv[OF n] show ?thesis
          using True None n k ne by (auto simp: srv map_get_map_set)
      qed
    next
      case False
      have a: "serverCache (snd (nf C False s0)) = serverCache s0" for s0
        using net_srv[of C False s0 "fst (nf C False s0)" "snd (nf C False s0)"] by simp
      show ?thesis using False k a[of s] a[of "after_tick s"]
        by (simp add: cli split: option.splits)
    qed
  qed
  show "fst (f C opts True s) = Inr r
         \<and> map_has (serverCache (snd (f C opts True s))) key
         \<and> map_get (serverCache s2) key = map_get (serverCache (snd (f C opts True s))) key
         \<longrightarrow> f C2 opts True s2 = (Inr (only_data (data r)), s2)"
  proof (intro impI, elim conjE)
    assume r: "fst (f C opts True s) = Inr r"
      and h: "map_has (serverCache (snd (f C opts True s))) key"
      and e: "map_get (serverCache s2) key = map_get (serverCache (snd (f C opts True s))) key"
    have "map_get (serverCache (snd (f C opts True s))) key = Some (data r)"
    proof (cases "map_get (serverCache s) key")
      case (Some d')
      with r show ?thesis by (auto simp: srv only_data_def)
    next
      case None
      obtain x s' where n: "nf C True s = (x, s')" by (cases "nf C True s")
      from net_srv[OF n] show ?thesis
        using None n r h by (auto simp: srv map_get_map_set map_has_iff)
    qed
    with e show "f C2 opts True s2 = (Inr (only_data (data r)), s2)"
      by (simp add: srv)
  qed
qed

section \<open>Server cache hits\<close>

lemma raising_path_caches_on_success:
  assumes "(f, kf) \<in> set raising_paths" and "fst (f C opts True s) = Inr r"
  shows "map_get (serverCache (snd (f C opts True s))) (kf opts) = Some (data r)"
proof -
  have gen: "map_get (serverCache (snd res)) key = Some (data r)"
    if "(\<exists>e. res = (Inl e, after_request rq s)) \<or>
        (\<exists>r0. res = (Inr r0, store_result C True key r0 (after_request rq s)))"
       "fst res = Inr r" for res key rq
    using that by (auto simp: store_result_serverCache map_get_map_set)
  from assms(1) consider
      "f = fetchJsonData" "kf = json_cache_key"
    | "f = fetchCsvData" "kf = csv_cache_key"
    | "f = fetchTxtData" "kf = txt_cache_key"
    by (auto simp: raising_paths_def)
  then show ?thesis
  proof cases
    case 1
    show ?thesis
    proof (cases "map_get (serverCache s) (json_cache_key opts)")
      case None
      then show ?thesis
        using gen[OF json_network_cases[of C opts True "json_cache_key opts" s]] assms(2) 1
        by (simp add: fetchJsonData_server)
    next
      case (Some d)
      then show ?thesis using assms(2) 1 by (auto simp: fetchJsonData_server only_data_def)
    qed
  next
    case 2
    show ?thesis
    proof (cases "map_get (serverCache s) (csv_cache_key opts)")
      case None
      then show ?thesis
        using gen[OF csv_network_cases[of C opts True "csv_cache_key opts" s]] assms(2) 2
        by (simp add: fetchCsvData_server)
    next
      case (Some d)
      then show ?thesis using assms(2) 2 by (auto simp: fetchCsvData_server only_data_def)
    qed
  next
    case 3
    show ?thesis
    proof (cases "map_get (serverCache s) (txt_cache_key opts)")
      case None
      then show ?thesis
        using gen[OF txt_network_cases[of C opts True "txt_cache_key opts" s]] assms(2) 3
        by (simp add: fetchTxtData_server)
    next
      case (Some d)
      then show ?thesis using assms(2) 3 by (auto simp: fetchTxtData_server only_data_def)
    qed
  qed
qed

text \<open>
  Claim C4. For each of the four fetch paths called with the server flag: when the shared
  server cache holds the computed key, the cached data are returned and the state is the
  same (no request, no clock read, so no expiry check). No fetch, on either side and
  whatever the clock says, removes or changes an entry the server cache already holds.
  Hence, after a server-side fetch that left its key in the server cache, a later
  server-side fetch with the same key returns the same data, in any context and at any
  time; and a json, csv or txt fetch that resolved on the server always left its key there.
\<close>

theorem server_cache_hit_returns_cached:
  assumes "(f, kf) \<in> set fetch_paths"
  shows "(map_has (serverCache s) (kf opts) \<longrightarrow>
            (\<exists>d. map_get (serverCache s) (kf opts) = Some d
                 \<and> f C opts True s = (Inr (only_data d), s)))
       \<and> (map_get (serverCache s) k = Some d \<longrightarrow>
            map_get (serverCache (snd (f C opts isServer s))) k = Some d)
       \<and> (fst (f C opts True s) = Inr r
            \<and> map_has (serverCache (snd (f C opts True s))) (kf opts)
            \<and> map_get (serverCache s2) (kf opts) = map_get (serverCache (snd (f C opts True s))) (kf opts)
          \<longrightarrow> f C2 opts True s2 = (Inr (only_data (data r)), s2))
       \<and> ((f, kf) \<in> set raising_paths \<and> fst (f C opts True s) = Inr r
          \<longrightarrow> map_has (serverCache (snd (f C opts True s))) (kf opts))"
proof -
  have last: "(f, kf) \<in> set raising_paths \<and> fst (f C opts True s) = Inr r
          \<longrightarrow> map_has (serverCache (snd (f C opts True s))) (kf opts)"
    using raising_path_caches_on_success[of f kf C opts s r] by (auto simp: map_has_iff)
  from assms consider
      "f = fetchJsonData" "kf = json_cache_key"
    | "f = fetchCsvData" "kf = csv_cache_key"
    | "f = fetchTxtData" "kf = txt_cache_key"
    | "f = fetchApiData" "kf = api_cache_key"
    by (auto simp: fetch_paths_def raising_paths_def)
  then show ?thesis
  proof cases
    case 1
    note g = server_side_generic[where f = fetchJsonData and key = "json_cache_key opts" and opts = opts
        and nf = "\<lambda>C b. json_network C opts b (json_cache_key opts)" and hit = "\<lambda>e. \<lparr>data = data e, totalItems = totalItems e, totalPages = totalPages e\<rparr>",
        OF fetchJsonData_server fetchJsonData_client json_network_tables]
    show ?thesis
      unfolding 1 by (intro conjI; (rule g(1) | rule g(2) | rule g(3) | rule last[unfolded 1]))
  next
    case 2
    note g = server_side_generic[where f = fetchCsvData and key = "csv_cache_key opts" and opts = opts
        and nf = "\<lambda>C b. csv_network C opts b (csv_cache_key opts)" and hit = "\<lambda>e. only_data (data e)",
        OF fetchCsvData_server fetchCsvData_client csv_network_tables]
    show ?thesis
      unfolding 2 by (intro conjI; (rule g(1) | rule g(2) | rule g(3) | rule last[unfolded 2]))
  next
    case 3
    note g = server_side_generic[where f = fetchTxtData and key = "txt_cache_key opts" and opts = opts
        and nf = "\<lambda>C b. txt_network C opts b (txt_cache_key opts)" and hit = "\<lambda>e. only_data (data e)",
        OF fetchTxtData_server fetchTxtData_client txt_network_tables]
    show ?thesis
      unfolding 3 by (intro conjI; (rule g(1) | rule g(2) | rule g(3) | rule last[unfolded 3]))
  next
    case 4
    note g = server_side_generic[where f = fetchApiData and key = "api_cache_key opts" and opts = opts
        and nf = "\<lambda>C b. api_network C opts b (api_cache_key opts)" and hit = "\<lambda>e. only_data (data e)",
        OF fetchApiData_server fetchApiData_client api_network_tables']
    show ?thesis
      unfolding 4 by (intro conjI; (rule g(1) | rule g(2) | rule g(3) | rule last[unfolded 4]))
  qed
qed

theorem server_cache_hit_returns_cached_witness:
  "(fetchJsonData, json_cache_key) \<in> set fetch_paths
   \<and> (fetchJsonData, json_cache_key) \<in> set raising_paths
   \<and> fst (fetchJsonData (sample_ctx [ok_response ''[1,2]''] (\<lambda>k. 0)) product_opts True empty_state)
       = Inr (only_data [JNumber 1, JNumber 2])
   \<and> map_has (serverCache (snd (fetchJsonData (sample_ctx [ok_response ''[1,2]''] (\<lambda>k. 0))
                                   product_opts True empty_state)))
         (json_cache_key product_opts)
   \<and> fetchJsonData (sample_ctx [] (\<lambda>k. 86400000)) product_opts True
        (snd (fetchJsonData (sample_ctx [ok_response ''[1,2]''] (\<lambda>k. 0)) product_opts True empty_state))
       = (Inr (only_data [JNumber 1, JNumber 2]),
          snd (fetchJsonData (sample_ctx [ok_response ''[1,2]''] (\<lambda>k. 0)) product_opts True empty_state))
   \<and> map_get (serverCache (snd (fetchJsonData (sample_ctx [] (\<lambda>k. 86400000)) product_opts False
        (snd (fetchJsonData (sample_ctx [ok_response ''[1,2]''] (\<lambda>k. 0)) product_opts True empty_state)))))
         (json_cache_key product_opts)
       = Some [JNumber 1, JNumber 2]"
proof -
  let ?C1 = "sample_ctx [ok_response ''[1,2]''] (\<lambda>k. 0)"
  let ?C2 = "sample_ctx [] (\<lambda>k. 86400000)"
  let ?s1 = "snd (fetchJsonData ?C1 product_opts True empty_state)"
  have m: "(fetchJsonData, json_cache_key) \<in> set fetch_paths"
    by (simp add: fetch_paths_def raising_paths_def)
  have m': "(fetchJsonData, json_cache_key) \<in> set raising_paths"
    by (simp add: raising_paths_def)
  have r1: "fst (fetchJsonData ?C1 product_opts True empty_state) = Inr (only_data [JNumber 1, JNumber 2])"
    by code_simp
  have d1: "data (only_data [JNumber 1, JNumber 2]) = [JNumber 1, JNumber 2]"
    by (simp add: only_data_def)
  note A = server_cache_hit_returns_cached[OF m, where s = empty_state and C = ?C1 and opts = product_opts
      and r = "only_data [JNumber 1, JNumber 2]" and ?s2.0 = ?s1 and ?C2.0 = ?C2]
  have h: "map_has (serverCache ?s1) (json_cache_key product_opts)"
    using A m' r1 by blast
  have second: "fetchJsonData ?C2 product_opts True ?s1 = (Inr (only_data [JNumber 1, JNumber 2]), ?s1)"
    using A r1 h d1 by simp
  note B = server_cache_hit_returns_cached[OF m, where s = ?s1 and C = ?C2 and opts = product_opts
      and k = "json_cache_key product_opts" and isServer = False]
  have "\<exists>d. map_get (serverCache ?s1) (json_cache_key product_opts) = Some d
          \<and> fetchJsonData ?C2 product_opts True ?s1 = (Inr (only_data d), ?s1)"
    using B h by blast
  then have g: "map_get (serverCache ?s1) (json_cache_key product_opts) = Some [JNumber 1, JNumber 2]"
    using second by (auto simp: only_data_def)
  have kept: "map_get (serverCache (snd (fetchJsonData ?C2 product_opts False ?s1))) (json_cache_key product_opts)
       = Some [JNumber 1, JNumber 2]"
    using B[where d = "[JNumber 1, JNumber 2]"] g by blast
  show ?thesis using m m' r1 h second kept by blast
qed

section \<open>Pagination metadata and the two caches\<close>

lemma json_client_entry_after_fetch:
  assumes "fst (fetchJsonData C opts False s) = Inr r"
  shows "\<exists>e. map_get (clientCache (snd (fetchJsonData C opts False s))) (json_cache_key opts) = Some e
             \<and> data e = data r \<and> totalItems e = totalItems r \<and> totalPages e = totalPages r"
proof -
  let ?key = "json_cache_key opts"
  have net: "\<exists>e. map_get (clientCache (snd (json_network C opts False ?key s0))) ?key = Some e
             \<and> data e = data r \<and> totalItems e = totalItems r \<and> totalPages e = totalPages r"
    if "fst (json_network C opts False ?key s0) = Inr r" for s0
    using json_network_cases[of C opts False ?key s0] that
    by (auto simp: store_result_clientCache map_get_map_set)
  show ?thesis
  proof (cases "map_get (clientCache s) ?key")
    case None
    with assms net[of s] show ?thesis by (simp add: fetchJsonData_client)
  next
    case (Some e)
    show ?thesis
    proof (cases "clock C (ticks s) - timestamp e < cacheExpirationTime")
      case True
      with Some assms show ?thesis by (auto simp: fetchJsonData_client)
    next
      case False
      with Some assms net[of "after_tick s"] show ?thesis by (simp add: fetchJsonData_client)
    qed
  qed
qed

text \<open>
  Claim C10. The server cache maps a key to the parsed data array alone. A server-side json
  fetch that finds its key there returns that array with \<open>totalItems\<close> and \<open>totalPages\<close>
  undefined, whatever metadata the fetch that filled the entry returned; a server-side
  fetch that resolved over the network stored exactly its data. A client-cache hit returns
  the \<open>totalItems\<close> and \<open>totalPages\<close> kept in the entry, and the entry left by a resolved
  client-side fetch carries the metadata that fetch returned, so a second client-side fetch
  inside the expiry window returns the same result.
\<close>

theorem server_cache_hit_drops_pagination:
  "(map_get (serverCache s) (json_cache_key opts) = Some d \<longrightarrow>
      fst (fetchJsonData C opts True s)
        = Inr \<lparr>data = d, totalItems = JUndefined, totalPages = JUndefined\<rparr>)
   \<and> (fst (fetchJsonData C opts True s) = Inr r \<longrightarrow>
        map_get (serverCache (snd (fetchJsonData C opts True s))) (json_cache_key opts) = Some (data r)
        \<and> fst (fetchJsonData C2 opts True (snd (fetchJsonData C opts True s)))
            = Inr \<lparr>data = data r, totalItems = JUndefined, totalPages = JUndefined\<rparr>)
   \<and> (map_get (clientCache s) (json_cache_key opts) = Some e
        \<and> clock C (ticks s) - timestamp e < cacheExpirationTime \<longrightarrow>
        fst (fetchJsonData C opts False s)
          = Inr \<lparr>data = data e, totalItems = totalItems e, totalPages = totalPages e\<rparr>)
   \<and> (fst (fetchJsonData C opts False s) = Inr r \<longrightarrow>
        (\<exists>e'. map_get (clientCache (snd (fetchJsonData C opts False s))) (json_cache_key opts) = Some e'
            \<and> data e' = data r \<and> totalItems e' = totalItems r \<and> totalPages e' = totalPages r
            \<and> (clock C2 (ticks (snd (fetchJsonData C opts False s))) - timestamp e' < cacheExpirationTime
                 \<longrightarrow> fst (fetchJsonData C2 opts False (snd (fetchJsonData C opts False s))) = Inr r)))"
proof (intro conjI impI)
  assume "map_get (serverCache s) (json_cache_key opts) = Some d"
  then show "fst (fetchJsonData C opts True s)
        = Inr \<lparr>data = d, totalItems = JUndefined, totalPages = JUndefined\<rparr>"
    by (simp add: fetchJsonData_server only_data_def)
next
  assume r: "fst (fetchJsonData C opts True s) = Inr r"
  have m: "(fetchJsonData, json_cache_key) \<in> set raising_paths" by (simp add: raising_paths_def)
  show g: "map_get (serverCache (snd (fetchJsonData C opts True s))) (json_cache_key opts) = Some (data r)"
    by (rule raising_path_caches_on_success[OF m r])
  show "fst (fetchJsonData C2 opts True (snd (fetchJsonData C opts True s)))
            = Inr \<lparr>data = data r, totalItems = JUndefined, totalPages = JUndefined\<rparr>"
    using g by (simp add: fetchJsonData_server only_data_def)
next
  assume "map_get (clientCache s) (json_cache_key opts) = Some e
        \<and> clock C (ticks s) - timestamp e < cacheExpirationTime"
  then show "fst (fetchJsonData C opts False s)
          = Inr \<lparr>data = data e, totalItems = totalItems e, totalPages = totalPages e\<rparr>"
    by (simp add: fetchJsonData_client)
next
  assume r: "fst (fetchJsonData C opts False s) = Inr r"
  let ?s' = "snd (fetchJsonData C opts False s)"
  from json_client_entry_after_fetch[OF r] obtain e' where
    e': "map_get (clientCache ?s') (json_cache_key opts) = Some e'"
        "data e' = data r" "totalItems e' = totalItems r" "totalPages e' = totalPages r"
    by blast
  have "fst (fetchJsonData C2 opts False ?s') = Inr r"
    if "clock C2 (ticks ?s') - timestamp e' < cacheExpirationTime"
    using that e' by (simp add: fetchJsonData_client)
  with e' show "\<exists>e'. map_get (clientCache ?s') (json_cache_key opts) = Some e'
            \<and> data e' = data r \<and> totalItems e' = totalItems r \<and> totalPages e' = totalPages r
            \<and> (clock C2 (ticks ?s') - timestamp e' < cacheExpirationTime
                 \<longrightarrow> fst (fetchJsonData C2 opts False ?s') = Inr r)"
    by blast
qed

theorem server_cache_hit_drops_pagination_witness:
  "fst (fetchJsonData (sample_ctx [ok_response envelope_body] (\<lambda>k. 0)) user_opts True empty_state)
     = Inr \<lparr>data = [JNumber 7], totalItems = JNumber 5, totalPages = JNumber 3\<rparr>
   \<and> fst (fetchJsonData (sample_ctx [] (\<lambda>k. 1000)) user_opts True
          (snd (fetchJsonData (sample_ctx [ok_response envelope_body] (\<lambda>k. 0)) user_opts True empty_state)))
     = Inr \<lparr>data = [JNumber 7], totalItems = JUndefined, totalPages = JUndefined\<rparr>
   \<and> fst (fetchJsonData (sample_ctx [ok_response envelope_body] (\<lambda>k. 0)) user_opts False empty_state)
     = Inr \<lparr>data = [JNumber 7], totalItems = JNumber 5, totalPages = JNumber 3\<rparr>
   \<and> fst (fetchJsonData (sample_ctx [] (\<lambda>k. 1000)) user_opts False
          (snd (fetchJsonData (sample_ctx [ok_response envelope_body] (\<lambda>k. 0)) user_opts False empty_state)))
     = Inr \<lparr>data = [JNumber 7], totalItems = JNumber 5, totalPages = JNumber 3\<rparr>"
proof -
  let ?C1 = "sample_ctx [ok_response envelope_body] (\<lambda>k. 0)"
  let ?C2 = "sample_ctx [] (\<lambda>k. 1000)"
  let ?r = "\<lparr>data = [JNumber 7], totalItems = JNumber 5, totalPages = JNumber 3\<rparr>"
  let ?ss = "snd (fetchJsonData ?C1 user_opts True empty_state)"
  let ?sc = "snd (fetchJsonData ?C1 user_opts False empty_state)"
  have s1: "fst (fetchJsonData ?C1 user_opts True empty_state) = Inr ?r" by code_simp
  have c1: "fst (fetchJsonData ?C1 user_opts False empty_state) = Inr ?r" by code_simp
  have ent: "map_get (clientCache ?sc) (json_cache_key user_opts)
       = Some \<lparr>data = [JNumber 7], totalItems = JNumber 5, totalPages = JNumber 3, timestamp = 0\<rparr>"
    by code_simp
  have tk: "clock ?C2 (ticks ?sc) = 1000" by (simp add: sample_ctx_def)
  note A = server_cache_hit_drops_pagination[where s = empty_state and opts = user_opts and C = ?C1
      and r = ?r and ?C2.0 = ?C2]
  have s2: "fst (fetchJsonData ?C2 user_opts True ?ss)
      = Inr \<lparr>data = [JNumber 7], totalItems = JUndefined, totalPages = JUndefined\<rparr>"
    using A s1 by simp
  from A c1 obtain e' where
    e': "map_get (clientCache ?sc) (json_cache_key user_opts) = Some e'"
        "clock ?C2 (ticks ?sc) - timestamp e' < cacheExpirationTime
           \<longrightarrow> fst (fetchJsonData ?C2 user_opts False ?sc) = Inr ?r"
    by blast
  from e'(1) ent have "timestamp e' = 0" by auto
  with e'(2) tk have c2: "fst (fetchJsonData ?C2 user_opts False ?sc) = Inr ?r"
    by (simp add: cacheExpirationTime_def)
  note B = server_cache_hit_drops_pagination[where s = ?sc and opts = user_opts and C = ?C2
      and e = "\<lparr>data = [JNumber 7], totalItems = JNumber 5, totalPages = JNumber 3, timestamp = 0\<rparr>"]
  have c2': "fst (fetchJsonData ?C2 user_opts False ?sc) = Inr ?r"
    using B ent tk by (simp add: cacheExpirationTime_def)
  have sv: "map_get (serverCache ?ss) (json_cache_key user_opts) = Some [JNumber 7]"
    using A s1 by simp
  note D = server_cache_hit_drops_pagination[where s = ?ss and opts = user_opts and C = ?C2
      and d = "[JNumber 7]"]
  have s2': "fst (fetchJsonData ?C2 user_opts True ?ss)
      = Inr \<lparr>data = [JNumber 7], totalItems = JUndefined, totalPages = JUndefined\<rparr>"
    using D sv by blast
  show ?thesis using s1 s2' c1 c2 c2' by blast
qed

section \<open>Failures of the json, csv and txt paths\<close>

lemma after_check_fields [simp]:
  "serverCache (after_check key b s) = serverCache s"
  "clientCache (after_check key b s) = clientCache s"
  "calls (after_check key b s) = calls s"
  "sleeps (after_check key b s) = sleeps s"
  by (simp_all add: after_check_def)

lemma fetchJsonData_miss:
  "cache_miss C (json_cache_key opts) b s \<Longrightarrow>
     fetchJsonData C opts b s = json_network C opts b (json_cache_key opts) (after_check (json_cache_key opts) b s)"
  by (cases b) (auto simp: cache_miss_def after_check_def fetchJsonData_server fetchJsonData_client
                     split: option.splits)

lemma fetchCsvData_miss:
  "cache_miss C (csv_cache_key opts) b s \<Longrightarrow>
     fetchCsvData C opts b s = csv_network C opts b (csv_cache_key opts) (after_check (csv_cache_key opts) b s)"
  by (cases b) (auto simp: cache_miss_def after_check_def fetchCsvData_server fetchCsvData_client
                     split: option.splits)

lemma fetchTxtData_miss:
  "cache_miss C (txt_cache_key opts) b s \<Longrightarrow>
     fetchTxtData C opts b s = txt_network C opts b (txt_cache_key opts) (after_check (txt_cache_key opts) b s)"
  by (cases b) (auto simp: cache_miss_def after_check_def fetchTxtData_server fetchTxtData_client
                     split: option.splits)

lemma fetchApiData_miss:
  "cache_miss C (api_cache_key opts) b s \<Longrightarrow>
     fetchApiData C opts b s = api_network C opts b (api_cache_key opts) (after_check (api_cache_key opts) b s)"
  by (cases b) (auto simp: cache_miss_def after_check_def fetchApiData_server fetchApiData_client
                     split: option.splits)

lemma fetchJsonData_hit: "\<not> cache_miss C (json_cache_key opts) b s \<Longrightarrow> \<exists>r. fst (fetchJsonData C opts b s) = Inr r"
  by (cases b) (auto simp: cache_miss_def fetchJsonData_server fetchJsonData_client split: option.splits)

lemma fetchCsvData_hit: "\<not> cache_miss C (csv_cache_key opts) b s \<Longrightarrow> \<exists>r. fst (fetchCsvData C opts b s) = Inr r"
  by (cases b) (auto simp: cache_miss_def fetchCsvData_server fetchCsvData_client split: option.splits)

lemma fetchTxtData_hit: "\<not> cache_miss C (txt_cache_key opts) b s \<Longrightarrow> \<exists>r. fst (fetchTxtData C opts b s) = Inr r"
  by (cases b) (auto simp: cache_miss_def fetchTxtData_server fetchTxtData_client split: option.splits)

lemma raising_path_miss:
  assumes "(f, kf) \<in> set raising_paths" and "cache_miss C (kf opts) b s"
  shows "(\<exists>e. f C opts b s = (Inl e, after_request (data_request C opts b) (after_check (kf opts) b s)))
       \<or> (\<exists>r. f C opts b s = (Inr r, store_result C b (kf opts) r
                   (after_request (data_request C opts b) (after_check (kf opts) b s))))"
  using assms json_network_cases[of C opts b "json_cache_key opts" "after_check (json_cache_key opts) b s"]
    csv_network_cases[of C opts b "csv_cache_key opts" "after_check (csv_cache_key opts) b s"]
    txt_network_cases[of C opts b "txt_cache_key opts" "after_check (txt_cache_key opts) b s"]
  by (auto simp: raising_paths_def fetchJsonData_miss fetchCsvData_miss fetchTxtData_miss)

lemma raising_path_reject_is_miss:
  assumes "(f, kf) \<in> set raising_paths" and "fst (f C opts b s) = Inl e"
  shows "cache_miss C (kf opts) b s"
proof (rule ccontr)
  assume n: "\<not> cache_miss C (kf opts) b s"
  from assms(1) consider
      "f = fetchJsonData" "kf = json_cache_key"
    | "f = fetchCsvData" "kf = csv_cache_key"
    | "f = fetchTxtData" "kf = txt_cache_key"
    by (auto simp: raising_paths_def)
  then have "\<exists>r. fst (f C opts b s) = Inr r"
    using n fetchJsonData_hit[of C opts b s] fetchCsvData_hit[of C opts b s] fetchTxtData_hit[of C opts b s]
    by cases simp_all
  with assms(2) show False by simp
qed

lemma raising_path_transport_failure:
  assumes "(f, kf) \<in> set raising_paths" and "cache_miss C (kf opts) b s"
    and "transport_failed (net C (length (calls s)) (data_request C opts b))"
  shows "\<exists>e. fst (f C opts b s) = Inl e"
  using assms
  by (auto simp: raising_paths_def fetchJsonData_miss fetchCsvData_miss fetchTxtData_miss
        json_network_def csv_network_def txt_network_def js_fetch_eq data_request_def transport_failed_def
      split: fetch_outcome.splits)

lemma json_decode_failure:
  assumes "cache_miss C (json_cache_key opts) b s"
    and "net C (length (calls s)) (data_request C opts b) = Response resp" and "ok resp"
    and "JSON_parse C (body resp) = None
         \<or> (\<exists>v. JSON_parse C (body resp) = Some v \<and> decode_json_response C v = Inl e)"
  shows "\<exists>e'. fst (fetchJsonData C opts b s) = Inl e'"
  using assms
  by (auto simp: fetchJsonData_miss json_network_def js_fetch_eq data_request_def response_json_def)

lemma csv_decode_failure:
  assumes "cache_miss C (csv_cache_key opts) b s"
    and "net C (length (calls s)) (data_request C opts b) = Response resp" and "ok resp"
    and "csv_decode (body resp) = Inr v" and "parseData C v = Inl e"
  shows "fst (fetchCsvData C opts b s) = Inl e"
  using assms
  by (auto simp: fetchCsvData_miss csv_network_def js_fetch_eq data_request_def)

lemma txt_decode_failure:
  assumes "cache_miss C (txt_cache_key opts) b s"
    and "net C (length (calls s)) (data_request C opts b) = Response resp" and "ok resp"
    and "parseData C (txt_decode C (body resp)) = Inl e"
  shows "fst (fetchTxtData C opts b s) = Inl e"
  using assms
  by (auto simp: fetchTxtData_miss txt_network_def js_fetch_eq data_request_def)

text \<open>
  Claim C9. On the json, csv and txt paths, after a failed cache check: a network failure
  or a response outside 200..299 rejects the promise; so does, on the json path, a body
  that \<open>JSON.parse\<close> rejects or whose decoding throws, and on the csv and txt paths a
  \<open>parseData\<close> that throws. Whenever one of these paths rejects, it has sent exactly one
  request (no retry, no fallback request), waited for no delay, and left both cache
  tables as they were. The api path never rejects.
\<close>

theorem raising_paths_fail_fast:
  assumes "(f, kf) \<in> set raising_paths"
  shows "(cache_miss C (kf opts) b s
            \<and> transport_failed (net C (length (calls s)) (data_request C opts b))
          \<longrightarrow> (\<exists>e. fst (f C opts b s) = Inl e))
       \<and> (fst (f C opts b s) = Inl e \<longrightarrow>
            calls (snd (f C opts b s)) = calls s @ [data_request C opts b]
            \<and> sleeps (snd (f C opts b s)) = sleeps s
            \<and> serverCache (snd (f C opts b s)) = serverCache s
            \<and> clientCache (snd (f C opts b s)) = clientCache s)
       \<and> (cache_miss C (json_cache_key opts) b s
            \<and> net C (length (calls s)) (data_request C opts b) = Response resp \<and> ok resp
            \<and> (JSON_parse C (body resp) = None
                \<or> (\<exists>v. JSON_parse C (body resp) = Some v \<and> decode_json_response C v = Inl e))
          \<longrightarrow> (\<exists>e'. fst (fetchJsonData C opts b s) = Inl e'))
       \<and> (cache_miss C (csv_cache_key opts) b s
            \<and> net C (length (calls s)) (data_request C opts b) = Response resp \<and> ok resp
            \<and> csv_decode (body resp) = Inr v \<and> parseData C v = Inl e
          \<longrightarrow> fst (fetchCsvData C opts b s) = Inl e)
       \<and> (cache_miss C (txt_cache_key opts) b s
            \<and> net C (length (calls s)) (data_request C opts b) = Response resp \<and> ok resp
            \<and> parseData C (txt_decode C (body resp)) = Inl e
          \<longrightarrow> fst (fetchTxtData C opts b s) = Inl e)
       \<and> (\<exists>r. fst (fetchApiData C opts b s) = Inr r)"
proof (intro conjI impI)
  assume "cache_miss C (kf opts) b s
            \<and> transport_failed (net C (length (calls s)) (data_request C opts b))"
  then show "\<exists>e. fst (f C opts b s) = Inl e"
    using raising_path_transport_failure[OF assms] by blast
next
  assume rej: "fst (f C opts b s) = Inl e"
  have miss: "cache_miss C (kf opts) b s"
    by (rule raising_path_reject_is_miss[OF assms rej])
  from raising_path_miss[OF assms miss] rej
  have eq: "snd (f C opts b s) = after_request (data_request C opts b) (after_check (kf opts) b s)"
    by auto
  show "calls (snd (f C opts b s)) = calls s @ [data_request C opts b]"
    and "sleeps (snd (f C opts b s)) = sleeps s"
    and "serverCache (snd (f C opts b s)) = serverCache s"
    and "clientCache (snd (f C opts b s)) = clientCache s"
    by (simp_all add: eq)
next
  assume "cache_miss C (json_cache_key opts) b s
            \<and> net C (length (calls s)) (data_request C opts b) = Response resp \<and> ok resp
            \<and> (JSON_parse C (body resp) = None
                \<or> (\<exists>v. JSON_parse C (body resp) = Some v \<and> decode_json_response C v = Inl e))"
  then show "\<exists>e'. fst (fetchJsonData C opts b s) = Inl e'"
    using json_decode_failure[of C opts b s resp e] by blast
next
  assume "cache_miss C (csv_cache_key opts) b s
            \<and> net C (length (calls s)) (data_request C opts b) = Response resp \<and> ok resp
            \<and> csv_decode (body resp) = Inr v \<and> parseData C v = Inl e"
  then show "fst (fetchCsvData C opts b s) = Inl e"
    using csv_decode_failure[of C opts b s resp v e] by blast
next
  assume "cache_miss C (txt_cache_key opts) b s
            \<and> net C (length (calls s)) (data_request C opts b) = Response resp \<and> ok resp
            \<and> parseData C (txt_decode C (body resp)) = Inl e"
  then show "fst (fetchTxtData C opts b s) = Inl e"
    using txt_decode_failure[of C opts b s resp e] by blast
next
  show "\<exists>r. fst (fetchApiData C opts b s) = Inr r"
    by (rule fetchApiData_resolves)
qed

theorem raising_paths_fail_fast_witness:
  "(fetchJsonData, json_cache_key) \<in> set raising_paths
   \<and> cache_miss (sample_ctx [error_response 500 ''Internal Server Error''] (\<lambda>k. 0))
        (json_cache_key product_opts) True empty_state
   \<and> transport_failed (error_response 500 ''Internal Server Error'')
   \<and> fst (fetchJsonData (sample_ctx [error_response 500 ''Internal Server Error''] (\<lambda>k. 0))
             product_opts True empty_state)
       = Inl (Error ''Failed to fetch data: Internal Server Error'')
   \<and> calls (snd (fetchJsonData (sample_ctx [error_response 500 ''Internal Server Error''] (\<lambda>k. 0))
                    product_opts True empty_state))
       = [data_request (sample_ctx [error_response 500 ''Internal Server Error''] (\<lambda>k. 0)) product_opts True]
   \<and> serverCache (snd (fetchJsonData (sample_ctx [error_response 500 ''Internal Server Error''] (\<lambda>k. 0))
                          product_opts True empty_state)) = []
   \<and> (\<exists>e'. fst (fetchJsonData (sample_ctx [ok_response ''<html>''] (\<lambda>k. 0)) product_opts False empty_state)
             = Inl e')
   \<and> fst (fetchCsvData ((sample_ctx [ok_response ''id,name''] (\<lambda>k. 0))\<lparr>parseData := throwing_parseData\<rparr>)
            product_opts False empty_state) = Inl (Error ''bad record'')
   \<and> fst (fetchTxtData ((sample_ctx [ok_response ''a:b''] (\<lambda>k. 0))\<lparr>parseData := throwing_parseData\<rparr>)
            product_opts False empty_state) = Inl (Error ''bad record'')"
proof -
  let ?C = "sample_ctx [error_response 500 ''Internal Server Error''] (\<lambda>k. 0)"
  let ?Cj = "sample_ctx [ok_response ''<html>''] (\<lambda>k. 0)"
  let ?Cc = "(sample_ctx [ok_response ''id,name''] (\<lambda>k. 0))\<lparr>parseData := throwing_parseData\<rparr>"
  let ?Ct = "(sample_ctx [ok_response ''a:b''] (\<lambda>k. 0))\<lparr>parseData := throwing_parseData\<rparr>"
  have m: "(fetchJsonData, json_cache_key) \<in> set raising_paths" by (simp add: raising_paths_def)
  have miss: "cache_miss C0 (kf0 product_opts) b0 empty_state" for C0 kf0 b0
    by (simp add: cache_miss_def empty_state_def map_get_def)
  have tf: "transport_failed (error_response 500 ''Internal Server Error'')"
    by (simp add: transport_failed_def error_response_def ok_def)
  have n0: "net ?C (length (calls empty_state)) rq = error_response 500 ''Internal Server Error''" for rq
    by (simp add: sample_ctx_def script_net_def empty_state_def)
  have val: "fst (fetchJsonData ?C product_opts True empty_state)
       = Inl (Error ''Failed to fetch data: Internal Server Error'')"
    by code_simp
  note A = raising_paths_fail_fast[OF m, where C = ?C and opts = product_opts and b = True
      and s = empty_state and e = "Error ''Failed to fetch data: Internal Server Error''"]
  have eff: "calls (snd (fetchJsonData ?C product_opts True empty_state)) = [data_request ?C product_opts True]
      \<and> serverCache (snd (fetchJsonData ?C product_opts True empty_state)) = []"
    using A val by (simp add: empty_state_def)
  have nj: "net ?Cj (length (calls empty_state)) rq = Response \<lparr>status = 200, statusText = ''OK'',
              retryAfter = None, body = ''<html>''\<rparr>" for rq
    by (simp add: sample_ctx_def script_net_def empty_state_def ok_response_def)
  have pj: "JSON_parse ?Cj ''<html>'' = None"
    by (simp add: sample_ctx_def sample_parse_def envelope_body_def)
  note B = raising_paths_fail_fast[OF m, where C = ?Cj and opts = product_opts and b = False
      and s = empty_state and resp = "\<lparr>status = 200, statusText = ''OK'', retryAfter = None, body = ''<html>''\<rparr>"]
  have jd: "\<exists>e'. fst (fetchJsonData ?Cj product_opts False empty_state) = Inl e'"
    using B miss nj pj by (simp add: ok_def)
  have nc: "net ?Cc (length (calls empty_state)) rq = Response \<lparr>status = 200, statusText = ''OK'',
              retryAfter = None, body = ''id,name''\<rparr>" for rq
    by (simp add: sample_ctx_def script_net_def empty_state_def ok_response_def)
  have cd: "csv_decode ''id,name'' = Inr (JArray [])" by code_simp
  note D = raising_paths_fail_fast[OF m, where C = ?Cc and opts = product_opts and b = False
      and s = empty_state and resp = "\<lparr>status = 200, statusText = ''OK'', retryAfter = None, body = ''id,name''\<rparr>"
      and v = "JArray []" and e = "Error ''bad record''"]
  have cv: "fst (fetchCsvData ?Cc product_opts False empty_state) = Inl (Error ''bad record'')"
    using D miss nc cd by (simp add: ok_def throwing_parseData_def sample_ctx_def)
  have nt: "net ?Ct (length (calls empty_state)) rq = Response \<lparr>status = 200, statusText = ''OK'',
              retryAfter = None, body = ''a:b''\<rparr>" for rq
    by (simp add: sample_ctx_def script_net_def empty_state_def ok_response_def)
  note E = raising_paths_fail_fast[OF m, where C = ?Ct and opts = product_opts and b = False
      and s = empty_state and resp = "\<lparr>status = 200, statusText = ''OK'', retryAfter = None, body = ''a:b''\<rparr>"
      and e = "Error ''bad record''"]
  have tv: "fst (fetchTxtData ?Ct product_opts False empty_state) = Inl (Error ''bad record'')"
    using E miss nt by (simp add: ok_def throwing_parseData_def sample_ctx_def)
  show ?thesis using m miss tf val eff jd cv tv by blast
qed

section \<open>Steps of the retry loop\<close>

lemma api_loop_done: "\<not> n < MAX_RETRIES \<Longrightarrow> api_loop C b u key n s = (None, s)"
  by (simp add: api_loop.simps)

lemma api_loop_step_failed:
  assumes "n < MAX_RETRIES" and "api_headers C = Inr hs"
    and "attempt_failed C (net C (length (calls s)) \<lparr>url = u, headers = hs\<rparr>)"
  shows "api_loop C b u key n s
           = api_loop C b u key (Suc n)
               (js_sleep (failed_wait (net C (length (calls s)) \<lparr>url = u, headers = hs\<rparr>) n)
                  (after_request \<lparr>url = u, headers = hs\<rparr> s))"
proof (cases "net C (length (calls s)) \<lparr>url = u, headers = hs\<rparr>")
  case NetworkFailure
  then show ?thesis using assms(1,2)
    by (subst api_loop.simps) (simp add: api_try_def js_fetch_eq failed_wait_def)
next
  case (Response resp)
  then show ?thesis using assms
    by (subst api_loop.simps)
       (auto simp: api_try_def js_fetch_eq failed_wait_def attempt_failed_def response_json_def ok_def
             split: option.splits sum.splits)
qed

lemma api_loop_step_no_process:
  assumes "n < MAX_RETRIES" and "api_headers C = Inl e"
  shows "api_loop C b u key n s = api_loop C b u key (Suc n) (js_sleep (2 ^ n * 1000) s)"
  using assms by (subst api_loop.simps) (simp add: api_try_def)

lemma api_loop_step_success:
  assumes "n < MAX_RETRIES" and "api_headers C = Inr hs"
    and "net C (length (calls s)) \<lparr>url = u, headers = hs\<rparr> = Response resp"
    and "status resp \<noteq> 429" and "ok resp"
    and "JSON_parse C (body resp) = Some v" and "parseData C v = Inr d"
  shows "api_loop C b u key n s
           = (Some d, store_result C b key (only_data d) (after_request \<lparr>url = u, headers = hs\<rparr> s))"
  using assms by (subst api_loop.simps) (simp add: api_try_def js_fetch_eq response_json_def)

lemma api_loop_three_failures:
  assumes h: "api_headers C = Inr hs"
    and f: "\<forall>k<3. attempt_failed C (net C (length (calls s) + k) \<lparr>url = u, headers = hs\<rparr>)"
  shows "fst (api_loop C b u key 0 s) = None"
    and "calls (snd (api_loop C b u key 0 s)) = calls s @ replicate 3 \<lparr>url = u, headers = hs\<rparr>"
    and "same_tables s (snd (api_loop C b u key 0 s))"
proof -
  let ?rq = "\<lparr>url = u, headers = hs\<rparr>"
  let ?s1 = "js_sleep (failed_wait (net C (length (calls s)) ?rq) 0) (after_request ?rq s)"
  let ?s2 = "js_sleep (failed_wait (net C (length (calls ?s1)) ?rq) (Suc 0)) (after_request ?rq ?s1)"
  let ?s3 = "js_sleep (failed_wait (net C (length (calls ?s2)) ?rq) (Suc (Suc 0))) (after_request ?rq ?s2)"
  have f0: "attempt_failed C (net C (length (calls s)) ?rq)" using f by force
  have f1: "attempt_failed C (net C (length (calls ?s1)) ?rq)"
    using f[rule_format, of 1] by simp
  have f2: "attempt_failed C (net C (length (calls ?s2)) ?rq)"
    using f[rule_format, of 2] by (simp add: numeral_2_eq_2)
  have e1: "api_loop C b u key 0 s = api_loop C b u key (Suc 0) ?s1"
    by (rule api_loop_step_failed[OF _ h f0]) (simp add: MAX_RETRIES_def)
  have e2: "api_loop C b u key (Suc 0) ?s1 = api_loop C b u key (Suc (Suc 0)) ?s2"
    by (rule api_loop_step_failed[OF _ h f1]) (simp add: MAX_RETRIES_def)
  have e3: "api_loop C b u key (Suc (Suc 0)) ?s2 = api_loop C b u key (Suc (Suc (Suc 0))) ?s3"
    by (rule api_loop_step_failed[OF _ h f2]) (simp add: MAX_RETRIES_def)
  have e4: "api_loop C b u key (Suc (Suc (Suc 0))) ?s3 = (None, ?s3)"
    by (rule api_loop_done) (simp add: MAX_RETRIES_def)
  have eq: "api_loop C b u key 0 s = (None, ?s3)"
    by (simp only: e1 e2 e3 e4)
  show "fst (api_loop C b u key 0 s) = None" by (simp add: eq)
  show "calls (snd (api_loop C b u key 0 s)) = calls s @ replicate 3 ?rq"
    by (simp add: eq numeral_3_eq_3)
  show "same_tables s (snd (api_loop C b u key 0 s))"
    by (simp add: eq same_tables_def)
qed

section \<open>The api path after three failed attempts\<close>

lemma api_fallback_try_server: "api_fallback_try C opts True s = (Inr None, s)"
  by (simp add: api_fallback_try_def)

lemma api_fallback_try_client_failed:
  assumes "fallback_failed C (net C (length (calls s)) (fallback_request opts))"
  shows "fst (api_fallback_try C opts False s) \<noteq> Inr (Some d)"
    and "snd (api_fallback_try C opts False s) = after_request (fallback_request opts) s"
  using assms
  by (auto simp: api_fallback_try_def js_fetch_eq fallback_failed_def fallback_request_def response_json_def
           split: fetch_outcome.splits option.splits sum.splits)

lemma api_fallback_try_client_ok:
  assumes "net C (length (calls s)) (fallback_request opts) = Response resp" and "ok resp"
    and "JSON_parse C (body resp) = Some v" and "parseData C v = Inr d"
  shows "api_fallback_try C opts False s = (Inr (Some d), after_request (fallback_request opts) s)"
  using assms
  by (simp add: api_fallback_try_def js_fetch_eq fallback_request_def response_json_def)

lemma api_network_exhausted:
  assumes ep: "endpoint opts = Some u" "u \<noteq> []"
    and h: "api_headers C = Inr hs"
    and f: "\<forall>k<3. attempt_failed C (net C (length (calls s) + k) \<lparr>url = u, headers = hs\<rparr>)"
  shows "api_network C opts b key s =
           (case api_fallback_try C opts b (snd (api_loop C b u key 0 s)) of
              (Inr (Some d), s2) \<Rightarrow> (Inr (only_data d), s2)
            | (Inr None, s2) \<Rightarrow> (Inr (only_data (getMockData opts)), s2)
            | (Inl e, s2) \<Rightarrow> (Inr (only_data (getMockData opts)), s2))"
proof -
  obtain s1 where l: "api_loop C b u key 0 s = (None, s1)"
    using api_loop_three_failures(1)[OF h f, of b key] by (cases "api_loop C b u key 0 s") auto
  show ?thesis using ep by (simp add: api_network_def l)
qed

lemma api_network_mock_server:
  assumes ep: "endpoint opts = Some u" "u \<noteq> []"
    and h: "api_headers C = Inr hs"
    and f: "\<forall>k<3. attempt_failed C (net C (length (calls s) + k) \<lparr>url = u, headers = hs\<rparr>)"
  shows "fst (api_network C opts True key s) = Inr (only_data (getMockData opts))"
    and "calls (snd (api_network C opts True key s)) = calls s @ replicate 3 \<lparr>url = u, headers = hs\<rparr>"
  using api_loop_three_failures(2)[OF h f, of True key]
  by (simp_all add: api_network_exhausted[OF ep h f] api_fallback_try_server)

lemma api_network_mock_client:
  assumes ep: "endpoint opts = Some u" "u \<noteq> []"
    and h: "api_headers C = Inr hs"
    and f: "\<forall>k<3. attempt_failed C (net C (length (calls s) + k) \<lparr>url = u, headers = hs\<rparr>)"
    and fb: "fallback_failed C (net C (length (calls s) + 3) (fallback_request opts))"
  shows "fst (api_network C opts False key s) = Inr (only_data (getMockData opts))"
    and "calls (snd (api_network C opts False key s))
          = calls s @ replicate 3 \<lparr>url = u, headers = hs\<rparr> @ [fallback_request opts]"
proof -
  let ?s1 = "snd (api_loop C False u key 0 s)"
  note ex = api_network_exhausted[OF ep h f, of False key]
  have c1: "calls ?s1 = calls s @ replicate 3 \<lparr>url = u, headers = hs\<rparr>"
    by (rule api_loop_three_failures(2)[OF h f])
  have len: "length (calls ?s1) = length (calls s) + 3" by (simp add: c1)
  have ff: "fallback_failed C (net C (length (calls ?s1)) (fallback_request opts))"
    using fb by (simp add: len)
  obtain x s2 where t: "api_fallback_try C opts False ?s1 = (x, s2)"
    by (cases "api_fallback_try C opts False ?s1")
  have nd: "x \<noteq> Inr (Some d)" for d
    using api_fallback_try_client_failed(1)[OF ff, of d] t by simp
  have s2: "s2 = after_request (fallback_request opts) ?s1"
    using api_fallback_try_client_failed(2)[OF ff] t by simp
  show "fst (api_network C opts False key s) = Inr (only_data (getMockData opts))"
    using nd t by (simp add: ex split: sum.splits option.splits)
  have "snd (api_network C opts False key s) = s2"
    using t by (simp add: ex split: sum.splits option.splits)
  then show "calls (snd (api_network C opts False key s))
          = calls s @ replicate 3 \<lparr>url = u, headers = hs\<rparr> @ [fallback_request opts]"
    by (simp add: s2 c1)
qed

lemma api_network_mock:
  assumes ep: "endpoint opts = Some u" "u \<noteq> []"
    and h: "api_headers C = Inr hs"
    and f: "\<forall>k<3. attempt_failed C (net C (length (calls s) + k) \<lparr>url = u, headers = hs\<rparr>)"
    and fb: "b \<or> fallback_failed C (net C (length (calls s) + 3) (fallback_request opts))"
  shows "fst (api_network C opts b key s) = Inr (only_data (getMockData opts))"
    and "calls (snd (api_network C opts b key s))
          = calls s @ replicate 3 \<lparr>url = u, headers = hs\<rparr> @ (if b then [] else [fallback_request opts])"
  using api_network_mock_server[OF ep h f, of key] api_network_mock_client[OF ep h f, of key] fb
  by (cases b; simp)+

lemma api_network_fallback_data:
  assumes ep: "endpoint opts = Some u" "u \<noteq> []"
    and h: "api_headers C = Inr hs"
    and f: "\<forall>k<3. attempt_failed C (net C (length (calls s) + k) \<lparr>url = u, headers = hs\<rparr>)"
    and fb: "net C (length (calls s) + 3) (fallback_request opts) = Response resp" "ok resp"
            "JSON_parse C (body resp) = Some v" "parseData C v = Inr d"
  shows "fst (api_network C opts False key s) = Inr (only_data d)"
proof -
  let ?s1 = "snd (api_loop C False u key 0 s)"
  have len: "length (calls ?s1) = length (calls s) + 3"
    by (simp add: api_loop_three_failures(2)[OF h f])
  have "api_fallback_try C opts False ?s1 = (Inr (Some d), after_request (fallback_request opts) ?s1)"
    by (rule api_fallback_try_client_ok[OF _ fb(2,3,4)]) (simp add: len fb(1))
  then show ?thesis by (simp add: api_network_exhausted[OF ep h f])
qed

lemma fetchApiData_calls_bound:
  "length (calls (snd (fetchApiData C opts b s))) \<le> length (calls s) + 4"
proof (cases "cache_miss C (api_cache_key opts) b s")
  case True
  show ?thesis
    using api_network_calls[of C opts b "api_cache_key opts" "after_check (api_cache_key opts) b s"]
    by (simp add: fetchApiData_miss[OF True])
next
  case False
  then show ?thesis
    by (cases b) (auto simp: cache_miss_def fetchApiData_server fetchApiData_client split: option.splits)
qed

text \<open>
  Claim C1. \<open>fetchApiData\<close> resolves on every input, and sends at most four requests. After
  a failed cache check with an endpoint configured, when the three attempts fail, the
  fetch has sent three requests to the endpoint and, on the client only, one more to the
  fallback endpoint \<open>/api/fallback?component=...\<close>: a usable fallback response resolves with
  its parsed data; when the fallback fails or the fetch runs with the server flag, the
  result is the mock data. The mock data are the user records for a \<open>componentId\<close> that
  contains \<open>User\<close>, else the product records for one that contains \<open>Product\<close>, else empty.
\<close>

theorem fetchApiData_never_rejects:
  "(\<exists>r. fst (fetchApiData C opts isServer s) = Inr r)
   \<and> length (calls (snd (fetchApiData C opts isServer s))) \<le> length (calls s) + 4
   \<and> (cache_miss C (api_cache_key opts) isServer s
        \<and> endpoint opts = Some u \<and> u \<noteq> [] \<and> api_headers C = Inr hs
        \<and> (\<forall>k<3. attempt_failed C (net C (length (calls s) + k) \<lparr>url = u, headers = hs\<rparr>))
        \<and> (isServer \<or> fallback_failed C (net C (length (calls s) + 3) (fallback_request opts)))
      \<longrightarrow> fst (fetchApiData C opts isServer s) = Inr (only_data (getMockData opts))
          \<and> calls (snd (fetchApiData C opts isServer s))
              = calls s @ replicate 3 \<lparr>url = u, headers = hs\<rparr>
                  @ (if isServer then [] else [fallback_request opts]))
   \<and> (cache_miss C (api_cache_key opts) False s
        \<and> endpoint opts = Some u \<and> u \<noteq> [] \<and> api_headers C = Inr hs
        \<and> (\<forall>k<3. attempt_failed C (net C (length (calls s) + k) \<lparr>url = u, headers = hs\<rparr>))
        \<and> net C (length (calls s) + 3) (fallback_request opts) = Response resp \<and> ok resp
        \<and> JSON_parse C (body resp) = Some v \<and> parseData C v = Inr d
      \<longrightarrow> fst (fetchApiData C opts False s) = Inr (only_data d))
   \<and> (js_includes (componentId opts) ''User'' \<longrightarrow> getMockData opts = mock_users)
   \<and> (\<not> js_includes (componentId opts) ''User'' \<and> js_includes (componentId opts) ''Product''
        \<longrightarrow> getMockData opts = mock_products)
   \<and> (\<not> js_includes (componentId opts) ''User'' \<and> \<not> js_includes (componentId opts) ''Product''
        \<longrightarrow> getMockData opts = [])"
proof (intro conjI impI)
  show "\<exists>r. fst (fetchApiData C opts isServer s) = Inr r" by (rule fetchApiData_resolves)
  show "length (calls (snd (fetchApiData C opts isServer s))) \<le> length (calls s) + 4"
    by (rule fetchApiData_calls_bound)
next
  assume a: "cache_miss C (api_cache_key opts) isServer s
        \<and> endpoint opts = Some u \<and> u \<noteq> [] \<and> api_headers C = Inr hs
        \<and> (\<forall>k<3. attempt_failed C (net C (length (calls s) + k) \<lparr>url = u, headers = hs\<rparr>))
        \<and> (isServer \<or> fallback_failed C (net C (length (calls s) + 3) (fallback_request opts)))"
  let ?s0 = "after_check (api_cache_key opts) isServer s"
  from a have eq: "fetchApiData C opts isServer s = api_network C opts isServer (api_cache_key opts) ?s0"
    by (simp add: fetchApiData_miss)
  from a have f: "\<forall>k<3. attempt_failed C (net C (length (calls ?s0) + k) \<lparr>url = u, headers = hs\<rparr>)"
    and fb: "isServer \<or> fallback_failed C (net C (length (calls ?s0) + 3) (fallback_request opts))"
    and ep: "endpoint opts = Some u" "u \<noteq> []" and h: "api_headers C = Inr hs"
    by simp_all
  show "fst (fetchApiData C opts isServer s) = Inr (only_data (getMockData opts))"
    using api_network_mock(1)[OF ep h f fb] by (simp add: eq)
  show "calls (snd (fetchApiData C opts isServer s))
              = calls s @ replicate 3 \<lparr>url = u, headers = hs\<rparr>
                  @ (if isServer then [] else [fallback_request opts])"
    using api_network_mock(2)[OF ep h f fb] by (simp add: eq)
next
  assume a: "cache_miss C (api_cache_key opts) False s
        \<and> endpoint opts = Some u \<and> u \<noteq> [] \<and> api_headers C = Inr hs
        \<and> (\<forall>k<3. attempt_failed C (net C (length (calls s) + k) \<lparr>url = u, headers = hs\<rparr>))
        \<and> net C (length (calls s) + 3) (fallback_request opts) = Response resp \<and> ok resp
        \<and> JSON_parse C (body resp) = Some v \<and> parseData C v = Inr d"
  let ?s0 = "after_check (api_cache_key opts) False s"
  from a have eq: "fetchApiData C opts False s = api_network C opts False (api_cache_key opts) ?s0"
    by (simp add: fetchApiData_miss)
  from a have f: "\<forall>k<3. attempt_failed C (net C (length (calls ?s0) + k) \<lparr>url = u, headers = hs\<rparr>)"
    and fb: "net C (length (calls ?s0) + 3) (fallback_request opts) = Response resp" "ok resp"
            "JSON_parse C (body resp) = Some v" "parseData C v = Inr d"
    and ep: "endpoint opts = Some u" "u \<noteq> []" and h: "api_headers C = Inr hs"
    by simp_all
  show "fst (fetchApiData C opts False s) = Inr (only_data d)"
    using api_network_fallback_data[OF ep h f fb] by (simp add: eq)
qed (simp_all add: getMockData_def)

theorem fetchApiData_never_rejects_witness:
  "fst (fetchApiData
          (sample_ctx [error_response 500 ''Internal Server Error'', NetworkFailure,
                       rate_limited_response None, error_response 404 ''Not Found''] (fixed_clock 0))
          (api_opts ''ProductList'') False empty_state)
     = Inr (only_data mock_products)
   \<and> calls (snd (fetchApiData
          (sample_ctx [error_response 500 ''Internal Server Error'', NetworkFailure,
                       rate_limited_response None, error_response 404 ''Not Found''] (fixed_clock 0))
          (api_opts ''ProductList'') False empty_state))
     = replicate 3 \<lparr>url = ''https://example.com/items'', headers = []\<rparr>
        @ [fallback_request (api_opts ''ProductList'')]
   \<and> fst (fetchApiData
          (sample_ctx [error_response 500 ''Internal Server Error'', NetworkFailure,
                       rate_limited_response None, error_response 404 ''Not Found''] (fixed_clock 0))
          (api_opts ''ProductList'') True empty_state)
     = Inr (only_data mock_products)
   \<and> fst (fetchApiData
          (sample_ctx [error_response 500 ''Internal Server Error'', NetworkFailure,
                       rate_limited_response None, ok_response ''[1,2]''] (fixed_clock 0))
          (api_opts ''ProductList'') False empty_state)
     = Inr (only_data [JNumber 1, JNumber 2])
   \<and> getMockData (api_opts ''UserTable'') = mock_users
   \<and> getMockData (api_opts ''ProductList'') = mock_products
   \<and> getMockData (api_opts ''Orders'') = []"
proof -
  let ?outs = "[error_response 500 ''Internal Server Error'', NetworkFailure,
                rate_limited_response None, error_response 404 ''Not Found'']"
  let ?outs' = "[error_response 500 ''Internal Server Error'', NetworkFailure,
                rate_limited_response None, ok_response ''[1,2]'']"
  let ?C = "sample_ctx ?outs (fixed_clock 0)"
  let ?C' = "sample_ctx ?outs' (fixed_clock 0)"
  let ?o = "api_opts ''ProductList''"
  let ?rq = "\<lparr>url = ''https://example.com/items'', headers = []\<rparr>"
  have miss: "cache_miss C0 (api_cache_key ?o) b0 empty_state" for C0 b0
    by (simp add: cache_miss_def empty_state_def map_get_def)
  have ep: "endpoint ?o = Some ''https://example.com/items''"
    by (simp add: api_opts_def new_options_def)
  have hd: "api_headers ?C = Inr []" "api_headers ?C' = Inr []"
    by (simp_all add: api_headers_def sample_ctx_def)
  have c0: "calls empty_state = []" by (simp add: empty_state_def)
  have fail: "attempt_failed ?C (net ?C (length (calls empty_state) + k) ?rq)"
             "attempt_failed ?C' (net ?C' (length (calls empty_state) + k) ?rq)" if "k < 3" for k
  proof -
    from that consider "k = 0" | "k = 1" | "k = 2" by linarith
    then show "attempt_failed ?C (net ?C (length (calls empty_state) + k) ?rq)"
      by cases
         (simp_all add: c0 sample_ctx_def script_net_def attempt_failed_def error_response_def
            rate_limited_response_def ok_def)
    from that consider "k = 0" | "k = 1" | "k = 2" by linarith
    then show "attempt_failed ?C' (net ?C' (length (calls empty_state) + k) ?rq)"
      by cases
         (simp_all add: c0 sample_ctx_def script_net_def attempt_failed_def error_response_def
            rate_limited_response_def ok_def)
  qed
  have fb: "fallback_failed ?C (net ?C (length (calls empty_state) + 3) (fallback_request ?o))"
    by (simp add: c0 sample_ctx_def script_net_def fallback_failed_def error_response_def ok_def)
  have fbok: "net ?C' (length (calls empty_state) + 3) (fallback_request ?o)
                = Response \<lparr>status = 200, statusText = ''OK'', retryAfter = None, body = ''[1,2]''\<rparr>"
    by (simp add: c0 sample_ctx_def script_net_def ok_response_def)
  have pj: "JSON_parse ?C' ''[1,2]'' = Some (JArray [JNumber 1, JNumber 2])"
    by (simp add: sample_ctx_def sample_parse_def envelope_body_def)
  have pd: "parseData ?C' (JArray [JNumber 1, JNumber 2]) = Inr [JNumber 1, JNumber 2]"
    by (simp add: sample_ctx_def sample_parseData_def)
  note A = fetchApiData_never_rejects[where C = ?C and opts = ?o and isServer = False and s = empty_state
      and u = "''https://example.com/items''" and hs = "[]"]
  have a1: "fst (fetchApiData ?C ?o False empty_state) = Inr (only_data (getMockData ?o))
          \<and> calls (snd (fetchApiData ?C ?o False empty_state))
              = calls empty_state @ replicate 3 ?rq @ (if False then [] else [fallback_request ?o])"
    using A miss ep hd fail(1) fb by blast
  note B = fetchApiData_never_rejects[where C = ?C and opts = ?o and isServer = True and s = empty_state
      and u = "''https://example.com/items''" and hs = "[]"]
  have b1: "fst (fetchApiData ?C ?o True empty_state) = Inr (only_data (getMockData ?o))"
    using B miss ep hd fail(1) by blast
  note D = fetchApiData_never_rejects[where C = ?C' and opts = ?o and s = empty_state
      and u = "''https://example.com/items''" and hs = "[]"
      and resp = "\<lparr>status = 200, statusText = ''OK'', retryAfter = None, body = ''[1,2]''\<rparr>"
      and v = "JArray [JNumber 1, JNumber 2]" and d = "[JNumber 1, JNumber 2]"]
  have okr: "ok \<lparr>status = 200, statusText = ''OK'', retryAfter = None, body = ''[1,2]''\<rparr>"
    by (simp add: ok_def)
  have "cache_miss ?C' (api_cache_key ?o) False empty_state
        \<and> endpoint ?o = Some ''https://example.com/items'' \<and> ''https://example.com/items'' \<noteq> []
        \<and> api_headers ?C' = Inr []
        \<and> (\<forall>k<3. attempt_failed ?C' (net ?C' (length (calls empty_state) + k) ?rq))
        \<and> net ?C' (length (calls empty_state) + 3) (fallback_request ?o)
             = Response \<lparr>status = 200, statusText = ''OK'', retryAfter = None, body = ''[1,2]''\<rparr>
        \<and> ok \<lparr>status = 200, statusText = ''OK'', retryAfter = None, body = ''[1,2]''\<rparr>
        \<and> JSON_parse ?C' (body \<lparr>status = 200, statusText = ''OK'', retryAfter = None, body = ''[1,2]''\<rparr>)
             = Some (JArray [JNumber 1, JNumber 2])
        \<and> parseData ?C' (JArray [JNumber 1, JNumber 2]) = Inr [JNumber 1, JNumber 2]"
    using miss ep hd fail(2) fbok pj pd okr by simp
  with D have d1: "fst (fetchApiData ?C' ?o False empty_state) = Inr (only_data [JNumber 1, JNumber 2])"
    by blast
  have iu: "js_includes (componentId (api_opts ''UserTable'')) ''User''" by code_simp
  have ip: "\<not> js_includes (componentId ?o) ''User'' \<and> js_includes (componentId ?o) ''Product''"
    by code_simp
  have io: "\<not> js_includes (componentId (api_opts ''Orders'')) ''User''
            \<and> \<not> js_includes (componentId (api_opts ''Orders'')) ''Product''"
    by code_simp
  have mu: "getMockData (api_opts ''UserTable'') = mock_users"
    using fetchApiData_never_rejects[where opts = "api_opts ''UserTable''"] iu by blast
  have mp: "getMockData ?o = mock_products"
    using A ip by blast
  have mo: "getMockData (api_opts ''Orders'') = []"
    using fetchApiData_never_rejects[where opts = "api_opts ''Orders''"] io by blast
  show ?thesis using a1 b1 d1 mu mp mo c0 by simp
qed

section \<open>Retry and backoff of the api path\<close>

lemma rate_limit_wait_cases:
  "rate_limit_wait None n = 5000"
  "rate_limit_wait (Some []) n = 5000"
  "h \<noteq> [] \<Longrightarrow> parseInt h = Some m \<Longrightarrow> m \<noteq> 0 \<Longrightarrow> rate_limit_wait (Some h) n = m * 1000"
  "h \<noteq> [] \<Longrightarrow> parseInt h = None \<or> parseInt h = Some 0 \<Longrightarrow> rate_limit_wait (Some h) n = 2 ^ n * 1000"
proof -
  have five: "parseInt ''5'' = Some 5" by code_simp
  show "rate_limit_wait None n = 5000" "rate_limit_wait (Some []) n = 5000"
    by (simp_all add: rate_limit_wait_def five)
  show "h \<noteq> [] \<Longrightarrow> parseInt h = Some m \<Longrightarrow> m \<noteq> 0 \<Longrightarrow> rate_limit_wait (Some h) n = m * 1000"
    by (simp add: rate_limit_wait_def)
  show "h \<noteq> [] \<Longrightarrow> parseInt h = None \<or> parseInt h = Some 0 \<Longrightarrow> rate_limit_wait (Some h) n = 2 ^ n * 1000"
    by (auto simp: rate_limit_wait_def)
qed

lemma api_retry_scenario:
  assumes miss: "cache_miss C (api_cache_key opts) b s"
    and ep: "endpoint opts = Some u" "u \<noteq> []"
    and h: "api_headers C = Inr hs"
    and r1: "net C (length (calls s)) \<lparr>url = u, headers = hs\<rparr> = Response resp1"
            "status resp1 = 429" "retryAfter resp1 = Some ''1''"
    and r2: "net C (length (calls s) + 1) \<lparr>url = u, headers = hs\<rparr> = Response resp2"
            "status resp2 = 500"
    and r3: "net C (length (calls s) + 2) \<lparr>url = u, headers = hs\<rparr> = Response resp3"
            "status resp3 = 200" "JSON_parse C (body resp3) = Some v" "parseData C v = Inr d"
  shows "fetchApiData C opts b s
           = (Inr (only_data d),
              store_result C b (api_cache_key opts) (only_data d)
                (after_request \<lparr>url = u, headers = hs\<rparr>
                  (js_sleep 2000 (after_request \<lparr>url = u, headers = hs\<rparr>
                    (js_sleep 1000 (after_request \<lparr>url = u, headers = hs\<rparr>
                      (after_check (api_cache_key opts) b s)))))))"
proof -
  let ?rq = "\<lparr>url = u, headers = hs\<rparr>"
  let ?key = "api_cache_key opts"
  let ?s0 = "after_check ?key b s"
  let ?s1 = "js_sleep 1000 (after_request ?rq ?s0)"
  let ?s2 = "js_sleep 2000 (after_request ?rq ?s1)"
  have one: "parseInt ''1'' = Some 1" by code_simp
  have w1: "failed_wait (Response resp1) 0 = 1000"
    using r1(2,3) by (simp add: failed_wait_def rate_limit_wait_def one)
  have w2: "failed_wait (Response resp2) (Suc 0) = 2000"
    using r2(2) by (simp add: failed_wait_def)
  have n0: "net C (length (calls ?s0)) ?rq = Response resp1" using r1(1) by simp
  have n1: "net C (length (calls ?s1)) ?rq = Response resp2" using r2(1) by simp
  have n2: "net C (length (calls ?s2)) ?rq = Response resp3" using r3(1) by (simp add: numeral_2_eq_2)
  have f0: "attempt_failed C (net C (length (calls ?s0)) ?rq)"
    unfolding n0 using r1(2) by (simp add: attempt_failed_def)
  have f1: "attempt_failed C (net C (length (calls ?s1)) ?rq)"
    unfolding n1 using r2(2) by (simp add: attempt_failed_def ok_def)
  have e1: "api_loop C b u ?key 0 ?s0 = api_loop C b u ?key (Suc 0) ?s1"
    using api_loop_step_failed[OF _ h f0, of 0 b ?key] r1(1) w1 by (simp add: MAX_RETRIES_def)
  have e2: "api_loop C b u ?key (Suc 0) ?s1 = api_loop C b u ?key (Suc (Suc 0)) ?s2"
    using api_loop_step_failed[OF _ h f1, of "Suc 0" b ?key] r2(1) w2 by (simp add: MAX_RETRIES_def)
  have e3: "api_loop C b u ?key (Suc (Suc 0)) ?s2
              = (Some d, store_result C b ?key (only_data d) (after_request ?rq ?s2))"
    by (rule api_loop_step_success[OF _ h n2 _ _ r3(3,4)])
       (simp_all add: MAX_RETRIES_def r3(2) ok_def)
  have l: "api_loop C b u ?key 0 ?s0
              = (Some d, store_result C b ?key (only_data d) (after_request ?rq ?s2))"
    by (simp only: e1 e2 e3)
  show ?thesis
    using ep by (simp add: fetchApiData_miss[OF miss] api_network_def l)
qed

text \<open>
  Claim C2, as amended. The api path makes at most three attempts. After a 429 it waits
  \<open>parseInt(Retry-After) * 1000\<close> ms when the header is present and that product is not
  zero, 5000 ms when the header is absent or empty, and \<open>2 ^ retries\<close> seconds when the
  header is present but does not begin with a non-zero integer; after any other failed
  attempt it waits \<open>2 ^ retries\<close> seconds, where \<open>retries\<close> counts the attempts made before,
  from 0. The responses 429 with \<open>Retry-After: 1\<close>, then 500, then 200 with a payload give
  exactly three requests, the delays 1000 ms and 2000 ms, and the parsed payload returned
  and stored in the cache of the side the fetch runs on.
\<close>

theorem api_retry_backoff:
  "rate_limit_wait None n = 5000
   \<and> rate_limit_wait (Some []) n = 5000
   \<and> (h \<noteq> [] \<and> parseInt h = Some m \<and> m \<noteq> 0 \<longrightarrow> rate_limit_wait (Some h) n = m * 1000)
   \<and> (h \<noteq> [] \<and> (parseInt h = None \<or> parseInt h = Some 0)
        \<longrightarrow> rate_limit_wait (Some h) n = 2 ^ n * 1000)
   \<and> (status resp = 429 \<longrightarrow> failed_wait (Response resp) n = rate_limit_wait (retryAfter resp) n)
   \<and> (status resp \<noteq> 429 \<longrightarrow> failed_wait (Response resp) n = 2 ^ n * 1000)
   \<and> failed_wait NetworkFailure n = 2 ^ n * 1000
   \<and> (n < 3 \<and> api_headers C = Inr hs
        \<and> attempt_failed C (net C (length (calls s)) \<lparr>url = u, headers = hs\<rparr>)
      \<longrightarrow> api_loop C b u key n s
            = api_loop C b u key (Suc n)
                (js_sleep (failed_wait (net C (length (calls s)) \<lparr>url = u, headers = hs\<rparr>) n)
                   (after_request \<lparr>url = u, headers = hs\<rparr> s)))
   \<and> (n < 3 \<and> api_headers C = Inl e
      \<longrightarrow> api_loop C b u key n s = api_loop C b u key (Suc n) (js_sleep (2 ^ n * 1000) s))
   \<and> (\<not> n < 3 \<longrightarrow> api_loop C b u key n s = (None, s))
   \<and> length (calls (snd (api_loop C b u key 0 s))) \<le> length (calls s) + 3
   \<and> (cache_miss C (api_cache_key opts) b s
        \<and> endpoint opts = Some u \<and> u \<noteq> [] \<and> api_headers C = Inr hs
        \<and> net C (length (calls s)) \<lparr>url = u, headers = hs\<rparr> = Response resp1
        \<and> status resp1 = 429 \<and> retryAfter resp1 = Some ''1''
        \<and> net C (length (calls s) + 1) \<lparr>url = u, headers = hs\<rparr> = Response resp2
        \<and> status resp2 = 500
        \<and> net C (length (calls s) + 2) \<lparr>url = u, headers = hs\<rparr> = Response resp3
        \<and> status resp3 = 200 \<and> JSON_parse C (body resp3) = Some v \<and> parseData C v = Inr d
      \<longrightarrow> fst (fetchApiData C opts b s) = Inr (only_data d)
          \<and> calls (snd (fetchApiData C opts b s))
              = calls s @ [\<lparr>url = u, headers = hs\<rparr>, \<lparr>url = u, headers = hs\<rparr>, \<lparr>url = u, headers = hs\<rparr>]
          \<and> sleeps (snd (fetchApiData C opts b s)) = sleeps s @ [1000, 2000]
          \<and> (if b then map_get (serverCache (snd (fetchApiData C opts b s))) (api_cache_key opts) = Some d
              else map_get (clientCache (snd (fetchApiData C opts b s))) (api_cache_key opts)
                     = Some \<lparr>data = d, totalItems = JUndefined, totalPages = JUndefined,
                             timestamp = clock C (ticks (after_check (api_cache_key opts) b s))\<rparr>))"
proof (intro conjI impI)
  show "rate_limit_wait None n = 5000" "rate_limit_wait (Some []) n = 5000"
    by (rule rate_limit_wait_cases)+
next
  assume "h \<noteq> [] \<and> parseInt h = Some m \<and> m \<noteq> 0"
  then show "rate_limit_wait (Some h) n = m * 1000" by (simp add: rate_limit_wait_cases(3))
next
  assume "h \<noteq> [] \<and> (parseInt h = None \<or> parseInt h = Some 0)"
  then show "rate_limit_wait (Some h) n = 2 ^ n * 1000" by (simp add: rate_limit_wait_cases(4))
next
  assume "status resp = 429"
  then show "failed_wait (Response resp) n = rate_limit_wait (retryAfter resp) n"
    by (simp add: failed_wait_def)
next
  assume "status resp \<noteq> 429"
  then show "failed_wait (Response resp) n = 2 ^ n * 1000" by (simp add: failed_wait_def)
next
  show "failed_wait NetworkFailure n = 2 ^ n * 1000" by (simp add: failed_wait_def)
next
  assume "n < 3 \<and> api_headers C = Inr hs
        \<and> attempt_failed C (net C (length (calls s)) \<lparr>url = u, headers = hs\<rparr>)"
  then show "api_loop C b u key n s
            = api_loop C b u key (Suc n)
                (js_sleep (failed_wait (net C (length (calls s)) \<lparr>url = u, headers = hs\<rparr>) n)
                   (after_request \<lparr>url = u, headers = hs\<rparr> s))"
    using api_loop_step_failed[of n C hs s u b key] by (simp add: MAX_RETRIES_def)
next
  assume "n < 3 \<and> api_headers C = Inl e"
  then show "api_loop C b u key n s = api_loop C b u key (Suc n) (js_sleep (2 ^ n * 1000) s)"
    using api_loop_step_no_process[of n C e b u key s] by (simp add: MAX_RETRIES_def)
next
  assume "\<not> n < 3"
  then show "api_loop C b u key n s = (None, s)"
    using api_loop_done[of n C b u key s] by (simp add: MAX_RETRIES_def)
next
  show "length (calls (snd (api_loop C b u key 0 s))) \<le> length (calls s) + 3"
    using api_loop_calls[of C b u key 0 s] by (simp add: MAX_RETRIES_def)
next
  assume a: "cache_miss C (api_cache_key opts) b s
        \<and> endpoint opts = Some u \<and> u \<noteq> [] \<and> api_headers C = Inr hs
        \<and> net C (length (calls s)) \<lparr>url = u, headers = hs\<rparr> = Response resp1
        \<and> status resp1 = 429 \<and> retryAfter resp1 = Some ''1''
        \<and> net C (length (calls s) + 1) \<lparr>url = u, headers = hs\<rparr> = Response resp2
        \<and> status resp2 = 500
        \<and> net C (length (calls s) + 2) \<lparr>url = u, headers = hs\<rparr> = Response resp3
        \<and> status resp3 = 200 \<and> JSON_parse C (body resp3) = Some v \<and> parseData C v = Inr d"
  have eq: "fetchApiData C opts b s
           = (Inr (only_data d),
              store_result C b (api_cache_key opts) (only_data d)
                (after_request \<lparr>url = u, headers = hs\<rparr>
                  (js_sleep 2000 (after_request \<lparr>url = u, headers = hs\<rparr>
                    (js_sleep 1000 (after_request \<lparr>url = u, headers = hs\<rparr>
                      (after_check (api_cache_key opts) b s)))))))"
    using a by (elim conjE) (rule api_retry_scenario; assumption)
  show "fst (fetchApiData C opts b s) = Inr (only_data d)" by (simp add: eq)
  show "calls (snd (fetchApiData C opts b s))
              = calls s @ [\<lparr>url = u, headers = hs\<rparr>, \<lparr>url = u, headers = hs\<rparr>, \<lparr>url = u, headers = hs\<rparr>]"
    by (simp add: eq)
  show "sleeps (snd (fetchApiData C opts b s)) = sleeps s @ [1000, 2000]" by (simp add: eq)
  show "if b then map_get (serverCache (snd (fetchApiData C opts b s))) (api_cache_key opts) = Some d
              else map_get (clientCache (snd (fetchApiData C opts b s))) (api_cache_key opts)
                     = Some \<lparr>data = d, totalItems = JUndefined, totalPages = JUndefined,
                             timestamp = clock C (ticks (after_check (api_cache_key opts) b s))\<rparr>"
    using eq
    by (cases b)
       (simp_all add: store_result_serverCache store_result_clientCache map_get_map_set only_data_def)
qed

theorem api_retry_backoff_witness:
  "rate_limit_wait (Some ''120'') 1 = 120000
   \<and> rate_limit_wait (Some ''Wed, 21 Oct 2015 07:28:00 GMT'') 2 = 4000
   \<and> rate_limit_wait (Some ''0'') 1 = 2000
   \<and> failed_wait (rate_limited_response (Some ''120'')) 1 = 120000
   \<and> failed_wait (error_response 500 ''Internal Server Error'') 2 = 4000
   \<and> api_loop (sample_ctx [] (fixed_clock 0)) True ''https://example.com/items'' ''api_Items'' 3 empty_state
       = (None, empty_state)
   \<and> fst (fetchApiData
        (sample_ctx [rate_limited_response (Some ''1''), error_response 500 ''Internal Server Error'',
                     ok_response ''[1,2]''] (fixed_clock 0))
        (api_opts ''Items'') True empty_state) = Inr (only_data [JNumber 1, JNumber 2])
   \<and> calls (snd (fetchApiData
        (sample_ctx [rate_limited_response (Some ''1''), error_response 500 ''Internal Server Error'',
                     ok_response ''[1,2]''] (fixed_clock 0))
        (api_opts ''Items'') True empty_state))
       = replicate 3 \<lparr>url = ''https://example.com/items'', headers = []\<rparr>
   \<and> sleeps (snd (fetchApiData
        (sample_ctx [rate_limited_response (Some ''1''), error_response 500 ''Internal Server Error'',
                     ok_response ''[1,2]''] (fixed_clock 0))
        (api_opts ''Items'') True empty_state)) = [1000, 2000]
   \<and> map_get (serverCache (snd (fetchApiData
        (sample_ctx [rate_limited_response (Some ''1''), error_response 500 ''Internal Server Error'',
                     ok_response ''[1,2]''] (fixed_clock 0))
        (api_opts ''Items'') True empty_state))) (api_cache_key (api_opts ''Items''))
       = Some [JNumber 1, JNumber 2]"
proof -
  let ?C = "sample_ctx [rate_limited_response (Some ''1''), error_response 500 ''Internal Server Error'',
                     ok_response ''[1,2]''] (fixed_clock 0)"
  let ?o = "api_opts ''Items''"
  let ?rq = "\<lparr>url = ''https://example.com/items'', headers = []\<rparr>"
  let ?r1 = "\<lparr>status = 429, statusText = ''Too Many Requests'', retryAfter = Some ''1'', body = []\<rparr>"
  let ?r2 = "\<lparr>status = 500, statusText = ''Internal Server Error'', retryAfter = None, body = []\<rparr>"
  let ?r3 = "\<lparr>status = 200, statusText = ''OK'', retryAfter = None, body = ''[1,2]''\<rparr>"
  have pi: "parseInt ''120'' = Some 120" "parseInt ''Wed, 21 Oct 2015 07:28:00 GMT'' = None"
           "parseInt ''0'' = Some 0"
    by code_simp+
  have w1: "rate_limit_wait (Some ''120'') 1 = 120000"
    using api_retry_backoff[where h = "''120''" and m = 120 and n = 1] pi(1) by simp
  have w2: "rate_limit_wait (Some ''Wed, 21 Oct 2015 07:28:00 GMT'') 2 = 4000"
    using api_retry_backoff[where h = "''Wed, 21 Oct 2015 07:28:00 GMT''" and n = 2] pi(2) by simp
  have w3: "rate_limit_wait (Some ''0'') 1 = 2000"
    using api_retry_backoff[where h = "''0''" and n = 1] pi(3) by simp
  have w4: "failed_wait (rate_limited_response (Some ''120'')) 1 = 120000"
    using api_retry_backoff[where n = 1 and resp = "\<lparr>status = 429, statusText = ''Too Many Requests'',
        retryAfter = Some ''120'', body = []\<rparr>"] w1
    by (simp add: rate_limited_response_def)
  have w5: "failed_wait (error_response 500 ''Internal Server Error'') 2 = 4000"
    using api_retry_backoff[where n = 2 and resp = ?r2] by (simp add: error_response_def)
  have dn: "api_loop (sample_ctx [] (fixed_clock 0)) True ''https://example.com/items'' ''api_Items'' 3 empty_state
       = (None, empty_state)"
    using api_retry_backoff[where n = 3 and C = "sample_ctx [] (fixed_clock 0)" and b = True
        and u = "''https://example.com/items''" and key = "''api_Items''" and s = empty_state]
    by simp
  have c0: "calls empty_state = []" "sleeps empty_state = []" by (simp_all add: empty_state_def)
  have hyp: "cache_miss ?C (api_cache_key ?o) True empty_state
        \<and> endpoint ?o = Some ''https://example.com/items'' \<and> ''https://example.com/items'' \<noteq> []
        \<and> api_headers ?C = Inr []
        \<and> net ?C (length (calls empty_state)) ?rq = Response ?r1
        \<and> status ?r1 = 429 \<and> retryAfter ?r1 = Some ''1''
        \<and> net ?C (length (calls empty_state) + 1) ?rq = Response ?r2
        \<and> status ?r2 = 500
        \<and> net ?C (length (calls empty_state) + 2) ?rq = Response ?r3
        \<and> status ?r3 = 200 \<and> JSON_parse ?C (body ?r3) = Some (JArray [JNumber 1, JNumber 2])
        \<and> parseData ?C (JArray [JNumber 1, JNumber 2]) = Inr [JNumber 1, JNumber 2]"
    by (simp add: cache_miss_def empty_state_def map_get_def api_opts_def new_options_def
          api_headers_def sample_ctx_def script_net_def rate_limited_response_def error_response_def
          ok_response_def sample_parse_def envelope_body_def sample_parseData_def)
  note A = api_retry_backoff[where C = ?C and opts = ?o and b = True and s = empty_state
      and u = "''https://example.com/items''" and hs = "[]" and ?resp1.0 = ?r1 and ?resp2.0 = ?r2
      and ?resp3.0 = ?r3 and v = "JArray [JNumber 1, JNumber 2]" and d = "[JNumber 1, JNumber 2]"]
  have res: "fst (fetchApiData ?C ?o True empty_state) = Inr (only_data [JNumber 1, JNumber 2])
          \<and> calls (snd (fetchApiData ?C ?o True empty_state)) = calls empty_state @ [?rq, ?rq, ?rq]
          \<and> sleeps (snd (fetchApiData ?C ?o True empty_state)) = sleeps empty_state @ [1000, 2000]
          \<and> (if True then map_get (serverCache (snd (fetchApiData ?C ?o True empty_state))) (api_cache_key ?o)
                         = Some [JNumber 1, JNumber 2]
              else map_get (clientCache (snd (fetchApiData ?C ?o True empty_state))) (api_cache_key ?o)
                     = Some \<lparr>data = [JNumber 1, JNumber 2], totalItems = JUndefined, totalPages = JUndefined,
                             timestamp = clock ?C (ticks (after_check (api_cache_key ?o) True empty_state))\<rparr>)"
    using A hyp by blast
  show ?thesis using w1 w2 w3 w4 w5 dn res c0 by (simp add: numeral_3_eq_3)
qed

text \<open>
  The claim as stated fails for a 429 without a \<open>Retry-After\<close> header: the first attempt
  then waits 5000 ms, not \<open>2 ^ 0\<close> seconds.
\<close>

theorem rate_limit_without_header_counterexample:
  "sleeps (snd (fetchApiData
      (sample_ctx [rate_limited_response None, ok_response ''[1,2]''] (fixed_clock 0))
      (api_opts ''Items'') True empty_state)) = [5000]
   \<and> (5000 :: int) \<noteq> 2 ^ 0 * 1000"
  by code_simp

section \<open>Shapes of a json response\<close>

text \<open>
  For a decoded body other than \<open>null\<close> the shape test does what the three branches say:
  envelope, bare array, anything else.
\<close>

lemma decode_json_response_shapes:
  assumes "responseData \<noteq> JNull" and "responseData \<noteq> JUndefined"
  shows "get_prop responseData ''data'' = Inr (JArray xs) \<Longrightarrow>
           decode_json_response C responseData =
             (case parseData C (JArray xs) of
                Inl e \<Rightarrow> Inl e
              | Inr parsedData \<Rightarrow>
                  Inr \<lparr>data = parsedData,
                       totalItems = get_prop_opt (get_prop_opt responseData ''pagination'') ''totalItems'',
                       totalPages = get_prop_opt (get_prop_opt responseData ''pagination'') ''totalPages''\<rparr>)"
    and "responseData = JArray ys \<Longrightarrow>
           decode_json_response C responseData =
             (case parseData C (JArray ys) of Inl e \<Rightarrow> Inl e | Inr parsedData \<Rightarrow> Inr (only_data parsedData))"
    and "\<not> isArray responseData \<Longrightarrow> (\<forall>xs. get_prop responseData ''data'' \<noteq> Inr (JArray xs)) \<Longrightarrow>
           decode_json_response C responseData = Inr (only_data [])"
proof -
  show "get_prop responseData ''data'' = Inr (JArray xs) \<Longrightarrow>
           decode_json_response C responseData =
             (case parseData C (JArray xs) of
                Inl e \<Rightarrow> Inl e
              | Inr parsedData \<Rightarrow>
                  Inr \<lparr>data = parsedData,
                       totalItems = get_prop_opt (get_prop_opt responseData ''pagination'') ''totalItems'',
                       totalPages = get_prop_opt (get_prop_opt responseData ''pagination'') ''totalPages''\<rparr>)"
    by (simp add: decode_json_response_def)
  show "responseData = JArray ys \<Longrightarrow>
           decode_json_response C responseData =
             (case parseData C (JArray ys) of Inl e \<Rightarrow> Inl e | Inr parsedData \<Rightarrow> Inr (only_data parsedData))"
    by (simp add: decode_json_response_def)
  show "\<not> isArray responseData \<Longrightarrow> (\<forall>xs. get_prop responseData ''data'' \<noteq> Inr (JArray xs)) \<Longrightarrow>
           decode_json_response C responseData = Inr (only_data [])"
  proof -
    assume na: "\<not> isArray responseData" and nd: "\<forall>xs. get_prop responseData ''data'' \<noteq> Inr (JArray xs)"
    obtain d where d: "get_prop responseData ''data'' = Inr d"
      using assms by (cases responseData) auto
    with nd have "\<not> isArray d" by (cases d) auto
    with d na show ?thesis by (simp add: decode_json_response_def)
  qed
qed

text \<open>
  Claim C3 fails on the body \<open>null\<close>. It is valid JSON, so \<open>response.json()\<close> resolves with
  \<open>null\<close>; the shape test begins with the read \<open>responseData.data\<close>, which throws a
  \<open>TypeError\<close> on \<open>null\<close>, and the \<open>catch\<close> rethrows it: the fetch rejects and caches
  nothing, where the branch for unexpected shapes would have answered an empty list.
\<close>

theorem fetchJsonData_null_body_rejects:
  "JSON_parse (sample_ctx [ok_response ''null''] (fixed_clock 0)) ''null'' = Some JNull
   \<and> decode_json_response (sample_ctx [ok_response ''null''] (fixed_clock 0)) JNull
       = Inl (TypeError ''Cannot read properties of null'')
   \<and> fetchJsonData (sample_ctx [ok_response ''null''] (fixed_clock 0)) product_opts True empty_state
       = (Inl (TypeError ''Cannot read properties of null''),
          empty_state\<lparr>calls := [\<lparr>url = ''http://localhost:3000/api/data?component=ProductData&dataSource=json'',
                                  headers = []\<rparr>]\<rparr>)"
  by code_simp

section \<open>The txt line grammar\<close>











section \<open>Publishing on the realtime bus\<close>

lemma upt_Suc_shift: "[0..<Suc n] = 0 # map Suc [0..<n]"
  by (simp add: upt_conv_Cons map_Suc_upt del: upt_Suc)

lemma run_callbacks_Cons: "run_callbacks (cb # cbs) ev w = run_callbacks cbs ev (snd (cb ev w))"
  by (simp add: run_callbacks_def)

lemma run_sends_Cons: "run_sends (c # cs) d w = run_sends cs d (snd (send c d w))"
  by (simp add: run_sends_def)

lemma callbacks_ok_Nil: "callbacks_ok [] ev w"
  by (simp add: callbacks_ok_def)

lemma callbacks_ok_Cons:
  "callbacks_ok (cb # cbs) ev w \<longleftrightarrow> fst (cb ev w) = Inr () \<and> callbacks_ok cbs ev (snd (cb ev w))"
proof -
  have "callbacks_ok (cb # cbs) ev w
          \<longleftrightarrow> list_all (\<lambda>i. fst (((cb # cbs) ! i) ev (run_callbacks (take i (cb # cbs)) ev w)) = Inr ())
                (0 # map Suc [0..<length cbs])"
    unfolding callbacks_ok_def by (simp only: list.size(4) upt_Suc_shift One_nat_def add_Suc_right add_0_right)
  then show ?thesis
    by (simp add: callbacks_ok_def list.pred_map comp_def run_callbacks_Cons) (simp add: run_callbacks_def)
qed

lemma emit_listeners_ok:
  "callbacks_ok cbs ev w \<Longrightarrow> emit_listeners cbs ev w = (Inr (), run_callbacks cbs ev w)"
proof (induction cbs arbitrary: w)
  case Nil
  then show ?case by (simp add: run_callbacks_def)
next
  case (Cons cb cbs)
  obtain x w1 where c: "cb ev w = (x, w1)" by (cases "cb ev w")
  from Cons.prems c have x: "x = Inr ()" and r: "callbacks_ok cbs ev w1"
    by (simp_all add: callbacks_ok_Cons)
  show ?case using Cons.IH[OF r] c x by (simp add: run_callbacks_Cons)
qed

lemma emit_listeners_throw:
  "callbacks_ok pre ev w \<Longrightarrow> cb ev (run_callbacks pre ev w) = (Inl e, w1)
     \<Longrightarrow> emit_listeners (pre @ cb # post) ev w = (Inl e, w1)"
proof (induction pre arbitrary: w)
  case Nil
  then show ?case by (simp add: run_callbacks_def)
next
  case (Cons a pre)
  obtain x wa where c: "a ev w = (x, wa)" by (cases "a ev w")
  from Cons.prems(1) c have x: "x = Inr ()" and r: "callbacks_ok pre ev wa"
    by (simp_all add: callbacks_ok_Cons)
  have "emit_listeners (pre @ cb # post) ev wa = (Inl e, w1)"
    using Cons.prems(2) c by (intro Cons.IH[OF r]) (simp add: run_callbacks_Cons)
  then show ?case using c x by simp
qed

lemma clients_kept_Cons:
  "clients_kept (c # cs) d w
     = (if fst (send c d w) = Inr () then [c] else []) @ clients_kept cs d (snd (send c d w))"
proof -
  have 0: "send_ok (c # cs) d w 0 \<longleftrightarrow> fst (send c d w) = Inr ()"
    by (simp add: send_ok_def run_sends_def)
  have S: "send_ok (c # cs) d w (Suc i) \<longleftrightarrow> send_ok cs d (snd (send c d w)) i" for i
    by (simp add: send_ok_def run_sends_Cons)
  have "clients_kept (c # cs) d w
          = map ((!) (c # cs)) (filter (send_ok (c # cs) d w) (0 # map Suc [0..<length cs]))"
    unfolding clients_kept_def by (simp only: list.size(4) upt_Suc_shift One_nat_def add_Suc_right add_0_right)
  then show ?thesis
    by (simp add: clients_kept_def filter_map comp_def 0 S)
qed

lemma broadcast_loop_exact: "broadcast_loop cs d w = (clients_kept cs d w, run_sends cs d w)"
proof (induction cs arbitrary: w)
  case Nil
  then show ?case by (simp add: clients_kept_def run_sends_def)
next
  case (Cons c cs)
  obtain x w1 where s: "send c d w = (x, w1)" by (cases "send c d w")
  show ?case
    using Cons.IH[of w1] s
    by (cases x) (simp_all add: clients_kept_Cons run_sends_Cons)
qed

lemma clients_kept_Nil: "clients_kept [] d w = []"
  by (simp add: clients_kept_def)

lemma run_callbacks_Nil: "run_callbacks [] ev w = w"
  by (simp add: run_callbacks_def)

lemma run_sends_Nil: "run_sends [] d w = w"
  by (simp add: run_sends_def)

lemma eventName_inj: "eventName a = eventName b \<longleftrightarrow> a = b"
  by (simp add: eventName_def)

lemma publish_all_ok:
  assumes "callbacks_ok (emitter M (eventName (ev_componentId ev))) ev w"
  shows "publish stringify ev (M, w)
           = (if isServerSide M
              then (case stringify ev of
                      Inl e \<Rightarrow> (Inl e, (M, run_callbacks (emitter M (eventName (ev_componentId ev))) ev w))
                    | Inr d \<Rightarrow>
                        (Inr (),
                         (M\<lparr>sseClients := clients_kept (sseClients M) d
                                (run_callbacks (emitter M (eventName (ev_componentId ev))) ev w)\<rparr>,
                          run_sends (sseClients M) d
                            (run_callbacks (emitter M (eventName (ev_componentId ev))) ev w))))
              else (Inr (), (M, run_callbacks (emitter M (eventName (ev_componentId ev))) ev w)))"
  using emit_listeners_ok[OF assms]
  by (simp add: publish_def broadcastToSSEClients_def broadcast_loop_exact split: sum.splits)

lemma publish_throw:
  assumes "emitter M (eventName (ev_componentId ev)) = pre @ thrower # post"
    and "callbacks_ok pre ev w"
    and "thrower ev (run_callbacks pre ev w) = (Inl e, w1)"
  shows "publish stringify ev (M, w) = (Inl e, (M, w1))"
  using emit_listeners_throw[where pre = pre and cb = thrower and post = post and ev = ev and w = w
      and e = e and ?w1.0 = w1] assms
  by (simp add: publish_def)

text \<open>
  Claim C7, as amended. \<open>subscribe\<close> appends the callback to the channel of its
  \<open>componentId\<close> and leaves the other channels alone; \<open>registerSSEClient\<close> appends the client.
  \<open>publish\<close> calls the callbacks subscribed to the event's channel one after the other, in
  the order of subscription, each in the world the one before it has left, until one of
  them throws: that exception leaves \<open>publish\<close> at once, the callbacks subscribed after it
  are not called, nothing is sent, and the clients stay as they were. When every callback
  returns normally (so also when there is none), off the server \<open>publish\<close> returns normally
  and nothing else happens; on the server the event is serialized, an exception of the
  serialization leaves \<open>publish\<close> before any send with the clients as they were, and
  otherwise the serialized event is sent to every registered client, in the order of
  registration, whether or not a send throws, and \<open>publish\<close> returns normally: the clients
  that remain are exactly those whose send returned normally in this call, in their order.
\<close>

theorem publish_calls_subscribers_until_throw:
  "emitter (subscribe cid cb M) (eventName cid) = emitter M (eventName cid) @ [cb]
   \<and> (cid' \<noteq> cid \<longrightarrow> emitter (subscribe cid cb M) (eventName cid') = emitter M (eventName cid'))
   \<and> sseClients (registerSSEClient i f M) = sseClients M @ [\<lparr>client_id = i, send = f\<rparr>]
   \<and> (emitter M (eventName (ev_componentId ev)) = pre @ thrower # post
        \<and> callbacks_ok pre ev w \<and> thrower ev (run_callbacks pre ev w) = (Inl e, w1)
      \<longrightarrow> publish stringify ev (M, w) = (Inl e, (M, w1)))
   \<and> (callbacks_ok (emitter M (eventName (ev_componentId ev))) ev w \<and> \<not> isServerSide M
      \<longrightarrow> publish stringify ev (M, w)
            = (Inr (), (M, run_callbacks (emitter M (eventName (ev_componentId ev))) ev w)))
   \<and> (callbacks_ok (emitter M (eventName (ev_componentId ev))) ev w \<and> isServerSide M
        \<and> stringify ev = Inl e
      \<longrightarrow> publish stringify ev (M, w)
            = (Inl e, (M, run_callbacks (emitter M (eventName (ev_componentId ev))) ev w)))
   \<and> (callbacks_ok (emitter M (eventName (ev_componentId ev))) ev w \<and> isServerSide M
        \<and> stringify ev = Inr d
      \<longrightarrow> publish stringify ev (M, w)
            = (Inr (),
               (M\<lparr>sseClients := clients_kept (sseClients M) d
                      (run_callbacks (emitter M (eventName (ev_componentId ev))) ev w)\<rparr>,
                run_sends (sseClients M) d
                  (run_callbacks (emitter M (eventName (ev_componentId ev))) ev w))))
   \<and> (emitter M (eventName (ev_componentId ev)) = []
      \<longrightarrow> callbacks_ok (emitter M (eventName (ev_componentId ev))) ev w
          \<and> run_callbacks (emitter M (eventName (ev_componentId ev))) ev w = w)"
proof (intro conjI impI)
  show "emitter (subscribe cid cb M) (eventName cid) = emitter M (eventName cid) @ [cb]"
    by (simp add: subscribe_def)
next
  assume "cid' \<noteq> cid"
  then show "emitter (subscribe cid cb M) (eventName cid') = emitter M (eventName cid')"
    by (simp add: subscribe_def eventName_inj)
next
  show "sseClients (registerSSEClient i f M) = sseClients M @ [\<lparr>client_id = i, send = f\<rparr>]"
    by (simp add: registerSSEClient_def)
next
  assume "emitter M (eventName (ev_componentId ev)) = pre @ thrower # post
        \<and> callbacks_ok pre ev w \<and> thrower ev (run_callbacks pre ev w) = (Inl e, w1)"
  then show "publish stringify ev (M, w) = (Inl e, (M, w1))"
    using publish_throw[of M ev pre thrower post w e w1 stringify] by blast
next
  assume "callbacks_ok (emitter M (eventName (ev_componentId ev))) ev w \<and> \<not> isServerSide M"
  then show "publish stringify ev (M, w)
            = (Inr (), (M, run_callbacks (emitter M (eventName (ev_componentId ev))) ev w))"
    using publish_all_ok[of M ev w stringify] by simp
next
  assume "callbacks_ok (emitter M (eventName (ev_componentId ev))) ev w \<and> isServerSide M
        \<and> stringify ev = Inl e"
  then show "publish stringify ev (M, w)
            = (Inl e, (M, run_callbacks (emitter M (eventName (ev_componentId ev))) ev w))"
    using publish_all_ok[of M ev w stringify] by simp
next
  assume "callbacks_ok (emitter M (eventName (ev_componentId ev))) ev w \<and> isServerSide M
        \<and> stringify ev = Inr d"
  then show "publish stringify ev (M, w)
            = (Inr (),
               (M\<lparr>sseClients := clients_kept (sseClients M) d
                      (run_callbacks (emitter M (eventName (ev_componentId ev))) ev w)\<rparr>,
                run_sends (sseClients M) d
                  (run_callbacks (emitter M (eventName (ev_componentId ev))) ev w)))"
    using publish_all_ok[of M ev w stringify] by simp
next
  assume z: "emitter M (eventName (ev_componentId ev)) = []"
  show "callbacks_ok (emitter M (eventName (ev_componentId ev))) ev w"
    by (simp add: z callbacks_ok_Nil)
  show "run_callbacks (emitter M (eventName (ev_componentId ev))) ev w = w"
    by (simp add: z run_callbacks_def)
qed


theorem publish_calls_subscribers_until_throw_witness:
  "emitter (sample_manager True) (eventName ''UserData'')
     = [logging_callback ''first'', logging_callback ''second'']
   \<and> emitter (subscribe ''ProductData'' (logging_callback ''late'') (sample_manager True)) (eventName ''UserData'')
     = [logging_callback ''first'', logging_callback ''second'']
   \<and> map client_id (sseClients (sample_manager True)) = [''c1'', ''c2'', ''c3'', ''c4'']
   \<and> fst (publish sample_stringify sample_event (sample_manager True, [])) = Inr ()
   \<and> snd (snd (publish sample_stringify sample_event (sample_manager True, [])))
       = [''first got UserData'', ''second got UserData'', ''c1 sent event for UserData'',
          ''c2 failed'', ''c3 failed'', ''c4 sent event for UserData'']
   \<and> map client_id (sseClients (fst (snd (publish sample_stringify sample_event (sample_manager True, [])))))
       = [''c1'', ''c4'']
   \<and> fst (full_after 4 ''c3'' ''event for UserData'' []) = Inr ()
   \<and> publish sample_stringify sample_event (sample_manager False, [])
       = (Inr (), (sample_manager False, [''first got UserData'', ''second got UserData'']))
   \<and> publish failing_stringify sample_event (sample_manager True, [])
       = (Inl (TypeError ''Do not know how to serialize a BigInt''),
          (sample_manager True, [''first got UserData'', ''second got UserData'']))
   \<and> emitter (throwing_manager True) (eventName ''UserData'')
       = [logging_callback ''first'', throwing_callback ''second'', logging_callback ''third'']
   \<and> publish sample_stringify sample_event (throwing_manager True, [])
       = (Inl (Error ''subscriber failed''),
          (throwing_manager True, [''first got UserData'', ''second threw'']))
   \<and> publish sample_stringify sample_event (empty_manager False, []) = (Inr (), (empty_manager False, []))"
proof -
  let ?M = "sample_manager True"
  let ?N = "sample_manager False"
  let ?T = "throwing_manager True"
  let ?E = "empty_manager False :: string list RealtimeManager"
  let ?P = "publish sample_stringify sample_event (?M, [])"
  let ?c1 = "\<lparr>client_id = ''c1'', send = logging_send ''c1''\<rparr>"
  let ?c2 = "\<lparr>client_id = ''c2'', send = broken_send ''c2''\<rparr>"
  let ?c3 = "\<lparr>client_id = ''c3'', send = full_after 4 ''c3''\<rparr>"
  let ?c4 = "\<lparr>client_id = ''c4'', send = logging_send ''c4''\<rparr>"
  let ?cbs = "[logging_callback ''first'', logging_callback ''second'']"
  let ?w1 = "[''first got UserData'', ''second got UserData'']"
  let ?d = "''event for UserData''"
  have cid: "ev_componentId sample_event = ''UserData''" by (simp add: sample_event_def)
  have ne: "eventName ''ProductData'' \<noteq> eventName ''UserData''" "''UserData'' \<noteq> ''ProductData''"
    by (simp_all add: eventName_def)
  have em: "emitter (sample_manager srv) (eventName ''UserData'') = ?cbs" for srv
    using ne by (simp add: sample_manager_def empty_manager_def subscribe_def registerSSEClient_def)
  have emT: "emitter ?T (eventName ''UserData'')
               = [logging_callback ''first''] @ throwing_callback ''second'' # [logging_callback ''third'']"
    by (simp add: throwing_manager_def empty_manager_def subscribe_def registerSSEClient_def)
  have emE: "emitter ?E (eventName ''UserData'') = []"
    by (simp add: empty_manager_def)
  have cl: "sseClients (sample_manager srv) = [?c1, ?c2, ?c3, ?c4]" for srv
    by (simp add: sample_manager_def empty_manager_def subscribe_def registerSSEClient_def)
  have sv: "isServerSide ?M" "\<not> isServerSide ?N" "\<not> isServerSide ?E"
    by (simp_all add: sample_manager_def empty_manager_def subscribe_def registerSSEClient_def)
  have ok: "callbacks_ok ?cbs sample_event []"
    by (simp add: callbacks_ok_Cons callbacks_ok_Nil logging_callback_def)
  have rc: "run_callbacks ?cbs sample_event [] = ?w1"
    by (simp add: run_callbacks_def logging_callback_def cid)
  have okp: "callbacks_ok [logging_callback ''first''] sample_event []"
    by (simp add: callbacks_ok_Cons callbacks_ok_Nil logging_callback_def)
  have thr: "throwing_callback ''second'' sample_event (run_callbacks [logging_callback ''first''] sample_event [])
               = (Inl (Error ''subscriber failed''), [''first got UserData'', ''second threw''])"
    by (simp add: run_callbacks_def logging_callback_def throwing_callback_def cid)
  have st: "sample_stringify sample_event = Inr ?d"
    by (simp add: sample_stringify_def cid)
  have fs: "failing_stringify sample_event = Inl (TypeError ''Do not know how to serialize a BigInt'')"
    by (simp add: failing_stringify_def)
  have kept: "clients_kept [?c1, ?c2, ?c3, ?c4] ?d ?w1 = [?c1, ?c4]"
    by (simp add: clients_kept_Cons clients_kept_Nil logging_send_def broken_send_def full_after_def)
  have sent: "run_sends [?c1, ?c2, ?c3, ?c4] ?d ?w1
                = [''first got UserData'', ''second got UserData'', ''c1 sent event for UserData'',
                   ''c2 failed'', ''c3 failed'', ''c4 sent event for UserData'']"
    by (simp add: run_sends_def logging_send_def broken_send_def full_after_def)
  have c3: "fst (full_after 4 ''c3'' ''event for UserData'' []) = Inr ()"
    by (simp add: full_after_def)
  note A = publish_calls_subscribers_until_throw[where M = ?M and ev = sample_event
      and stringify = sample_stringify and w = "[]" and d = ?d
      and cid = "''ProductData''" and cid' = "''UserData''" and cb = "logging_callback ''late''"]
  note B = publish_calls_subscribers_until_throw[where M = ?N and ev = sample_event
      and stringify = sample_stringify and w = "[]"]
  note F = publish_calls_subscribers_until_throw[where M = ?M and ev = sample_event
      and stringify = failing_stringify and w = "[]"
      and e = "TypeError ''Do not know how to serialize a BigInt''"]
  note T = publish_calls_subscribers_until_throw[where M = ?T and ev = sample_event
      and stringify = sample_stringify and w = "[]" and pre = "[logging_callback ''first'']"
      and thrower = "throwing_callback ''second''" and post = "[logging_callback ''third'']"
      and e = "Error ''subscriber failed''" and ?w1.0 = "[''first got UserData'', ''second threw'']"]
  note Z = publish_calls_subscribers_until_throw[where M = ?E and ev = sample_event
      and stringify = sample_stringify and w = "[]"]
  have late: "emitter (subscribe ''ProductData'' (logging_callback ''late'') ?M) (eventName ''UserData'') = ?cbs"
    using A ne(2) em[of True] by simp
  have p: "?P = (Inr (), (?M\<lparr>sseClients := [?c1, ?c4]\<rparr>, 
                [''first got UserData'', ''second got UserData'', ''c1 sent event for UserData'',
                   ''c2 failed'', ''c3 failed'', ''c4 sent event for UserData'']))"
  proof -
    have "?P = (Inr (),
               (?M\<lparr>sseClients := clients_kept (sseClients ?M) ?d
                      (run_callbacks (emitter ?M (eventName (ev_componentId sample_event))) sample_event [])\<rparr>,
                run_sends (sseClients ?M) ?d
                  (run_callbacks (emitter ?M (eventName (ev_componentId sample_event))) sample_event [])))"
      using A ok sv(1) st by (simp only: cid em) blast?
    then show ?thesis by (simp only: cid em cl rc kept sent)
  qed
  have off: "publish sample_stringify sample_event (?N, []) = (Inr (), (?N, ?w1))"
  proof -
    have "publish sample_stringify sample_event (?N, [])
            = (Inr (), (?N, run_callbacks (emitter ?N (eventName (ev_componentId sample_event))) sample_event []))"
      using B ok sv(2) by (simp only: cid em) blast?
    then show ?thesis by (simp only: cid em rc)
  qed
  have ser: "publish failing_stringify sample_event (?M, [])
               = (Inl (TypeError ''Do not know how to serialize a BigInt''), (?M, ?w1))"
  proof -
    have "publish failing_stringify sample_event (?M, [])
            = (Inl (TypeError ''Do not know how to serialize a BigInt''),
               (?M, run_callbacks (emitter ?M (eventName (ev_componentId sample_event))) sample_event []))"
      using F ok sv(1) fs by (simp only: cid em) blast?
    then show ?thesis by (simp only: cid em rc)
  qed
  have thw: "publish sample_stringify sample_event (?T, [])
               = (Inl (Error ''subscriber failed''), (?T, [''first got UserData'', ''second threw'']))"
    using T emT okp thr by (simp only: cid) blast?
  have zero: "publish sample_stringify sample_event (?E, []) = (Inr (), (?E, []))"
  proof -
    have 1: "callbacks_ok (emitter ?E (eventName (ev_componentId sample_event))) sample_event []"
      and 2: "run_callbacks (emitter ?E (eventName (ev_componentId sample_event))) sample_event [] = []"
      using Z emE by (simp_all only: cid) 
    have "publish sample_stringify sample_event (?E, [])
            = (Inr (), (?E, run_callbacks (emitter ?E (eventName (ev_componentId sample_event))) sample_event []))"
      using Z 1 sv(3) by blast
    then show ?thesis by (simp only: 2)
  qed
  have emT': "emitter ?T (eventName ''UserData'')
       = [logging_callback ''first'', throwing_callback ''second'', logging_callback ''third'']"
    using emT by simp
  show ?thesis
    using em[of True] late cl[of True] c3 off ser emT' thw zero by (simp add: p)
qed

text \<open>
  The claim as stated fails when a subscriber throws: the callback subscribed after it is
  not called, \<open>publish\<close> raises, and on the server nothing is sent to the registered
  client. It fails also with no subscriber on the server when the event cannot be
  serialized: \<open>publish\<close> raises.
\<close>

theorem publish_throwing_subscriber_counterexample:
  "emitter (throwing_manager True) (eventName ''UserData'')
     = [logging_callback ''first'', throwing_callback ''second'', logging_callback ''third'']
   \<and> map client_id (sseClients (throwing_manager True)) = [''c1'']
   \<and> isServerSide (throwing_manager True)
   \<and> fst (publish sample_stringify sample_event (throwing_manager True, []))
       = Inl (Error ''subscriber failed'')
   \<and> snd (snd (publish sample_stringify sample_event (throwing_manager True, [])))
       = [''first got UserData'', ''second threw'']
   \<and> emitter (empty_manager True) (eventName ''UserData'') = ([] :: string list callback list)
   \<and> fst (publish failing_stringify sample_event (empty_manager True, ([] :: string list)))
       = Inl (TypeError ''Do not know how to serialize a BigInt'')"
  by (simp add: throwing_manager_def empty_manager_def subscribe_def registerSSEClient_def
        publish_def broadcastToSSEClients_def sample_event_def logging_callback_def throwing_callback_def
        failing_stringify_def sample_stringify_def)

section \<open>The decoded lines of a txt response\<close>











section \<open>Expiry of client cache entries\<close>

lemma cacheExpirationTime_value: "cacheExpirationTime = 300000"
  by (simp add: cacheExpirationTime_def)

lemma client_hit_all_paths:
  assumes "(f, kf) \<in> set fetch_paths"
    and "map_get (clientCache s) (kf opts) = Some e"
    and "clock C (ticks s) - timestamp e < 300000"
  shows "\<exists>r. f C opts False s = (Inr r, after_tick s) \<and> data r = data e"
  using assms
  by (auto simp: fetch_paths_def raising_paths_def cacheExpirationTime_value only_data_def
        fetchJsonData_client fetchCsvData_client fetchTxtData_client fetchApiData_client)

lemma client_miss_iff:
  "cache_miss C key False s \<longleftrightarrow>
     (map_get (clientCache s) key = None
      \<or> (\<exists>e. map_get (clientCache s) key = Some e \<and> 300000 \<le> clock C (ticks s) - timestamp e))"
  by (auto simp: cache_miss_def cacheExpirationTime_value split: option.splits)

lemma raising_client_miss:
  assumes "(f, kf) \<in> set raising_paths" and "cache_miss C (kf opts) False s"
  shows "calls (snd (f C opts False s)) = calls s @ [data_request C opts False]"
    and "fst (f C opts False s) = Inr r \<Longrightarrow>
          clientCache (snd (f C opts False s))
            = map_set (clientCache s) (kf opts)
                \<lparr>data = data r, totalItems = totalItems r, totalPages = totalPages r,
                 timestamp = clock C (ticks (after_check (kf opts) False s))\<rparr>"
    and "fst (f C opts False s) = Inl err \<Longrightarrow> clientCache (snd (f C opts False s)) = clientCache s"
  using raising_path_miss[OF assms]
  by (auto simp: store_result_clientCache)

lemma ok_not_429: "ok resp \<Longrightarrow> status resp \<noteq> 429"
  by (simp add: ok_def)

lemma api_loop_success_after:
  assumes h: "api_headers C = Inr hs"
    and succ: "ok resp" "JSON_parse C (body resp) = Some v" "parseData C v = Inr d"
  shows "n + k < 3
         \<Longrightarrow> \<forall>j<k. attempt_failed C (net C (length (calls s) + j) \<lparr>url = u, headers = hs\<rparr>)
         \<Longrightarrow> net C (length (calls s) + k) \<lparr>url = u, headers = hs\<rparr> = Response resp
         \<Longrightarrow> \<exists>s0. api_loop C b u key n s = (Some d, store_result C b key (only_data d) s0)
                 \<and> same_tables s s0
                 \<and> calls s0 = calls s @ replicate (Suc k) \<lparr>url = u, headers = hs\<rparr>"
proof (induction k arbitrary: n s)
  case 0
  let ?rq = "\<lparr>url = u, headers = hs\<rparr>"
  have n: "n < MAX_RETRIES" using 0(1) by (simp add: MAX_RETRIES_def)
  have r: "net C (length (calls s)) ?rq = Response resp" using 0(3) by simp
  have "api_loop C b u key n s = (Some d, store_result C b key (only_data d) (after_request ?rq s))"
    by (rule api_loop_step_success[OF n h r ok_not_429[OF succ(1)] succ])
  then show ?case by (intro exI[of _ "after_request ?rq s"]) simp
next
  case (Suc k)
  let ?rq = "\<lparr>url = u, headers = hs\<rparr>"
  let ?s1 = "js_sleep (failed_wait (net C (length (calls s)) ?rq) n) (after_request ?rq s)"
  have n: "n < MAX_RETRIES" using Suc.prems(1) by (simp add: MAX_RETRIES_def)
  have f0: "attempt_failed C (net C (length (calls s)) ?rq)"
    using Suc.prems(2)[rule_format, of 0] by simp
  have st: "api_loop C b u key n s = api_loop C b u key (Suc n) ?s1"
    by (rule api_loop_step_failed[OF n h f0])
  have len: "length (calls ?s1) = Suc (length (calls s))" by simp
  have "\<exists>s0. api_loop C b u key (Suc n) ?s1 = (Some d, store_result C b key (only_data d) s0)
              \<and> same_tables ?s1 s0 \<and> calls s0 = calls ?s1 @ replicate (Suc k) ?rq"
  proof (rule Suc.IH)
    show "Suc n + k < 3" using Suc.prems(1) by simp
    show "\<forall>j<k. attempt_failed C (net C (length (calls ?s1) + j) ?rq)"
    proof (intro allI impI)
      fix j assume "j < k"
      then have "attempt_failed C (net C (length (calls s) + Suc j) ?rq)"
        using Suc.prems(2)[rule_format, of "Suc j"] by simp
      then show "attempt_failed C (net C (length (calls ?s1) + j) ?rq)" by (simp only: len add_Suc add_Suc_right)
    qed
    show "net C (length (calls ?s1) + k) ?rq = Response resp"
      using Suc.prems(3) by (simp only: len add_Suc add_Suc_right)
  qed
  then obtain s0 where
    s0: "api_loop C b u key (Suc n) ?s1 = (Some d, store_result C b key (only_data d) s0)"
        "same_tables ?s1 s0" "calls s0 = calls ?s1 @ replicate (Suc k) ?rq"
    by blast
  have t: "same_tables s ?s1" by (simp add: same_tables_def)
  have "same_tables s s0" by (rule same_tables_trans[OF t s0(2)])
  moreover have "calls s0 = calls s @ replicate (Suc (Suc k)) ?rq" using s0(3) by simp
  ultimately show ?case using st s0(1) by (intro exI[of _ s0]) simp
qed

lemma api_network_success_after:
  assumes ep: "endpoint opts = Some u" "u \<noteq> []"
    and h: "api_headers C = Inr hs"
    and k: "k < 3"
    and fails: "\<forall>j<k. attempt_failed C (net C (length (calls s) + j) \<lparr>url = u, headers = hs\<rparr>)"
    and r: "net C (length (calls s) + k) \<lparr>url = u, headers = hs\<rparr> = Response resp"
    and succ: "ok resp" "JSON_parse C (body resp) = Some v" "parseData C v = Inr d"
  shows "\<exists>s0. api_network C opts b key s = (Inr (only_data d), store_result C b key (only_data d) s0)
              \<and> same_tables s s0
              \<and> calls s0 = calls s @ replicate (Suc k) \<lparr>url = u, headers = hs\<rparr>"
proof -
  have "0 + k < 3" using k by simp
  from api_loop_success_after[OF h succ this fails r, of b key]
  obtain s0 where
    s0: "api_loop C b u key 0 s = (Some d, store_result C b key (only_data d) s0)"
        "same_tables s s0" "calls s0 = calls s @ replicate (Suc k) \<lparr>url = u, headers = hs\<rparr>"
    by blast
  have "api_network C opts b key s = (Inr (only_data d), store_result C b key (only_data d) s0)"
    using ep s0(1) by (simp add: api_network_def)
  with s0(2,3) show ?thesis by blast
qed

lemma api_loop_no_process:
  assumes h: "api_headers C = Inl e"
  shows "api_loop C b u key 0 s = (None, js_sleep 4000 (js_sleep 2000 (js_sleep 1000 s)))"
proof -
  have e1: "api_loop C b u key 0 s = api_loop C b u key (Suc 0) (js_sleep (2 ^ 0 * 1000) s)"
    by (rule api_loop_step_no_process[OF _ h]) (simp add: MAX_RETRIES_def)
  have e2: "api_loop C b u key (Suc 0) (js_sleep (2 ^ 0 * 1000) s)
              = api_loop C b u key (Suc (Suc 0)) (js_sleep (2 ^ Suc 0 * 1000) (js_sleep (2 ^ 0 * 1000) s))"
    by (rule api_loop_step_no_process[OF _ h]) (simp add: MAX_RETRIES_def)
  have e3: "api_loop C b u key (Suc (Suc 0)) (js_sleep (2 ^ Suc 0 * 1000) (js_sleep (2 ^ 0 * 1000) s))
              = api_loop C b u key (Suc (Suc (Suc 0)))
                  (js_sleep (2 ^ Suc (Suc 0) * 1000) (js_sleep (2 ^ Suc 0 * 1000) (js_sleep (2 ^ 0 * 1000) s)))"
    by (rule api_loop_step_no_process[OF _ h]) (simp add: MAX_RETRIES_def)
  have e4: "api_loop C b u key (Suc (Suc (Suc 0)))
                  (js_sleep (2 ^ Suc (Suc 0) * 1000) (js_sleep (2 ^ Suc 0 * 1000) (js_sleep (2 ^ 0 * 1000) s)))
              = (None, js_sleep (2 ^ Suc (Suc 0) * 1000) (js_sleep (2 ^ Suc 0 * 1000) (js_sleep (2 ^ 0 * 1000) s)))"
    by (rule api_loop_done) (simp add: MAX_RETRIES_def)
  have "api_loop C b u key 0 s
          = (None, js_sleep (2 ^ Suc (Suc 0) * 1000) (js_sleep (2 ^ Suc 0 * 1000) (js_sleep (2 ^ 0 * 1000) s)))"
    by (simp only: e1 e2 e3 e4)
  then show ?thesis by simp
qed

lemma api_fallback_try_client_state:
  "snd (api_fallback_try C opts False s) = after_request (fallback_request opts) s"
  by (auto simp: api_fallback_try_def js_fetch_eq fallback_request_def response_json_def
           split: fetch_outcome.splits option.splits sum.splits)

lemma api_network_after_loop:
  assumes ep: "endpoint opts = Some u" "u \<noteq> []"
    and l: "api_loop C False u key 0 s = (None, s1)"
  shows "snd (api_network C opts False key s) = after_request (fallback_request opts) s1"
proof -
  obtain x s2 where fb: "api_fallback_try C opts False s1 = (x, s2)"
    by (cases "api_fallback_try C opts False s1")
  have s2: "s2 = after_request (fallback_request opts) s1"
    using api_fallback_try_client_state[of C opts s1] by (simp add: fb)
  show ?thesis
    using ep l fb s2 by (simp add: api_network_def split: sum.splits option.splits)
qed

lemma api_network_three_failures_client:
  assumes ep: "endpoint opts = Some u" "u \<noteq> []"
    and h: "api_headers C = Inr hs"
    and f: "\<forall>j<3. attempt_failed C (net C (length (calls s) + j) \<lparr>url = u, headers = hs\<rparr>)"
  shows "calls (snd (api_network C opts False key s))
           = calls s @ replicate 3 \<lparr>url = u, headers = hs\<rparr> @ [fallback_request opts]"
    and "clientCache (snd (api_network C opts False key s)) = clientCache s"
proof -
  obtain s1 where l: "api_loop C False u key 0 s = (None, s1)"
    using api_loop_three_failures(1)[OF h f, where b = False and key = key]
    by (cases "api_loop C False u key 0 s") simp
  have c: "calls s1 = calls s @ replicate 3 \<lparr>url = u, headers = hs\<rparr>"
    using api_loop_three_failures(2)[OF h f, where b = False and key = key] by (simp add: l)
  have t: "same_tables s s1"
    using api_loop_three_failures(3)[OF h f, where b = False and key = key] by (simp add: l)
  note n = api_network_after_loop[OF ep l]
  show "calls (snd (api_network C opts False key s))
           = calls s @ replicate 3 \<lparr>url = u, headers = hs\<rparr> @ [fallback_request opts]"
    by (simp add: n c)
  show "clientCache (snd (api_network C opts False key s)) = clientCache s"
    using t by (simp add: n same_tables_def)
qed

lemma api_network_no_process_client:
  assumes ep: "endpoint opts = Some u" "u \<noteq> []"
    and h: "api_headers C = Inl e"
  shows "calls (snd (api_network C opts False key s)) = calls s @ [fallback_request opts]"
    and "clientCache (snd (api_network C opts False key s)) = clientCache s"
  using api_network_after_loop[OF ep api_loop_no_process[OF h]]
  by simp_all

lemma api_network_no_endpoint:
  assumes "endpoint opts = None \<or> endpoint opts = Some []"
  shows "api_network C opts b key s = (Inr (only_data []), s)"
  using assms by (auto simp: api_network_def)

lemma not_isl_Inr: "\<not> isl x \<Longrightarrow> \<exists>d. x = Inr d"
  by (cases x) simp_all

lemma not_attempt_failed:
  assumes "\<not> attempt_failed C out"
  shows "\<exists>resp v d. out = Response resp \<and> ok resp \<and> JSON_parse C (body resp) = Some v
                    \<and> parseData C v = Inr d"
  using assms
  by (cases out) (auto simp: attempt_failed_def dest: not_isl_Inr split: option.splits)

lemma first_success:
  fixes n :: nat
  assumes "\<not> (\<forall>j<n. P j)"
  shows "\<exists>k<n. \<not> P k \<and> (\<forall>j<k. P j)"
proof -
  from assms obtain j where j: "j < n" "\<not> P j" by blast
  define k where "k = (LEAST i. \<not> P i)"
  have 1: "\<not> P k" unfolding k_def by (rule LeastI[of "\<lambda>i. \<not> P i", OF j(2)])
  have 2: "k \<le> j" unfolding k_def by (rule Least_le[of "\<lambda>i. \<not> P i", OF j(2)])
  have 3: "\<forall>i<k. P i" unfolding k_def using not_less_Least by blast
  from 1 2 3 j(1) show ?thesis by (intro exI[of _ k]) auto
qed


lemma api_client_no_endpoint:
  assumes "cache_miss C (api_cache_key opts) False s"
    and "endpoint opts = None \<or> endpoint opts = Some []"
  shows "fst (fetchApiData C opts False s) = Inr (only_data [])"
    and "calls (snd (fetchApiData C opts False s)) = calls s"
    and "clientCache (snd (fetchApiData C opts False s)) = clientCache s"
  using fetchApiData_miss[OF assms(1)] api_network_no_endpoint[OF assms(2)]
  by simp_all

lemma api_client_success:
  assumes miss: "cache_miss C (api_cache_key opts) False s"
    and ep: "endpoint opts = Some u" "u \<noteq> []"
    and h: "api_headers C = Inr hs"
    and k: "k < 3"
    and fails: "\<forall>j<k. attempt_failed C (net C (length (calls s) + j) \<lparr>url = u, headers = hs\<rparr>)"
    and r: "net C (length (calls s) + k) \<lparr>url = u, headers = hs\<rparr> = Response resp"
    and succ: "ok resp" "JSON_parse C (body resp) = Some v" "parseData C v = Inr d"
  shows "fst (fetchApiData C opts False s) = Inr (only_data d)"
    and "calls (snd (fetchApiData C opts False s)) = calls s @ replicate (Suc k) \<lparr>url = u, headers = hs\<rparr>"
    and "clientCache (snd (fetchApiData C opts False s))
           = map_set (clientCache s) (api_cache_key opts)
               \<lparr>data = d, totalItems = JUndefined, totalPages = JUndefined,
                timestamp = clock C (ticks (after_check (api_cache_key opts) False s))\<rparr>"
proof -
  let ?key = "api_cache_key opts"
  let ?s0 = "after_check ?key False s"
  let ?rq = "\<lparr>url = u, headers = hs\<rparr>"
  have fails': "\<forall>j<k. attempt_failed C (net C (length (calls ?s0) + j) ?rq)"
    using fails by simp
  have r': "net C (length (calls ?s0) + k) ?rq = Response resp"
    using r by simp
  from api_network_success_after[OF ep h k fails' r' succ, of False ?key]
  obtain s1 where
    s1: "api_network C opts False ?key ?s0 = (Inr (only_data d), store_result C False ?key (only_data d) s1)"
        "same_tables ?s0 s1" "calls s1 = calls ?s0 @ replicate (Suc k) ?rq"
    by blast
  have eq: "fetchApiData C opts False s = (Inr (only_data d), store_result C False ?key (only_data d) s1)"
    using fetchApiData_miss[OF miss] s1(1) by simp
  show "fst (fetchApiData C opts False s) = Inr (only_data d)" by (simp add: eq)
  show "calls (snd (fetchApiData C opts False s)) = calls s @ replicate (Suc k) ?rq"
    using s1(3) by (simp add: eq)
  have t: "clientCache s1 = clientCache s" "ticks s1 = ticks ?s0"
    using s1(2) by (simp_all add: same_tables_def)
  show "clientCache (snd (fetchApiData C opts False s))
           = map_set (clientCache s) ?key
               \<lparr>data = d, totalItems = JUndefined, totalPages = JUndefined,
                timestamp = clock C (ticks ?s0)\<rparr>"
    by (simp add: eq store_result_clientCache t only_data_def)
qed

lemma api_client_exhausted:
  assumes miss: "cache_miss C (api_cache_key opts) False s"
    and ep: "endpoint opts = Some u" "u \<noteq> []"
    and h: "api_headers C = Inr hs"
    and f: "\<forall>j<3. attempt_failed C (net C (length (calls s) + j) \<lparr>url = u, headers = hs\<rparr>)"
  shows "calls (snd (fetchApiData C opts False s))
           = calls s @ replicate 3 \<lparr>url = u, headers = hs\<rparr> @ [fallback_request opts]"
    and "clientCache (snd (fetchApiData C opts False s)) = clientCache s"
proof -
  let ?key = "api_cache_key opts"
  let ?s0 = "after_check ?key False s"
  have f': "\<forall>j<3. attempt_failed C (net C (length (calls ?s0) + j) \<lparr>url = u, headers = hs\<rparr>)"
    using f by simp
  note n = api_network_three_failures_client[OF ep h f', of ?key]
  show "calls (snd (fetchApiData C opts False s))
           = calls s @ replicate 3 \<lparr>url = u, headers = hs\<rparr> @ [fallback_request opts]"
    using n(1) by (simp add: fetchApiData_miss[OF miss])
  show "clientCache (snd (fetchApiData C opts False s)) = clientCache s"
    using n(2) by (simp add: fetchApiData_miss[OF miss])
qed

lemma api_client_no_process:
  assumes miss: "cache_miss C (api_cache_key opts) False s"
    and ep: "endpoint opts = Some u" "u \<noteq> []"
    and h: "api_headers C = Inl err"
  shows "calls (snd (fetchApiData C opts False s)) = calls s @ [fallback_request opts]"
    and "clientCache (snd (fetchApiData C opts False s)) = clientCache s"
  using api_network_no_process_client[OF ep h, where key = "api_cache_key opts"
      and s = "after_check (api_cache_key opts) False s"]
  by (simp_all add: fetchApiData_miss[OF miss])

lemma api_client_hit_state:
  assumes "\<not> cache_miss C (api_cache_key opts) False s"
  shows "snd (fetchApiData C opts False s) = after_tick s"
  using assms
  by (auto simp: cache_miss_def fetchApiData_client split: option.splits)

lemma api_client_store_only_on_success:
  assumes ch: "clientCache (snd (fetchApiData C opts False s)) \<noteq> clientCache s"
  shows "\<exists>u hs k resp v d.
           endpoint opts = Some u \<and> api_headers C = Inr hs \<and> k < 3
           \<and> (\<forall>j<k. attempt_failed C (net C (length (calls s) + j) \<lparr>url = u, headers = hs\<rparr>))
           \<and> net C (length (calls s) + k) \<lparr>url = u, headers = hs\<rparr> = Response resp
           \<and> ok resp \<and> JSON_parse C (body resp) = Some v \<and> parseData C v = Inr d
           \<and> fst (fetchApiData C opts False s) = Inr (only_data d)"
proof -
  have miss: "cache_miss C (api_cache_key opts) False s"
  proof (rule ccontr)
    assume "\<not> cache_miss C (api_cache_key opts) False s"
    from api_client_hit_state[OF this] ch show False by simp
  qed
  have "\<not> (endpoint opts = None \<or> endpoint opts = Some [])"
    using api_client_no_endpoint(3)[OF miss] ch by blast
  then obtain u where ep: "endpoint opts = Some u" "u \<noteq> []"
    by (cases "endpoint opts") auto
  have "\<not> (\<exists>err. api_headers C = Inl err)"
    using api_client_no_process(2)[OF miss ep] ch by blast
  then obtain hs where h: "api_headers C = Inr hs"
    by (cases "api_headers C") auto
  let ?rq = "\<lparr>url = u, headers = hs\<rparr>"
  have "\<not> (\<forall>j<3. attempt_failed C (net C (length (calls s) + j) ?rq))"
    using api_client_exhausted(2)[OF miss ep h] ch by blast
  from first_success[OF this] obtain k where
    k: "k < 3" "\<not> attempt_failed C (net C (length (calls s) + k) ?rq)"
       "\<forall>j<k. attempt_failed C (net C (length (calls s) + j) ?rq)"
    by blast
  from not_attempt_failed[OF k(2)] obtain resp v d where
    r: "net C (length (calls s) + k) ?rq = Response resp" "ok resp"
       "JSON_parse C (body resp) = Some v" "parseData C v = Inr d"
    by blast
  have "fst (fetchApiData C opts False s) = Inr (only_data d)"
    by (rule api_client_success(1)[OF miss ep h k(1) k(3) r])
  with ep(1) h k(1) k(3) r show ?thesis by blast
qed

lemma client_fetch_server_unchanged:
  assumes "(f, kf) \<in> set fetch_paths"
  shows "serverCache (snd (f C opts False s)) = serverCache s"
proof -
  have j: "serverCache (snd (json_network C opts False key s0)) = serverCache s0" for key s0
    using json_network_tables[of C opts False key s0 "fst (json_network C opts False key s0)"
        "snd (json_network C opts False key s0)"]
    by (auto simp: same_tables_def store_result_serverCache)
  have c: "serverCache (snd (csv_network C opts False key s0)) = serverCache s0" for key s0
    using csv_network_tables[of C opts False key s0 "fst (csv_network C opts False key s0)"
        "snd (csv_network C opts False key s0)"]
    by (auto simp: same_tables_def store_result_serverCache)
  have t: "serverCache (snd (txt_network C opts False key s0)) = serverCache s0" for key s0
    using txt_network_tables[of C opts False key s0 "fst (txt_network C opts False key s0)"
        "snd (txt_network C opts False key s0)"]
    by (auto simp: same_tables_def store_result_serverCache)
  have a: "serverCache (snd (api_network C opts False key s0)) = serverCache s0" for key s0
    using api_network_tables'[of C opts False key s0 "fst (api_network C opts False key s0)"
        "snd (api_network C opts False key s0)"]
    by (auto simp: same_tables_def store_result_serverCache)
  from assms consider "f = fetchJsonData" | "f = fetchCsvData" | "f = fetchTxtData" | "f = fetchApiData"
    by (auto simp: fetch_paths_def raising_paths_def)
  then show ?thesis
  proof cases
    case 1
    then show ?thesis by (simp add: fetchJsonData_client j split: option.splits)
  next
    case 2
    then show ?thesis by (simp add: fetchCsvData_client c split: option.splits)
  next
    case 3
    then show ?thesis by (simp add: fetchTxtData_client t split: option.splits)
  next
    case 4
    then show ?thesis by (simp add: fetchApiData_client a split: option.splits)
  qed
qed

text \<open>
  Claim C5, as amended. For each of the four fetch paths called with the server flag false,
  an entry of the client cache under the computed key is returned without any request when
  its age, the clock minus its timestamp, is below 300000 ms. The check fails when there is
  no entry or its age is 300000 ms or more. Then the json, csv and txt paths send exactly
  one request: if the fetch resolves, the entry under the key is replaced by the result
  with the time the clock showed after the check, and if it rejects the client cache is as
  before. The api path after a failed check: with no endpoint it sends nothing and stores
  nothing; with an endpoint and request headers it repeats the request to the endpoint
  until an attempt succeeds, at most three times, and the first success, after \<open>k\<close> failed
  attempts, makes \<open>k + 1\<close> requests in all and stores that attempt's data with the time the
  clock showed after the check; when all three attempts fail it sends one more request, to
  the fallback endpoint, and stores nothing; when the headers cannot be built no attempt
  reaches the network, and only the fallback request is sent and nothing stored. In every
  case the api path sends at most four requests, and its client cache changes only when
  one of the up to three attempts succeeded. None of the four paths, called with the server
  flag false, changes the server cache.
\<close>

theorem client_cache_expiry:
  assumes "(f, kf) \<in> set fetch_paths"
  shows "(map_get (clientCache s) (kf opts) = Some e \<and> clock C (ticks s) - timestamp e < 300000
          \<longrightarrow> (\<exists>r. f C opts False s = (Inr r, after_tick s) \<and> data r = data e))
       \<and> (cache_miss C (kf opts) False s \<longleftrightarrow>
            (map_get (clientCache s) (kf opts) = None
             \<or> (\<exists>e'. map_get (clientCache s) (kf opts) = Some e'
                      \<and> 300000 \<le> clock C (ticks s) - timestamp e')))
       \<and> ((f, kf) \<in> set raising_paths \<and> cache_miss C (kf opts) False s
          \<longrightarrow> calls (snd (f C opts False s)) = calls s @ [data_request C opts False]
              \<and> (\<forall>r. fst (f C opts False s) = Inr r \<longrightarrow>
                    clientCache (snd (f C opts False s))
                      = map_set (clientCache s) (kf opts)
                          \<lparr>data = data r, totalItems = totalItems r, totalPages = totalPages r,
                           timestamp = clock C (ticks (after_check (kf opts) False s))\<rparr>)
              \<and> (\<forall>err. fst (f C opts False s) = Inl err \<longrightarrow>
                    clientCache (snd (f C opts False s)) = clientCache s))
       \<and> (cache_miss C (api_cache_key opts) False s
            \<and> (endpoint opts = None \<or> endpoint opts = Some [])
          \<longrightarrow> fst (fetchApiData C opts False s) = Inr (only_data [])
              \<and> calls (snd (fetchApiData C opts False s)) = calls s
              \<and> clientCache (snd (fetchApiData C opts False s)) = clientCache s)
       \<and> (cache_miss C (api_cache_key opts) False s
            \<and> endpoint opts = Some u \<and> u \<noteq> [] \<and> api_headers C = Inr hs \<and> k < 3
            \<and> (\<forall>j<k. attempt_failed C (net C (length (calls s) + j) \<lparr>url = u, headers = hs\<rparr>))
            \<and> net C (length (calls s) + k) \<lparr>url = u, headers = hs\<rparr> = Response resp
            \<and> ok resp \<and> JSON_parse C (body resp) = Some v \<and> parseData C v = Inr d
          \<longrightarrow> fst (fetchApiData C opts False s) = Inr (only_data d)
              \<and> calls (snd (fetchApiData C opts False s))
                  = calls s @ replicate (Suc k) \<lparr>url = u, headers = hs\<rparr>
              \<and> clientCache (snd (fetchApiData C opts False s))
                  = map_set (clientCache s) (api_cache_key opts)
                      \<lparr>data = d, totalItems = JUndefined, totalPages = JUndefined,
                       timestamp = clock C (ticks (after_check (api_cache_key opts) False s))\<rparr>)
       \<and> (cache_miss C (api_cache_key opts) False s
            \<and> endpoint opts = Some u \<and> u \<noteq> [] \<and> api_headers C = Inr hs
            \<and> (\<forall>j<3. attempt_failed C (net C (length (calls s) + j) \<lparr>url = u, headers = hs\<rparr>))
          \<longrightarrow> calls (snd (fetchApiData C opts False s))
                = calls s @ replicate 3 \<lparr>url = u, headers = hs\<rparr> @ [fallback_request opts]
              \<and> clientCache (snd (fetchApiData C opts False s)) = clientCache s)
       \<and> (cache_miss C (api_cache_key opts) False s
            \<and> endpoint opts = Some u \<and> u \<noteq> [] \<and> api_headers C = Inl herr
          \<longrightarrow> calls (snd (fetchApiData C opts False s)) = calls s @ [fallback_request opts]
              \<and> clientCache (snd (fetchApiData C opts False s)) = clientCache s)
       \<and> length (calls (snd (fetchApiData C opts False s))) \<le> length (calls s) + 4
       \<and> (clientCache (snd (fetchApiData C opts False s)) \<noteq> clientCache s
          \<longrightarrow> (\<exists>u' hs' k' resp' v' d'.
                 endpoint opts = Some u' \<and> api_headers C = Inr hs' \<and> k' < 3
                 \<and> (\<forall>j<k'. attempt_failed C (net C (length (calls s) + j) \<lparr>url = u', headers = hs'\<rparr>))
                 \<and> net C (length (calls s) + k') \<lparr>url = u', headers = hs'\<rparr> = Response resp'
                 \<and> ok resp' \<and> JSON_parse C (body resp') = Some v' \<and> parseData C v' = Inr d'
                 \<and> fst (fetchApiData C opts False s) = Inr (only_data d')))
       \<and> serverCache (snd (f C opts False s)) = serverCache s"
proof (intro conjI)
  show "map_get (clientCache s) (kf opts) = Some e \<and> clock C (ticks s) - timestamp e < 300000
          \<longrightarrow> (\<exists>r. f C opts False s = (Inr r, after_tick s) \<and> data r = data e)"
    using client_hit_all_paths[OF assms] by blast
  show "cache_miss C (kf opts) False s \<longleftrightarrow>
            (map_get (clientCache s) (kf opts) = None
             \<or> (\<exists>e'. map_get (clientCache s) (kf opts) = Some e'
                      \<and> 300000 \<le> clock C (ticks s) - timestamp e'))"
    by (rule client_miss_iff)
  show "(f, kf) \<in> set raising_paths \<and> cache_miss C (kf opts) False s
          \<longrightarrow> calls (snd (f C opts False s)) = calls s @ [data_request C opts False]
              \<and> (\<forall>r. fst (f C opts False s) = Inr r \<longrightarrow>
                    clientCache (snd (f C opts False s))
                      = map_set (clientCache s) (kf opts)
                          \<lparr>data = data r, totalItems = totalItems r, totalPages = totalPages r,
                           timestamp = clock C (ticks (after_check (kf opts) False s))\<rparr>)
              \<and> (\<forall>err. fst (f C opts False s) = Inl err \<longrightarrow>
                    clientCache (snd (f C opts False s)) = clientCache s)"
    using raising_client_miss[of f kf C opts s] by blast
  show "cache_miss C (api_cache_key opts) False s
            \<and> (endpoint opts = None \<or> endpoint opts = Some [])
          \<longrightarrow> fst (fetchApiData C opts False s) = Inr (only_data [])
              \<and> calls (snd (fetchApiData C opts False s)) = calls s
              \<and> clientCache (snd (fetchApiData C opts False s)) = clientCache s"
    using api_client_no_endpoint[of C opts s] by blast
  show "cache_miss C (api_cache_key opts) False s
            \<and> endpoint opts = Some u \<and> u \<noteq> [] \<and> api_headers C = Inr hs \<and> k < 3
            \<and> (\<forall>j<k. attempt_failed C (net C (length (calls s) + j) \<lparr>url = u, headers = hs\<rparr>))
            \<and> net C (length (calls s) + k) \<lparr>url = u, headers = hs\<rparr> = Response resp
            \<and> ok resp \<and> JSON_parse C (body resp) = Some v \<and> parseData C v = Inr d
          \<longrightarrow> fst (fetchApiData C opts False s) = Inr (only_data d)
              \<and> calls (snd (fetchApiData C opts False s))
                  = calls s @ replicate (Suc k) \<lparr>url = u, headers = hs\<rparr>
              \<and> clientCache (snd (fetchApiData C opts False s))
                  = map_set (clientCache s) (api_cache_key opts)
                      \<lparr>data = d, totalItems = JUndefined, totalPages = JUndefined,
                       timestamp = clock C (ticks (after_check (api_cache_key opts) False s))\<rparr>"
    using api_client_success[of C opts s u hs k resp v d] by blast
  show "cache_miss C (api_cache_key opts) False s
            \<and> endpoint opts = Some u \<and> u \<noteq> [] \<and> api_headers C = Inr hs
            \<and> (\<forall>j<3. attempt_failed C (net C (length (calls s) + j) \<lparr>url = u, headers = hs\<rparr>))
          \<longrightarrow> calls (snd (fetchApiData C opts False s))
                = calls s @ replicate 3 \<lparr>url = u, headers = hs\<rparr> @ [fallback_request opts]
              \<and> clientCache (snd (fetchApiData C opts False s)) = clientCache s"
    using api_client_exhausted[of C opts s u hs] by blast
  show "cache_miss C (api_cache_key opts) False s
            \<and> endpoint opts = Some u \<and> u \<noteq> [] \<and> api_headers C = Inl herr
          \<longrightarrow> calls (snd (fetchApiData C opts False s)) = calls s @ [fallback_request opts]
              \<and> clientCache (snd (fetchApiData C opts False s)) = clientCache s"
    using api_client_no_process[of C opts s u herr] by blast
  show "length (calls (snd (fetchApiData C opts False s))) \<le> length (calls s) + 4"
    by (rule fetchApiData_calls_bound)
  show "clientCache (snd (fetchApiData C opts False s)) \<noteq> clientCache s
          \<longrightarrow> (\<exists>u' hs' k' resp' v' d'.
                 endpoint opts = Some u' \<and> api_headers C = Inr hs' \<and> k' < 3
                 \<and> (\<forall>j<k'. attempt_failed C (net C (length (calls s) + j) \<lparr>url = u', headers = hs'\<rparr>))
                 \<and> net C (length (calls s) + k') \<lparr>url = u', headers = hs'\<rparr> = Response resp'
                 \<and> ok resp' \<and> JSON_parse C (body resp') = Some v' \<and> parseData C v' = Inr d'
                 \<and> fst (fetchApiData C opts False s) = Inr (only_data d'))"
    using api_client_store_only_on_success[of C opts s] by blast
  show "serverCache (snd (f C opts False s)) = serverCache s"
    by (rule client_fetch_server_unchanged[OF assms])
qed


theorem client_cache_expiry_witness:
  "(fetchJsonData, json_cache_key) \<in> set fetch_paths
   \<and> (fetchJsonData, json_cache_key) \<in> set raising_paths
   \<and> (fetchApiData, api_cache_key) \<in> set fetch_paths
   \<and> map_get (clientCache old_json_state) (json_cache_key product_opts) = Some (sample_entry [JNumber 9] 0)
   \<and> (\<exists>r. fetchJsonData (sample_ctx [ok_response ''[1,2]''] (fixed_clock 299999)) product_opts False old_json_state
            = (Inr r, after_tick old_json_state) \<and> data r = [JNumber 9])
   \<and> cache_miss (sample_ctx [ok_response ''[1,2]''] (fixed_clock 300000)) (json_cache_key product_opts) False old_json_state
   \<and> calls (snd (fetchJsonData (sample_ctx [ok_response ''[1,2]''] (fixed_clock 300000)) product_opts False old_json_state))
       = [data_request (sample_ctx [ok_response ''[1,2]''] (fixed_clock 300000)) product_opts False]
   \<and> clientCache (snd (fetchJsonData (sample_ctx [ok_response ''[1,2]''] (fixed_clock 300000)) product_opts False old_json_state))
       = [(''json_ProductData'', \<lparr>data = [JNumber 1, JNumber 2], totalItems = JUndefined, totalPages = JUndefined, timestamp = 300000\<rparr>)]
   \<and> fst (fetchJsonData (sample_ctx [error_response 500 ''Internal Server Error''] (fixed_clock 300000)) product_opts False old_json_state)
       = Inl (Error ''Failed to fetch data: Internal Server Error'')
   \<and> clientCache (snd (fetchJsonData (sample_ctx [error_response 500 ''Internal Server Error''] (fixed_clock 300000)) product_opts False old_json_state))
       = clientCache old_json_state
   \<and> fst (fetchApiData (sample_ctx [] (fixed_clock 300000)) ((api_opts ''Items'')\<lparr>endpoint := None\<rparr>) False stale_api_state) = Inr (only_data [])
   \<and> calls (snd (fetchApiData (sample_ctx [] (fixed_clock 300000)) ((api_opts ''Items'')\<lparr>endpoint := None\<rparr>) False stale_api_state)) = []
   \<and> clientCache (snd (fetchApiData (sample_ctx [] (fixed_clock 300000)) ((api_opts ''Items'')\<lparr>endpoint := None\<rparr>) False stale_api_state)) = clientCache stale_api_state
   \<and> fst (fetchApiData (sample_ctx [error_response 500 ''Internal Server Error'', ok_response ''[1,2]''] (fixed_clock 300000)) (api_opts ''Items'') False stale_api_state) = Inr (only_data [JNumber 1, JNumber 2])
   \<and> calls (snd (fetchApiData (sample_ctx [error_response 500 ''Internal Server Error'', ok_response ''[1,2]''] (fixed_clock 300000)) (api_opts ''Items'') False stale_api_state)) = replicate 2 \<lparr>url = ''https://example.com/items'', headers = []\<rparr>
   \<and> clientCache (snd (fetchApiData (sample_ctx [error_response 500 ''Internal Server Error'', ok_response ''[1,2]''] (fixed_clock 300000)) (api_opts ''Items'') False stale_api_state))
       = [(''api_Items'', \<lparr>data = [JNumber 1, JNumber 2], totalItems = JUndefined, totalPages = JUndefined, timestamp = 300000\<rparr>)]
   \<and> calls (snd (fetchApiData (sample_ctx [error_response 500 ''Internal Server Error'', NetworkFailure, rate_limited_response None, ok_response ''[1,2]''] (fixed_clock 300000)) (api_opts ''Items'') False stale_api_state))
       = replicate 3 \<lparr>url = ''https://example.com/items'', headers = []\<rparr> @ [fallback_request (api_opts ''Items'')]
   \<and> clientCache (snd (fetchApiData (sample_ctx [error_response 500 ''Internal Server Error'', NetworkFailure, rate_limited_response None, ok_response ''[1,2]''] (fixed_clock 300000)) (api_opts ''Items'') False stale_api_state)) = clientCache stale_api_state
   \<and> calls (snd (fetchApiData ((sample_ctx [ok_response ''[1,2]''] (fixed_clock 300000))\<lparr>process_defined := False\<rparr>) (api_opts ''Items'') False stale_api_state)) = [fallback_request (api_opts ''Items'')]
   \<and> clientCache (snd (fetchApiData ((sample_ctx [ok_response ''[1,2]''] (fixed_clock 300000))\<lparr>process_defined := False\<rparr>) (api_opts ''Items'') False stale_api_state)) = clientCache stale_api_state
   \<and> clientCache (snd (fetchApiData (sample_ctx [error_response 500 ''Internal Server Error'', ok_response ''[1,2]''] (fixed_clock 300000)) (api_opts ''Items'') False stale_api_state)) \<noteq> clientCache stale_api_state
   \<and> (\<exists>k' resp'. k' < 3 \<and> net (sample_ctx [error_response 500 ''Internal Server Error'', ok_response ''[1,2]''] (fixed_clock 300000)) k' \<lparr>url = ''https://example.com/items'', headers = []\<rparr> = Response resp' \<and> ok resp')
   \<and> serverCache (snd (fetchApiData (sample_ctx [error_response 500 ''Internal Server Error'', ok_response ''[1,2]''] (fixed_clock 300000)) (api_opts ''Items'') False stale_api_state)) = []"
proof -
  let ?Cf = "(sample_ctx [ok_response ''[1,2]''] (fixed_clock 299999))"
  let ?Cs = "(sample_ctx [ok_response ''[1,2]''] (fixed_clock 300000))"
  let ?Ce = "(sample_ctx [error_response 500 ''Internal Server Error''] (fixed_clock 300000))"
  let ?C0 = "(sample_ctx [] (fixed_clock 300000))"
  let ?Ca = "(sample_ctx [error_response 500 ''Internal Server Error'', ok_response ''[1,2]''] (fixed_clock 300000))"
  let ?C3 = "(sample_ctx [error_response 500 ''Internal Server Error'', NetworkFailure, rate_limited_response None, ok_response ''[1,2]''] (fixed_clock 300000))"
  let ?Cn = "((sample_ctx [ok_response ''[1,2]''] (fixed_clock 300000))\<lparr>process_defined := False\<rparr>)"
  let ?o = "(api_opts ''Items'')"
  let ?on = "((api_opts ''Items'')\<lparr>endpoint := None\<rparr>)"
  let ?u = "''https://example.com/items''"
  let ?rq = "\<lparr>url = ''https://example.com/items'', headers = []\<rparr>"
  let ?r200 = "\<lparr>status = 200, statusText = ''OK'', retryAfter = None, body = ''[1,2]''\<rparr>"
  let ?d = "[JNumber 1, JNumber 2]"
  have m: "(fetchJsonData, json_cache_key) \<in> set fetch_paths"
    by (simp add: fetch_paths_def raising_paths_def)
  have m': "(fetchJsonData, json_cache_key) \<in> set raising_paths"
    by (simp add: raising_paths_def)
  have ma: "(fetchApiData, api_cache_key) \<in> set fetch_paths"
    by (simp add: fetch_paths_def)
  have ent: "map_get (clientCache old_json_state) (json_cache_key product_opts) = Some (sample_entry [JNumber 9] 0)"
    by code_simp
  have ts: "timestamp (sample_entry [JNumber 9] 0) = 0" "data (sample_entry [JNumber 9] 0) = [JNumber 9]"
    by (simp_all add: sample_entry_def)
  have ckf: "clock ?Cf k = 299999" for k
    by (simp add: sample_ctx_def fixed_clock_def)
  have c0: "calls old_json_state = []" "calls stale_api_state = []"
    by (simp_all add: old_json_state_def stale_api_state_def)
  note A = client_cache_expiry[OF m, where s = old_json_state and opts = product_opts and C = ?Cf
      and e = "sample_entry [JNumber 9] 0"]
  have fresh: "\<exists>r. fetchJsonData ?Cf product_opts False old_json_state = (Inr r, after_tick old_json_state)
                    \<and> data r = [JNumber 9]"
    using A[THEN conjunct1] ent ts ckf by simp
  note B = client_cache_expiry[OF m, where s = old_json_state and opts = product_opts and C = ?Cs]
  have missj: "cache_miss ?Cs (json_cache_key product_opts) False old_json_state" by code_simp
  have res: "fst (fetchJsonData ?Cs product_opts False old_json_state) = Inr (only_data ?d)"
    by code_simp
  have one: "calls (snd (fetchJsonData ?Cs product_opts False old_json_state))
               = calls old_json_state @ [data_request ?Cs product_opts False]"
    using B[THEN conjunct2, THEN conjunct2, THEN conjunct1] m' missj by blast
  have st: "clientCache (snd (fetchJsonData ?Cs product_opts False old_json_state))
             = map_set (clientCache old_json_state) (json_cache_key product_opts)
                 \<lparr>data = data (only_data ?d), totalItems = totalItems (only_data ?d),
                  totalPages = totalPages (only_data ?d),
                  timestamp = clock ?Cs (ticks (after_check (json_cache_key product_opts) False old_json_state))\<rparr>"
    using B[THEN conjunct2, THEN conjunct2, THEN conjunct1] m' missj res by blast
  have stv: "map_set (clientCache old_json_state) (json_cache_key product_opts)
                 \<lparr>data = data (only_data ?d), totalItems = totalItems (only_data ?d),
                  totalPages = totalPages (only_data ?d),
                  timestamp = clock ?Cs (ticks (after_check (json_cache_key product_opts) False old_json_state))\<rparr>
               = [(''json_ProductData'', \<lparr>data = [JNumber 1, JNumber 2], totalItems = JUndefined, totalPages = JUndefined, timestamp = 300000\<rparr>)]"
    by code_simp
  note E = client_cache_expiry[OF m, where s = old_json_state and opts = product_opts and C = ?Ce]
  have misse: "cache_miss ?Ce (json_cache_key product_opts) False old_json_state" by code_simp
  have rej: "fst (fetchJsonData ?Ce product_opts False old_json_state)
               = Inl (Error ''Failed to fetch data: Internal Server Error'')"
    by (simp add: fetchJsonData_def json_cache_key_def product_opts_def new_options_def
          client_cache_fresh_def old_json_state_def map_get_def sample_entry_def date_now_def
          sample_ctx_def fixed_clock_def cacheExpirationTime_def json_network_def js_fetch_def
          getUrl_def getDataUrl_def script_net_def error_response_def ok_def Let_def)
  have same: "clientCache (snd (fetchJsonData ?Ce product_opts False old_json_state)) = clientCache old_json_state"
    using E[THEN conjunct2, THEN conjunct2, THEN conjunct1] m' misse rej by blast
  have missa: "cache_miss C0 (api_cache_key ?o) False stale_api_state"
    if "clock C0 = fixed_clock 300000" for C0
    using that
    by (simp add: cache_miss_def stale_api_state_def map_get_def api_cache_key_def api_opts_def
          new_options_def sample_entry_def fixed_clock_def cacheExpirationTime_def)
  have ck: "clock ?C0 = fixed_clock 300000" "clock ?Ca = fixed_clock 300000"
    "clock ?C3 = fixed_clock 300000" "clock ?Cn = fixed_clock 300000"
    by (simp_all add: sample_ctx_def)
  have key: "api_cache_key ?on = api_cache_key ?o" by (simp add: api_cache_key_def)
  have ep: "endpoint ?o = Some ?u" "endpoint ?on = None" "?u \<noteq> []"
    by (simp_all add: api_opts_def new_options_def)
  have hd: "api_headers ?Ca = Inr []" "api_headers ?C3 = Inr []"
    "api_headers ?Cn = Inl (ReferenceError ''process is not defined'')"
    by (simp_all add: api_headers_def sample_ctx_def)
  note N = client_cache_expiry[OF ma, where s = stale_api_state and opts = ?on and C = ?C0]
  have n1: "fst (fetchApiData ?C0 ?on False stale_api_state) = Inr (only_data [])
            \<and> calls (snd (fetchApiData ?C0 ?on False stale_api_state)) = calls stale_api_state
            \<and> clientCache (snd (fetchApiData ?C0 ?on False stale_api_state)) = clientCache stale_api_state"
    using N[THEN conjunct2, THEN conjunct2, THEN conjunct2, THEN conjunct1] missa[OF ck(1)] ep(2) by (simp only: key) blast?
  note S = client_cache_expiry[OF ma, where s = stale_api_state and opts = ?o and C = ?Ca
      and u = ?u and hs = "[]" and k = 1 and resp = ?r200 and v = "JArray ?d" and d = ?d]
  have f0: "\<forall>j<1. attempt_failed ?Ca (net ?Ca (length (calls stale_api_state) + j) ?rq)"
    by (simp add: c0 sample_ctx_def script_net_def attempt_failed_def error_response_def ok_def)
  have r1: "net ?Ca (length (calls stale_api_state) + 1) ?rq = Response ?r200"
    by (simp add: c0 sample_ctx_def script_net_def ok_response_def)
  have okr: "ok ?r200" by (simp add: ok_def)
  have pj: "JSON_parse ?Ca (body ?r200) = Some (JArray ?d)"
    by (simp add: sample_ctx_def sample_parse_def envelope_body_def)
  have pd: "parseData ?Ca (JArray ?d) = Inr ?d"
    by (simp add: sample_ctx_def sample_parseData_def)
  have hypS: "cache_miss ?Ca (api_cache_key ?o) False stale_api_state
            \<and> endpoint ?o = Some ?u \<and> ?u \<noteq> [] \<and> api_headers ?Ca = Inr [] \<and> (1::nat) < 3
            \<and> (\<forall>j<1. attempt_failed ?Ca (net ?Ca (length (calls stale_api_state) + j) ?rq))
            \<and> net ?Ca (length (calls stale_api_state) + 1) ?rq = Response ?r200
            \<and> ok ?r200 \<and> JSON_parse ?Ca (body ?r200) = Some (JArray ?d) \<and> parseData ?Ca (JArray ?d) = Inr ?d"
    using missa[OF ck(2)] ep(1,3) hd(1) f0 r1 okr pj pd by simp
  have s1: "fst (fetchApiData ?Ca ?o False stale_api_state) = Inr (only_data ?d)"
    and s2: "calls (snd (fetchApiData ?Ca ?o False stale_api_state))
               = calls stale_api_state @ replicate (Suc 1) ?rq"
    and s3: "clientCache (snd (fetchApiData ?Ca ?o False stale_api_state))
               = map_set (clientCache stale_api_state) (api_cache_key ?o)
                   \<lparr>data = ?d, totalItems = JUndefined, totalPages = JUndefined,
                    timestamp = clock ?Ca (ticks (after_check (api_cache_key ?o) False stale_api_state))\<rparr>"
    using S[THEN conjunct2, THEN conjunct2, THEN conjunct2, THEN conjunct2, THEN conjunct1] hypS by blast+
  have s3v: "map_set (clientCache stale_api_state) (api_cache_key ?o)
                   \<lparr>data = ?d, totalItems = JUndefined, totalPages = JUndefined,
                    timestamp = clock ?Ca (ticks (after_check (api_cache_key ?o) False stale_api_state))\<rparr>
               = [(''api_Items'', \<lparr>data = [JNumber 1, JNumber 2], totalItems = JUndefined, totalPages = JUndefined, timestamp = 300000\<rparr>)]"
    by code_simp
  note T = client_cache_expiry[OF ma, where s = stale_api_state and opts = ?o and C = ?C3
      and u = ?u and hs = "[]"]
  have f3: "\<forall>j<3. attempt_failed ?C3 (net ?C3 (length (calls stale_api_state) + j) ?rq)"
  proof (intro allI impI)
    fix j :: nat assume "j < 3"
    then consider "j = 0" | "j = 1" | "j = 2" by linarith
    then show "attempt_failed ?C3 (net ?C3 (length (calls stale_api_state) + j) ?rq)"
      by cases
         (simp_all add: c0 sample_ctx_def script_net_def attempt_failed_def error_response_def
            rate_limited_response_def ok_def)
  qed
  have t1: "calls (snd (fetchApiData ?C3 ?o False stale_api_state))
              = calls stale_api_state @ replicate 3 ?rq @ [fallback_request ?o]"
    and t2: "clientCache (snd (fetchApiData ?C3 ?o False stale_api_state)) = clientCache stale_api_state"
    using T[THEN conjunct2, THEN conjunct2, THEN conjunct2, THEN conjunct2, THEN conjunct2, THEN conjunct1] missa[OF ck(3)] ep(1,3) hd(2) f3 by blast+
  note P = client_cache_expiry[OF ma, where s = stale_api_state and opts = ?o and C = ?Cn
      and u = ?u and herr = "ReferenceError ''process is not defined''"]
  have p1: "calls (snd (fetchApiData ?Cn ?o False stale_api_state))
              = calls stale_api_state @ [fallback_request ?o]"
    and p2: "clientCache (snd (fetchApiData ?Cn ?o False stale_api_state)) = clientCache stale_api_state"
    using P[THEN conjunct2, THEN conjunct2, THEN conjunct2, THEN conjunct2, THEN conjunct2, THEN conjunct2, THEN conjunct1] missa[OF ck(4)] ep(1,3) hd(3) by blast+
  have ch: "clientCache (snd (fetchApiData ?Ca ?o False stale_api_state)) \<noteq> clientCache stale_api_state"
    by (simp add: s3 s3v) (simp add: stale_api_state_def sample_entry_def)
  have "\<exists>u' hs' k' resp' v' d'.
          endpoint ?o = Some u' \<and> api_headers ?Ca = Inr hs' \<and> k' < 3
          \<and> (\<forall>j<k'. attempt_failed ?Ca (net ?Ca (length (calls stale_api_state) + j) \<lparr>url = u', headers = hs'\<rparr>))
          \<and> net ?Ca (length (calls stale_api_state) + k') \<lparr>url = u', headers = hs'\<rparr> = Response resp'
          \<and> ok resp' \<and> JSON_parse ?Ca (body resp') = Some v' \<and> parseData ?Ca v' = Inr d'
          \<and> fst (fetchApiData ?Ca ?o False stale_api_state) = Inr (only_data d')"
    using S[THEN conjunct2, THEN conjunct2, THEN conjunct2, THEN conjunct2, THEN conjunct2, THEN conjunct2, THEN conjunct2, THEN conjunct2, THEN conjunct1] ch by blast
  then have ex: "\<exists>k' resp'. k' < 3 \<and> net ?Ca k' ?rq = Response resp' \<and> ok resp'"
    using ep(1) hd(1) c0(2) by auto
  have sc: "serverCache (snd (fetchApiData ?Ca ?o False stale_api_state)) = []"
    using S[THEN conjunct2, THEN conjunct2, THEN conjunct2, THEN conjunct2, THEN conjunct2, THEN conjunct2, THEN conjunct2, THEN conjunct2, THEN conjunct2] by (simp add: stale_api_state_def)
  show ?thesis
    using m m' ma ent fresh missj one st stv rej same n1 s1 s2 s3 s3v t1 t2 p1 p2 ch ex sc c0
    by (simp add: numeral_2_eq_2)
qed

text \<open>
  The claim as stated fails on the api path: with an entry exactly 300000 ms old and an
  endpoint that answers 500 and then 200, the fetch sends two requests, not one.
\<close>

theorem client_miss_one_request_counterexample:
  "map_get (clientCache stale_api_state) (api_cache_key (api_opts ''Items''))
     = Some (sample_entry [JNumber 9] 0)
   \<and> fixed_clock 300000 (ticks stale_api_state) - timestamp (sample_entry [JNumber 9] 0) = 300000
   \<and> calls stale_api_state = []
   \<and> length (calls (snd (fetchApiData
         (sample_ctx [error_response 500 ''Internal Server Error'', ok_response ''[1,2]''] (fixed_clock 300000))
         (api_opts ''Items'') False stale_api_state))) = 2"
  by code_simp

end
